(* ===== verification/Prelude.thy ===== *)
theory Prelude
  imports "HOL-Library.Word" "HOL-Library.Sublist" "HOL-Library.Char_ord" "HOL-Library.List_Lexorder"
begin

text \<open>
  Shared vocabulary of the development: error numbers, the result type and the sequential
  programs the stateful components are written in, the C++ string and container operations
  the sources use, and the rules the component proofs are built from.
\<close>

section \<open>Collections\<close>

named_theorems prog_simps "unfolding rules of the program combinators"
named_theorems frame_intros "introduction rules for frame conditions of programs"
named_theorems path_simps "facts that move between relative path strings and segment lists"

section \<open>Error numbers\<close>

text \<open>The \<^verbatim>\<open>errno\<close> values of Linux that the sources name.\<close>

type_synonym errno = int

abbreviation ENOENT :: errno where "ENOENT \<equiv> 2"
abbreviation EIO :: errno where "EIO \<equiv> 5"
abbreviation EBADF :: errno where "EBADF \<equiv> 9"
abbreviation EACCES :: errno where "EACCES \<equiv> 13"
abbreviation EBUSY :: errno where "EBUSY \<equiv> 16"
abbreviation EEXIST :: errno where "EEXIST \<equiv> 17"
abbreviation EXDEV :: errno where "EXDEV \<equiv> 18"
abbreviation ENOTDIR :: errno where "ENOTDIR \<equiv> 20"
abbreviation EISDIR :: errno where "EISDIR \<equiv> 21"
abbreviation EINVAL :: errno where "EINVAL \<equiv> 22"
abbreviation ENOSPC :: errno where "ENOSPC \<equiv> 28"
abbreviation ENOTEMPTY :: errno where "ENOTEMPTY \<equiv> 39"
abbreviation ELOOP :: errno where "ELOOP \<equiv> 40"
abbreviation ENOTSUP :: errno where "ENOTSUP \<equiv> 95"

section \<open>Programs: state passing with error results and process exit\<close>

text \<open>
  \<open>Ok\<close> and \<open>Err\<close> are the two sides of \<^verbatim>\<open>std::expected\<close> (\<^verbatim>\<open>Result\<close> with
  an error number, \<^verbatim>\<open>Outcome\<close> with a message). \<open>Halt\<close> is a process that ended at a failpoint:
  no later statement runs, and the state is what the kernel and the database then hold.
\<close>

datatype ('e, 'a) res = Ok 'a | Err 'e | Halt string

type_synonym ('s, 'e, 'a) prog = "'s \<Rightarrow> ('e, 'a) res \<times> 's"

definition ret :: "'a \<Rightarrow> ('s, 'e, 'a) prog" where
  "ret a s = (Ok a, s)"

definition fail :: "'e \<Rightarrow> ('s, 'e, 'a) prog" where
  "fail e s = (Err e, s)"

definition halt :: "string \<Rightarrow> ('s, 'e, 'a) prog" where
  "halt name s = (Halt name, s)"

definition bnd :: "('s, 'e, 'a) prog \<Rightarrow> ('a \<Rightarrow> ('s, 'e, 'b) prog) \<Rightarrow> ('s, 'e, 'b) prog" where
  "bnd m k s =
     (case m s of
        (Ok a, t) \<Rightarrow> k a t
      | (Err e, t) \<Rightarrow> (Err e, t)
      | (Halt f, t) \<Rightarrow> (Halt f, t))"

text \<open>\<open>if (auto r = m; !r) { h; return ...; }\<close>: the handler decides what is returned.\<close>

definition catch :: "('s, 'e, 'a) prog \<Rightarrow> ('e \<Rightarrow> ('s, 'f, 'a) prog) \<Rightarrow> ('s, 'f, 'a) prog" where
  "catch m h s =
     (case m s of
        (Ok a, t) \<Rightarrow> (Ok a, t)
      | (Err e, t) \<Rightarrow> h e t
      | (Halt f, t) \<Rightarrow> (Halt f, t))"

text \<open>A call whose error is ignored or inspected: the error becomes a value.\<close>

definition attempt :: "('s, 'e, 'a) prog \<Rightarrow> ('s, 'f, 'e + 'a) prog" where
  "attempt m s =
     (case m s of
        (Ok a, t) \<Rightarrow> (Ok (Inr a), t)
      | (Err e, t) \<Rightarrow> (Ok (Inl e), t)
      | (Halt f, t) \<Rightarrow> (Halt f, t))"

definition gets :: "('s \<Rightarrow> 'a) \<Rightarrow> ('s, 'e, 'a) prog" where
  "gets f s = (Ok (f s), s)"

definition modify :: "('s \<Rightarrow> 's) \<Rightarrow> ('s, 'e, unit) prog" where
  "modify f s = (Ok (), f s)"

text \<open>A loop over a container that stops at the first error.\<close>

fun for_each :: "'a list \<Rightarrow> ('a \<Rightarrow> ('s, 'e, unit) prog) \<Rightarrow> ('s, 'e, unit) prog" where
  "for_each [] f = ret ()"
| "for_each (x # xs) f = bnd (f x) (\<lambda>_. for_each xs f)"

lemmas prog_defs = ret_def fail_def halt_def bnd_def catch_def attempt_def gets_def modify_def

lemma run_ret [prog_simps]: "ret a s = (Ok a, s)"
  and run_fail [prog_simps]: "fail e s = (Err e, s)"
  and run_halt [prog_simps]: "halt f s = (Halt f, s)"
  and run_gets [prog_simps]: "gets g s = (Ok (g s), s)"
  and run_modify [prog_simps]: "modify h s = (Ok (), h s)"
  by (simp_all add: prog_defs)

lemma run_bnd [prog_simps]:
  "bnd m k s =
     (case fst (m s) of
        Ok a \<Rightarrow> k a (snd (m s))
      | Err e \<Rightarrow> (Err e, snd (m s))
      | Halt f \<Rightarrow> (Halt f, snd (m s)))"
  by (simp add: bnd_def split: prod.splits res.splits)

lemma run_catch [prog_simps]:
  "catch m h s =
     (case fst (m s) of
        Ok a \<Rightarrow> (Ok a, snd (m s))
      | Err e \<Rightarrow> h e (snd (m s))
      | Halt f \<Rightarrow> (Halt f, snd (m s)))"
  by (simp add: catch_def split: prod.splits res.splits)

lemma run_attempt [prog_simps]:
  "attempt m s =
     (case fst (m s) of
        Ok a \<Rightarrow> (Ok (Inr a), snd (m s))
      | Err e \<Rightarrow> (Ok (Inl e), snd (m s))
      | Halt f \<Rightarrow> (Halt f, snd (m s)))"
  by (simp add: attempt_def split: prod.splits res.splits)

subsection \<open>Frame conditions\<close>

text \<open>
  \<open>keeps R m\<close>: however \<open>m\<close> ends, in success, error or process exit, the state it leaves
  is related by \<open>R\<close> to the state it started from. For a reflexive and transitive \<open>R\<close>
  the condition is compositional.
\<close>

definition keeps :: "('s \<Rightarrow> 's \<Rightarrow> bool) \<Rightarrow> ('s, 'e, 'a) prog \<Rightarrow> bool" where
  "keeps R m \<longleftrightarrow> (\<forall>s. R s (snd (m s)))"

lemma keepsD: "keeps R m \<Longrightarrow> R s (snd (m s))"
  by (simp add: keeps_def)

lemma keeps_runD: "keeps R m \<Longrightarrow> m s = (r, t) \<Longrightarrow> R s t"
  by (metis keepsD snd_conv)

locale frame =
  fixes R :: "'s \<Rightarrow> 's \<Rightarrow> bool"
  assumes frame_refl: "R s s"
    and frame_trans: "R s t \<Longrightarrow> R t u \<Longrightarrow> R s u"
begin

lemma keeps_ret: "keeps R (ret a)"
  and keeps_fail: "keeps R (fail e)"
  and keeps_halt: "keeps R (halt f)"
  and keeps_gets: "keeps R (gets g)"
  by (simp_all add: keeps_def prog_defs frame_refl)

lemma keeps_modify: "(\<And>s. R s (h s)) \<Longrightarrow> keeps R (modify h)"
  by (simp add: keeps_def prog_defs)

lemma keeps_bnd:
  assumes "keeps R m" and "\<And>a. keeps R (k a)"
  shows "keeps R (bnd m k)"
  using assms frame_trans
  by (force simp: keeps_def run_bnd split: res.splits)

lemma keeps_catch:
  assumes "keeps R m" and "\<And>e. keeps R (h e)"
  shows "keeps R (catch m h)"
  using assms frame_trans
  by (force simp: keeps_def run_catch split: res.splits)

lemma keeps_attempt: "keeps R m \<Longrightarrow> keeps R (attempt m)"
  by (force simp: keeps_def run_attempt split: res.splits)

lemma keeps_if: "(c \<Longrightarrow> keeps R m) \<Longrightarrow> (\<not> c \<Longrightarrow> keeps R n) \<Longrightarrow> keeps R (if c then m else n)"
  by simp

lemma keeps_for_each: "(\<And>x. x \<in> set xs \<Longrightarrow> keeps R (f x)) \<Longrightarrow> keeps R (for_each xs f)"
  by (induction xs) (auto intro: keeps_ret keeps_bnd)

lemmas keeps_intros =
  keeps_ret keeps_fail keeps_halt keeps_gets keeps_bnd keeps_catch keeps_attempt keeps_if
  keeps_for_each

end

section \<open>C++ strings\<close>

text \<open>\<^verbatim>\<open>std::string::find(c, from)\<close> and \<^verbatim>\<open>rfind(c)\<close>; \<open>None\<close> is \<^verbatim>\<open>npos\<close>.\<close>

fun find_char :: "char \<Rightarrow> string \<Rightarrow> nat option" where
  "find_char c [] = None"
| "find_char c (x # xs) = (if x = c then Some 0 else map_option Suc (find_char c xs))"

definition find_char_from :: "char \<Rightarrow> string \<Rightarrow> nat \<Rightarrow> nat option" where
  "find_char_from c s from = map_option (\<lambda>i. from + i) (find_char c (drop from s))"

definition rfind_char :: "char \<Rightarrow> string \<Rightarrow> nat option" where
  "rfind_char c s = map_option (\<lambda>i. length s - 1 - i) (find_char c (rev s))"

lemma find_char_None: "find_char c s = None \<longleftrightarrow> c \<notin> set s"
  by (induction s) auto

lemma find_char_Some: "find_char c s = Some i \<Longrightarrow> i < length s \<and> s ! i = c \<and> c \<notin> set (take i s)"
  by (induction s arbitrary: i) (auto split: if_splits)

lemma find_char_append: "c \<notin> set xs \<Longrightarrow> find_char c (xs @ c # ys) = Some (length xs)"
  by (induction xs) auto

lemma find_char_split: "find_char c s = Some i \<Longrightarrow> s = take i s @ c # drop (Suc i) s"
  using find_char_Some id_take_nth_drop by metis

lemma rfind_char_None: "rfind_char c s = None \<longleftrightarrow> c \<notin> set s"
  by (simp add: rfind_char_def find_char_None)

lemma rfind_char_append: "c \<notin> set ys \<Longrightarrow> rfind_char c (xs @ c # ys) = Some (length xs)"
  using find_char_append [of c "rev ys" "rev xs"] by (simp add: rfind_char_def)

lemma starts_with_append: "prefix xs (xs @ ys)"
  by simp

section \<open>Ordered maps\<close>

text \<open>\<^verbatim>\<open>std::map\<close>: an association list kept in ascending key order.\<close>

fun omap_set :: "'k::linorder \<Rightarrow> 'v \<Rightarrow> ('k \<times> 'v) list \<Rightarrow> ('k \<times> 'v) list" where
  "omap_set k v [] = [(k, v)]"
| "omap_set k v ((k', v') # m) =
     (if k < k' then (k, v) # (k', v') # m
      else if k = k' then (k, v) # m
      else (k', v') # omap_set k v m)"

lemma map_of_omap_set [simp]: "map_of (omap_set k v m) = (map_of m)(k \<mapsto> v)"
  by (induction m) (auto simp: fun_eq_iff)

lemma set_omap_set_keys [simp]: "fst ` set (omap_set k v m) = insert k (fst ` set m)"
  by (induction k v m rule: omap_set.induct) (simp_all add: insert_commute)

lemma sorted_omap_set:
  "sorted_wrt (<) (map fst m) \<Longrightarrow> sorted_wrt (<) (map fst (omap_set k v m))"
proof (induction m)
  case (Cons a m)
  obtain k' v' where a: "a = (k', v')" by fastforce
  have keys: "set (map fst (omap_set k v m)) = insert k (set (map fst m))"
    by simp
  with Cons a show ?case
    by (auto simp del: set_map)
qed simp

end
