(* ===== verification/Paths.thy ===== *)
theory Paths
  imports Prelude
begin

text \<open>
  Project-relative paths (\<^verbatim>\<open>core/paths.cpp\<close>): normalisation, parent and join, and the
  correspondence between the normalised strings the engine works with and lists of segments.
\<close>

section \<open>Definitions\<close>

definition kTribiosDirName :: string where "kTribiosDirName = ''.tribios''"
definition kGitDirName :: string where "kGitDirName = ''.git''"

definition take_segment :: "string list \<Rightarrow> string \<Rightarrow> string list" where
  "take_segment segments segment =
     (if segment = ''..'' then (if segments \<noteq> [] then butlast segments else segments)
      else if segment \<noteq> [] \<and> segment \<noteq> ''.'' then segments @ [segment]
      else segments)"

fun scan_segments :: "string list \<Rightarrow> string \<Rightarrow> string \<Rightarrow> string list" where
  "scan_segments segments segment [] = take_segment segments segment"
| "scan_segments segments segment (c # cs) =
     (if c = CHR ''/'' then scan_segments (take_segment segments segment) [] cs
      else scan_segments segments (segment @ [c]) cs)"

definition append_segment :: "string \<Rightarrow> string \<Rightarrow> string" where
  "append_segment normalized taken =
     (if normalized \<noteq> [] then normalized @ [CHR ''/''] else normalized) @ taken"

definition normalize_relative :: "string \<Rightarrow> string" where
  "normalize_relative path = foldl append_segment [] (scan_segments [] [] path)"

definition parent_of :: "string \<Rightarrow> string" where
  "parent_of relative =
     (case rfind_char (CHR ''/'') relative of None \<Rightarrow> [] | Some slash \<Rightarrow> take slash relative)"

definition join_relative :: "string \<Rightarrow> string \<Rightarrow> string" where
  "join_relative parent name = (if parent = [] then name else parent @ ''/'' @ name)"

section \<open>Segments\<close>

definition clean_segment :: "string \<Rightarrow> bool" where
  "clean_segment s \<longleftrightarrow> s \<noteq> [] \<and> s \<noteq> ''.'' \<and> s \<noteq> ''..'' \<and> CHR ''/'' \<notin> set s"

definition clean :: "string list \<Rightarrow> bool" where
  "clean xs \<longleftrightarrow> list_all clean_segment xs"

lemma clean_simps [simp]:
  "clean []"
  "clean (x # xs) \<longleftrightarrow> clean_segment x \<and> clean xs"
  "clean (xs @ ys) \<longleftrightarrow> clean xs \<and> clean ys"
  by (auto simp: clean_def)

lemma clean_take [simp]: "clean xs \<Longrightarrow> clean (take n xs)"
  and clean_drop [simp]: "clean xs \<Longrightarrow> clean (drop n xs)"
  by (auto simp: clean_def list_all_iff dest: in_set_takeD in_set_dropD)

lemma clean_butlast [simp]: "clean xs \<Longrightarrow> clean (butlast xs)"
  by (simp add: butlast_conv_take)

text \<open>How the kernel reads a path: components between slashes, empty ones skipped.\<close>

fun split_slash :: "string \<Rightarrow> string \<Rightarrow> string list" where
  "split_slash segment [] = (if segment = [] then [] else [segment])"
| "split_slash segment (c # cs) =
     (if c = CHR ''/'' then (if segment = [] then split_slash [] cs else segment # split_slash [] cs)
      else split_slash (segment @ [c]) cs)"

definition segs :: "string \<Rightarrow> string list" where
  "segs path = split_slash [] path"

definition unsegs :: "string list \<Rightarrow> string" where
  "unsegs xs = foldl append_segment [] xs"

lemma foldl_append_segment:
  "acc \<noteq> [] \<Longrightarrow> foldl append_segment acc xs = acc @ concat (map (\<lambda>x. CHR ''/'' # x) xs)"
  by (induction xs arbitrary: acc) (auto simp: append_segment_def)

lemma unsegs_Nil [simp]: "unsegs [] = []"
  by (simp add: unsegs_def)

lemma unsegs_Cons: "x \<noteq> [] \<Longrightarrow> unsegs (x # xs) = x @ concat (map (\<lambda>x. CHR ''/'' # x) xs)"
  by (simp add: unsegs_def append_segment_def foldl_append_segment)

lemma unsegs_snoc: "unsegs (xs @ [x]) = append_segment (unsegs xs) x"
  by (simp add: unsegs_def)

lemma split_slash_plain: "CHR ''/'' \<notin> set x \<Longrightarrow> split_slash seg (x @ cs) = split_slash (seg @ x) cs"
  by (induction x arbitrary: seg) auto

lemma split_slash_joined:
  "clean xs \<Longrightarrow> seg \<noteq> [] \<Longrightarrow>
   split_slash seg (concat (map (\<lambda>x. CHR ''/'' # x) xs)) = seg # xs"
proof (induction xs arbitrary: seg)
  case (Cons x xs)
  from Cons.prems have x: "CHR ''/'' \<notin> set x" "x \<noteq> []" by (auto simp: clean_segment_def)
  have "split_slash [] (x @ concat (map (\<lambda>x. CHR ''/'' # x) xs)) = x # xs"
    using Cons x by (simp add: split_slash_plain)
  with Cons.prems show ?case by simp
qed simp

lemma segs_unsegs [simp]: "clean xs \<Longrightarrow> segs (unsegs xs) = xs"
proof (cases xs)
  case (Cons x ys)
  assume "clean xs"
  then have x: "CHR ''/'' \<notin> set x" "x \<noteq> []" "clean ys"
    using Cons by (auto simp: clean_segment_def)
  then show ?thesis
    using Cons by (simp add: segs_def unsegs_Cons split_slash_plain split_slash_joined)
qed (simp add: segs_def)

lemma unsegs_inj: "clean xs \<Longrightarrow> clean ys \<Longrightarrow> unsegs xs = unsegs ys \<longleftrightarrow> xs = ys"
  by (metis segs_unsegs)

lemma unsegs_eq_Nil [simp]: "clean xs \<Longrightarrow> unsegs xs = [] \<longleftrightarrow> xs = []"
  using unsegs_inj [of xs "[]"] by simp

section \<open>Normal form\<close>

definition normal :: "string \<Rightarrow> bool" where
  "normal r \<longleftrightarrow> (\<exists>xs. clean xs \<and> r = unsegs xs)"

lemma normalI: "clean xs \<Longrightarrow> normal (unsegs xs)"
  by (auto simp: normal_def)

lemma normal_Nil [simp]: "normal []"
  by (auto simp: normal_def intro: exI [of _ "[]"])

lemma normal_clean [simp]: "normal r \<Longrightarrow> clean (segs r)"
  and normal_unsegs [simp]: "normal r \<Longrightarrow> unsegs (segs r) = r"
  by (auto simp: normal_def)

lemma segs_eq_Nil [simp]: "normal r \<Longrightarrow> segs r = [] \<longleftrightarrow> r = []"
  by (metis normal_unsegs unsegs_Nil segs_unsegs clean_simps(1))

lemma segs_inj: "normal r \<Longrightarrow> normal r' \<Longrightarrow> segs r = segs r' \<longleftrightarrow> r = r'"
  by (metis normal_unsegs)

lemma clean_take_segment:
  "clean xs \<Longrightarrow> CHR ''/'' \<notin> set seg \<Longrightarrow> clean (take_segment xs seg)"
  by (auto simp: take_segment_def clean_segment_def)

lemma clean_scan_segments:
  "clean xs \<Longrightarrow> CHR ''/'' \<notin> set seg \<Longrightarrow> clean (scan_segments xs seg s)"
  by (induction xs seg s rule: scan_segments.induct) (auto simp: clean_take_segment)

lemma normalize_relative_unsegs: "normalize_relative p = unsegs (scan_segments [] [] p)"
  by (simp add: normalize_relative_def unsegs_def)

lemma normal_normalize [simp]: "normal (normalize_relative p)"
  unfolding normalize_relative_unsegs by (rule normalI) (simp add: clean_scan_segments)

lemma scan_segments_plain:
  "CHR ''/'' \<notin> set x \<Longrightarrow> scan_segments xs seg (x @ cs) = scan_segments xs (seg @ x) cs"
  by (induction x arbitrary: seg) auto

lemma scan_segments_joined:
  "clean xs \<Longrightarrow> clean_segment seg \<Longrightarrow>
   scan_segments acc seg (concat (map (\<lambda>x. CHR ''/'' # x) xs)) = acc @ seg # xs"
proof (induction xs arbitrary: acc seg)
  case Nil
  then show ?case by (auto simp: take_segment_def clean_segment_def)
next
  case (Cons x xs)
  then have "take_segment acc seg = acc @ [seg]"
    by (auto simp: take_segment_def clean_segment_def)
  with Cons show ?case
    by (simp add: clean_segment_def scan_segments_plain)
qed

lemma normalize_normal [simp]: "normal r \<Longrightarrow> normalize_relative r = r"
proof -
  assume "normal r"
  then obtain xs where xs: "clean xs" "r = unsegs xs" by (auto simp: normal_def)
  show ?thesis
  proof (cases xs)
    case Nil
    then show ?thesis using xs by (simp add: normalize_relative_unsegs take_segment_def)
  next
    case (Cons x ys)
    then have "scan_segments [] [] r = xs"
      using xs scan_segments_plain [of x "[]" "[]" "concat (map (\<lambda>x. CHR ''/'' # x) ys)"]
      by (simp add: unsegs_Cons clean_segment_def scan_segments_joined)
    then show ?thesis using xs by (simp add: normalize_relative_unsegs)
  qed
qed

lemma normal_iff: "normal r \<longleftrightarrow> normalize_relative r = r"
  by (metis normal_normalize normalize_normal)

section \<open>Parent, join and the descendant test on normal paths\<close>

lemma append_segment_Nil [simp]: "append_segment [] x = x"
  by (simp add: append_segment_def)

lemma join_relative_unsegs:
  "join_relative (unsegs xs) x = unsegs (xs @ [x])"
  by (simp add: join_relative_def unsegs_snoc append_segment_def)

lemma parent_of_snoc:
  assumes "clean_segment x"
  shows "parent_of (unsegs (xs @ [x])) = unsegs xs"
proof -
  have x: "CHR ''/'' \<notin> set x" using assms by (simp add: clean_segment_def)
  show ?thesis
  proof (cases "unsegs xs = []")
    case True
    then show ?thesis
      using x by (simp add: unsegs_snoc parent_of_def rfind_char_None [THEN iffD2])
  next
    case False
    then show ?thesis
      using x rfind_char_append [of "CHR ''/''" x "unsegs xs"]
      by (simp add: unsegs_snoc append_segment_def parent_of_def)
  qed
qed

lemma parent_of_Nil [simp]: "parent_of [] = []"
  by (simp add: parent_of_def rfind_char_def)

lemma parent_of_unsegs: "clean xs \<Longrightarrow> parent_of (unsegs xs) = unsegs (butlast xs)"
  by (cases xs rule: rev_cases) (auto simp: parent_of_snoc)

lemma segs_parent_of [path_simps]: "normal r \<Longrightarrow> segs (parent_of r) = butlast (segs r)"
  by (metis normal_clean normal_unsegs parent_of_unsegs segs_unsegs clean_butlast)

lemma normal_parent_of [simp]: "normal r \<Longrightarrow> normal (parent_of r)"
  by (metis normal_clean normal_unsegs parent_of_unsegs normalI clean_butlast)

lemma normal_join [simp]: "normal r \<Longrightarrow> clean_segment x \<Longrightarrow> normal (join_relative r x)"
  by (metis clean_simps join_relative_unsegs normalI normal_clean normal_unsegs)

lemma segs_join [path_simps]:
  "normal r \<Longrightarrow> clean_segment x \<Longrightarrow> segs (join_relative r x) = segs r @ [x]"
  by (metis clean_simps join_relative_unsegs normal_clean normal_unsegs segs_unsegs)

lemma length_parent_of: "r \<noteq> [] \<Longrightarrow> length (parent_of r) < length r"
  by (auto simp: parent_of_def rfind_char_def split: option.splits dest!: find_char_Some)

lemma unsegs_append:
  assumes "clean xs" "xs \<noteq> []"
  shows "unsegs (xs @ ys) = unsegs xs @ concat (map (\<lambda>x. CHR ''/'' # x) ys)"
proof -
  have "unsegs xs \<noteq> []" using assms by simp
  then show ?thesis by (simp add: unsegs_def foldl_append_segment)
qed

text \<open>The string test \<^verbatim>\<open>starts_with(r + "/")\<close> is the strict prefix order on segments.\<close>

lemma segs_append_slash:
  assumes "normal r" "r \<noteq> []"
  shows "segs (r @ CHR ''/'' # rest) = segs r @ segs rest"
proof -
  obtain xs where xs: "clean xs" "r = unsegs xs" "xs \<noteq> []"
    using assms by (auto simp: normal_def)
  then obtain ys x where ys: "xs = ys @ [x]" by (metis rev_exhaust)
  have join: "split_slash seg (concat (map (\<lambda>x. CHR ''/'' # x) zs) @ CHR ''/'' # rest) =
      seg # zs @ split_slash [] rest" if "clean zs" "seg \<noteq> []" for seg zs
    using that
  proof (induction zs arbitrary: seg)
    case (Cons z zs)
    then show ?case by (simp add: clean_segment_def split_slash_plain)
  qed simp
  obtain z zs where z: "xs = z # zs" using xs(3) by (cases xs) auto
  have "segs (r @ CHR ''/'' # rest) = z # zs @ segs rest"
    using xs z join [of zs z] by (simp add: segs_def unsegs_Cons clean_segment_def split_slash_plain)
  then show ?thesis using xs z by simp
qed

lemma descendant_iff [path_simps]:
  assumes "normal r" "r \<noteq> []" "normal p"
  shows "prefix (r @ ''/'') p \<longleftrightarrow> strict_prefix (segs r) (segs p)"
proof
  assume "prefix (r @ ''/'') p"
  then obtain rest where p: "p = r @ CHR ''/'' # rest" by (auto elim: prefixE)
  have "segs p = segs r @ segs rest" using assms p segs_append_slash by simp
  moreover have "segs rest \<noteq> []"
  proof
    assume "segs rest = []"
    then have "segs p = segs r" using calculation by simp
    then have "p = r" using assms segs_inj by simp
    then show False using p by simp
  qed
  ultimately show "strict_prefix (segs r) (segs p)" by (auto simp: strict_prefix_def)
next
  assume "strict_prefix (segs r) (segs p)"
  then obtain y ys where ys: "segs p = segs r @ y # ys"
    by (auto simp: strict_prefix_def elim!: prefixE) (metis list.exhaust)
  have "p = unsegs (segs r @ y # ys)" using assms ys by (metis normal_unsegs)
  also have "\<dots> = r @ concat (map (\<lambda>x. CHR ''/'' # x) (y # ys))"
    using assms by (subst unsegs_append) auto
  finally show "prefix (r @ ''/'') p" by (auto intro: prefixI)
qed

end
