(* ===== verification/Host_FS.thy ===== *)
theory Host_FS
  imports Paths "HOL-Library.AList"
begin

text \<open>
  The host file system the program runs on: what the POSIX calls of the sources do to a tree of
  files, directories and symbolic links. Paths are lists of components from the root of the host.
  Every call first resolves its path as the kernel does, following symbolic links in all
  components but the last, and in the last one where the call follows it.
  Nothing here is taken from the sources; it is the part of the C library and of
  \<^verbatim>\<open>std::filesystem\<close> that they call, one function per call. Hard links and permission checks are left
  out (a refused call is one of the faults of the theory Machine), and so are the time stamps
  that a directory gets when an entry is added to it.
\<close>

section \<open>Nodes\<close>

type_synonym path = "string list"
type_synonym perm = "12 word"

text \<open>The file type bits of \<^verbatim>\<open>st_mode\<close>; its other twelve bits are a \<^typ>\<open>perm\<close>.\<close>

datatype kind = REG | DIR | LNK | SPECIAL

record meta =
  ino :: nat
  dev :: nat
  perm :: perm
  owner :: nat
  group :: nat
  nlink :: nat
  atime :: int
  mtime :: int
  ctime :: int
  mtime_ns :: int
  ctime_ns :: int

datatype node =
    File meta string
  | Link meta string
  | Dir meta "(string \<times> node) list"
  | Special meta

definition node_kind :: "node \<Rightarrow> kind" where
  "node_kind n =
     (case n of File _ _ \<Rightarrow> REG | Link _ _ \<Rightarrow> LNK | Dir _ _ \<Rightarrow> DIR | Special _ \<Rightarrow> SPECIAL)"

definition node_meta :: "node \<Rightarrow> meta" where
  "node_meta n = (case n of File m _ \<Rightarrow> m | Link m _ \<Rightarrow> m | Dir m _ \<Rightarrow> m | Special m \<Rightarrow> m)"

definition map_meta :: "(meta \<Rightarrow> meta) \<Rightarrow> node \<Rightarrow> node" where
  "map_meta f n =
     (case n of File m c \<Rightarrow> File (f m) c | Link m t \<Rightarrow> Link (f m) t
      | Dir m cs \<Rightarrow> Dir (f m) cs | Special m \<Rightarrow> Special (f m))"

definition is_dir :: "node \<Rightarrow> bool" where
  "is_dir n \<longleftrightarrow> node_kind n = DIR"

definition is_link :: "node \<Rightarrow> bool" where
  "is_link n \<longleftrightarrow> node_kind n = LNK"

lemma node_kind_simps [simp]:
  "node_kind (File m c) = REG"
  "node_kind (Link m t) = LNK"
  "node_kind (Dir m cs) = DIR"
  "node_kind (Special m) = SPECIAL"
  by (simp_all add: node_kind_def)

lemma node_meta_simps [simp]:
  "node_meta (File m c) = m"
  "node_meta (Link m t) = m"
  "node_meta (Dir m cs) = m"
  "node_meta (Special m) = m"
  by (simp_all add: node_meta_def)

lemma map_meta_simps [simp]:
  "map_meta f (File m c) = File (f m) c"
  "map_meta f (Link m t) = Link (f m) t"
  "map_meta f (Dir m cs) = Dir (f m) cs"
  "map_meta f (Special m) = Special (f m)"
  "node_kind (map_meta f n) = node_kind n"
  "node_meta (map_meta f n) = f (node_meta n)"
  by (cases n; simp add: map_meta_def)+

lemma is_dir_simps [simp]:
  "\<not> is_dir (File m c)" "\<not> is_dir (Link m t)" "is_dir (Dir m cs)" "\<not> is_dir (Special m)"
  by (simp_all add: is_dir_def)

lemma is_link_simps [simp]:
  "\<not> is_link (File m c)" "is_link (Link m t)" "\<not> is_link (Dir m cs)" "\<not> is_link (Special m)"
  by (simp_all add: is_link_def)

lemma is_dirE: "is_dir n \<Longrightarrow> (\<And>m cs. n = Dir m cs \<Longrightarrow> P) \<Longrightarrow> P"
  by (cases n) auto

lemma is_linkE: "is_link n \<Longrightarrow> (\<And>m t. n = Link m t \<Longrightarrow> P) \<Longrightarrow> P"
  by (cases n) auto

section \<open>Reading and replacing a node\<close>

primrec get :: "node \<Rightarrow> path \<Rightarrow> node option" where
  "get n [] = Some n"
| "get n (x # xs) =
     (case n of Dir m cs \<Rightarrow> (case map_of cs x of None \<Rightarrow> None | Some c \<Rightarrow> get c xs) | _ \<Rightarrow> None)"

primrec put :: "node \<Rightarrow> path \<Rightarrow> node option \<Rightarrow> node" where
  "put n [] v = n"
| "put n (x # xs) v =
     (case n of
        Dir m cs \<Rightarrow>
          (if xs = [] then
             (case v of None \<Rightarrow> Dir m (AList.delete x cs) | Some c \<Rightarrow> Dir m (AList.update x c cs))
           else
             (case map_of cs x of
                None \<Rightarrow> n
              | Some c \<Rightarrow> Dir m (AList.update x (put c xs v) cs)))
      | _ \<Rightarrow> n)"

definition dir_at :: "node \<Rightarrow> path \<Rightarrow> bool" where
  "dir_at root p \<longleftrightarrow> (case get root p of Some n \<Rightarrow> is_dir n | None \<Rightarrow> False)"

lemma get_append: "get n (xs @ ys) = (case get n xs of None \<Rightarrow> None | Some c \<Rightarrow> get c ys)"
  by (induction xs arbitrary: n) (auto split: node.splits option.splits)

lemma get_append_Some: "get n xs = Some c \<Longrightarrow> get n (xs @ ys) = get c ys"
  by (simp add: get_append)

lemma dir_atE: "dir_at root p \<Longrightarrow> (\<And>m cs. get root p = Some (Dir m cs) \<Longrightarrow> P) \<Longrightarrow> P"
  by (auto simp: dir_at_def split: option.splits elim: is_dirE)

lemma get_below_dir: "get root (p @ x # xs) = Some n \<Longrightarrow> dir_at root p"
  by (auto simp: get_append dir_at_def split: option.splits node.splits)

lemma get_parent_dir: "get root p = Some n \<Longrightarrow> p \<noteq> [] \<Longrightarrow> dir_at root (butlast p)"
  using get_below_dir [of root "butlast p" "last p" "[]"] by simp

lemma not_prefix_butlast: "p \<noteq> [] \<Longrightarrow> \<not> prefix p (butlast p)"
  using prefix_length_le [of p "butlast p"] by (cases p) auto

lemma dir_at_strict_prefix: "get root q = Some n \<Longrightarrow> strict_prefix p q \<Longrightarrow> dir_at root p"
  by (metis get_below_dir neq_Nil_conv prefix_def strict_prefix_def append.right_neutral)

lemma get_put_below:
  "xs \<noteq> [] \<Longrightarrow> dir_at n (butlast xs) \<Longrightarrow>
   get (put n xs v) (xs @ ys) = (case v of None \<Rightarrow> None | Some c \<Rightarrow> get c ys)"
proof (induction xs arbitrary: n)
  case (Cons x xs)
  show ?case
  proof (cases xs)
    case Nil
    with Cons show ?thesis
      by (auto simp: dir_at_def is_dir_def AList.update_conv' AList.delete_conv'
          split: node.splits option.splits)
  next
    case (Cons y zs)
    with Cons.prems obtain m cs c where n: "n = Dir m cs" "map_of cs x = Some c"
        "dir_at c (butlast xs)"
      by (cases n) (auto simp: dir_at_def split: option.splits)
    with Cons Cons.IH [of c] show ?thesis by (simp add: AList.update_conv')
  qed
qed simp

lemma get_put_same:
  "xs \<noteq> [] \<Longrightarrow> dir_at n (butlast xs) \<Longrightarrow> get (put n xs v) xs = v"
  using get_put_below [of xs n v "[]"] by (simp split: option.splits)

lemma put_no_parent: "\<not> dir_at n (butlast xs) \<Longrightarrow> put n xs v = n"
proof (induction xs arbitrary: n)
  case (Cons x xs)
  show ?case
  proof (cases n)
    case (Dir m cs)
    then have "xs \<noteq> []" using Cons.prems by (auto simp: dir_at_def)
    with Cons Dir show ?thesis
      by (auto simp: dir_at_def AList.update_triv split: option.splits)
  qed auto
qed simp

lemma get_put_other:
  "\<not> prefix xs q \<Longrightarrow> \<not> prefix q xs \<Longrightarrow> get (put n xs v) q = get n q"
proof (induction xs arbitrary: n q)
  case (Cons x xs)
  then obtain y ys where q: "q = y # ys" by (cases q) auto
  show ?case
  proof (cases n)
    case (Dir m cs)
    show ?thesis
    proof (cases "y = x")
      case True
      then have "\<not> prefix xs ys" "\<not> prefix ys xs" "xs \<noteq> []" using Cons.prems q by auto
      then show ?thesis
        using Cons.IH Dir q True by (auto simp: AList.update_conv' split: option.splits)
    next
      case False
      then show ?thesis
        using Dir q by (auto simp: AList.update_conv' AList.delete_conv' split: option.splits)
    qed
  qed simp_all
qed simp

lemma put_get: "xs \<noteq> [] \<Longrightarrow> put n xs (get n xs) = n"
proof (induction xs arbitrary: n)
  case (Cons x xs)
  show ?case
  proof (cases n)
    case (Dir m cs)
    show ?thesis
    proof (cases "map_of cs x")
      case None
      then have "AList.delete x cs = cs" by (auto simp: map_of_eq_None_iff intro: AList.delete_idem)
      with Dir None Cons show ?thesis by (auto split: option.splits)
    next
      case (Some c)
      with Cons Dir show ?thesis by (cases xs) (auto simp: AList.update_triv)
    qed
  qed simp_all
qed simp

text \<open>A directory above the replaced entry stays a directory with the same attributes.\<close>

lemma get_put_above:
  "strict_prefix q xs \<Longrightarrow> get n q = Some (Dir m cs) \<Longrightarrow> \<exists>cs'. get (put n xs v) q = Some (Dir m cs')"
proof (induction xs arbitrary: n q)
  case (Cons x xs)
  show ?case
  proof (cases q)
    case Nil
    with Cons show ?thesis by (auto split: option.splits)
  next
    case (Cons y ys)
    with Cons.prems have y: "y = x" "strict_prefix ys xs" by auto
    from Cons.prems(2) Cons obtain m' cs' c where n: "n = Dir m' cs'" "map_of cs' y = Some c"
        "get c ys = Some (Dir m cs)"
      by (auto split: node.splits option.splits)
    from y have "xs \<noteq> []" by auto
    with Cons.IH [OF y(2) n(3)] n y Cons show ?thesis
      by (auto simp: AList.update_conv')
  qed
qed simp

lemma get_put_above_nondir:
  "strict_prefix q xs \<Longrightarrow> \<not> dir_at n q \<Longrightarrow> get (put n xs v) q = get n q"
proof -
  assume q: "strict_prefix q xs" "\<not> dir_at n q"
  then have ne: "xs \<noteq> []" by auto
  have "\<not> dir_at n (butlast xs)"
  proof
    assume d: "dir_at n (butlast xs)"
    have "prefix q (butlast xs)"
      using q by (metis append_butlast_last_id ne prefix_snoc strict_prefix_def)
    then show False
      using d q(2) dir_at_strict_prefix by (auto elim!: dir_atE) (metis strict_prefixI q(2) d)
  qed
  then show ?thesis by (simp add: put_no_parent)
qed

lemma dir_at_put_above: "strict_prefix q xs \<Longrightarrow> dir_at (put n xs v) q = dir_at n q"
proof (cases "dir_at n q")
  case True
  assume "strict_prefix q xs"
  with True obtain m cs where "get n q = Some (Dir m cs)" by (auto elim: dir_atE)
  with get_put_above [OF \<open>strict_prefix q xs\<close> this, of v] True show ?thesis
    by (auto simp: dir_at_def)
next
  case False
  assume "strict_prefix q xs"
  with False show ?thesis by (simp add: dir_at_def get_put_above_nondir)
qed

text \<open>What the kernel and the code can tell about a path without listing it.\<close>

definition same_entry :: "node option \<Rightarrow> node option \<Rightarrow> bool" where
  "same_entry a b \<longleftrightarrow>
     (case (a, b) of
        (None, None) \<Rightarrow> True
      | (Some (Dir m _), Some (Dir m' _)) \<Rightarrow> m = m'
      | (Some x, Some y) \<Rightarrow> x = y
      | _ \<Rightarrow> False)"

lemma same_entry_refl [simp]: "same_entry a a"
  by (auto simp: same_entry_def split: option.splits node.splits)

lemma same_entry_put: "\<not> prefix xs q \<Longrightarrow> same_entry (get n q) (get (put n xs v) q)"
proof (cases "prefix q xs")
  case True
  assume "\<not> prefix xs q"
  with True have sp: "strict_prefix q xs" by (metis strict_prefixI prefix_order.refl)
  show ?thesis
  proof (cases "dir_at n q")
    case True
    then obtain m cs where "get n q = Some (Dir m cs)" by (auto elim: dir_atE)
    with get_put_above [OF sp this, of v] show ?thesis by (auto simp: same_entry_def)
  next
    case False
    with sp show ?thesis by (simp add: get_put_above_nondir)
  qed
qed (simp add: get_put_other)

end
