(* ===== verification/Kernel.thy ===== *)
theory Kernel
  imports Host_FS
begin

text \<open>
  Path resolution and the file system calls of the host, as total functions on the tree. Each
  returns the error number of the call or the new tree. The faults a real call can meet besides
  (storage errors, refused permissions) are added by the theory Machine.
\<close>

section \<open>Path resolution\<close>

text \<open>Linux gives up with \<^verbatim>\<open>ELOOP\<close> after following 40 symbolic links.\<close>

definition max_links :: nat where "max_links = 40"

function walk :: "nat \<Rightarrow> node \<Rightarrow> path \<Rightarrow> path \<Rightarrow> bool \<Rightarrow> errno + path" where
  "walk fuel root cur [] follow = Inr cur"
| "walk fuel root cur (x # xs) follow =
     (case get root cur of
        None \<Rightarrow> Inl ENOENT
      | Some n \<Rightarrow>
          if \<not> is_dir n then Inl ENOTDIR
          else if x = ''.'' then walk fuel root cur xs follow
          else if x = ''..'' then walk fuel root (butlast cur) xs follow
          else (case get root (cur @ [x]) of
                  None \<Rightarrow> if xs = [] then Inr (cur @ [x]) else Inl ENOENT
                | Some (Link m t) \<Rightarrow>
                    if xs = [] \<and> \<not> follow then Inr (cur @ [x])
                    else if t = [] then Inl ENOENT
                    else (case fuel of
                            0 \<Rightarrow> Inl ELOOP
                          | Suc f \<Rightarrow>
                              walk f root (if hd t = CHR ''/'' then [] else cur) (segs t @ xs) follow)
                | Some _ \<Rightarrow> walk fuel root (cur @ [x]) xs follow))"
  by pat_completeness auto
termination
  by (relation "measures [\<lambda>(fuel, _, _, _, _). fuel, \<lambda>(_, _, _, xs, _). length xs]") auto

declare walk.simps(2) [simp del]

definition resolve :: "node \<Rightarrow> path \<Rightarrow> bool \<Rightarrow> errno + path" where
  "resolve root p follow = walk max_links root [] p follow"

text \<open>No component before the last is a symbolic link.\<close>

definition direct :: "node \<Rightarrow> path \<Rightarrow> bool" where
  "direct root p \<longleftrightarrow> (\<forall>q. strict_prefix q p \<longrightarrow> (case get root q of Some n \<Rightarrow> \<not> is_link n | None \<Rightarrow> True))"

lemma dir_at_append_prefix: "dir_at root (p @ q) \<Longrightarrow> dir_at root p"
proof (cases q)
  case (Cons x xs)
  assume "dir_at root (p @ q)"
  then obtain m cs where "get root (p @ x # xs) = Some (Dir m cs)"
    using Cons by (auto elim: dir_atE)
  then show ?thesis by (rule get_below_dir)
qed simp

lemma walk_through_dirs:
  assumes "clean xs" "xs \<noteq> []" "dir_at root (cur @ butlast xs)"
    and "\<not> follow \<or> (case get root (cur @ xs) of Some n \<Rightarrow> \<not> is_link n | None \<Rightarrow> True)"
  shows "walk fuel root cur xs follow = Inr (cur @ xs)"
  using assms
proof (induction xs arbitrary: cur)
  case (Cons x xs)
  have x: "x \<noteq> ''.''" "x \<noteq> ''..''" using Cons.prems by (auto simp: clean_segment_def)
  have "dir_at root cur" using Cons.prems(3) by (rule dir_at_append_prefix)
  then obtain m cs where cur: "get root cur = Some (Dir m cs)" by (rule dir_atE)
  show ?case
  proof (cases "xs = []")
    case True
    then show ?thesis
      using Cons.prems x cur by (auto simp: walk.simps(2) split: option.splits node.splits)
  next
    case False
    then have "dir_at root ((cur @ [x]) @ butlast xs)" using Cons.prems by simp
    then obtain m' cs' where "get root (cur @ [x]) = Some (Dir m' cs')"
      by (metis dir_atE dir_at_append_prefix)
    with False Cons x cur show ?thesis by (simp add: walk.simps(2))
  qed
qed simp

lemma direct_append_dir: "direct root (p @ q) \<Longrightarrow> q \<noteq> [] \<Longrightarrow> get root p = Some n \<Longrightarrow> \<not> is_link n"
  unfolding direct_def by (drule spec [of _ p]) (simp add: strict_prefix_def)

lemma walk_blocked:
  assumes "clean xs" "\<not> dir_at root (cur @ butlast xs)" "direct root (cur @ xs)" "dir_at root cur"
  shows "\<exists>e. walk fuel root cur xs follow = Inl e \<and> (e = ENOENT \<or> e = ENOTDIR)"
  using assms
proof (induction xs arbitrary: cur)
  case (Cons x xs)
  have x: "x \<noteq> ''.''" "x \<noteq> ''..''" using Cons.prems by (auto simp: clean_segment_def)
  from Cons.prems(4) obtain m cs where cur: "get root cur = Some (Dir m cs)" by (rule dir_atE)
  have xs: "xs \<noteq> []" using Cons.prems by (cases xs) auto
  have nolink: "\<not> is_link n" if "get root (cur @ [x]) = Some n" for n
    using direct_append_dir [of root "cur @ [x]" xs n] Cons.prems(3) xs that by simp
  show ?case
  proof (cases "get root (cur @ [x])")
    case None
    then show ?thesis using x cur xs by (simp add: walk.simps(2))
  next
    case (Some n)
    show ?thesis
    proof (cases "is_dir n")
      case True
      then have "dir_at root (cur @ [x])" using Some by (simp add: dir_at_def)
      with Cons.IH [of "cur @ [x]"] Cons.prems x cur xs Some nolink [OF Some] True
      show ?thesis by (cases n) (auto simp: walk.simps(2))
    next
      case False
      then show ?thesis
        using x cur xs Some nolink [OF Some]
        by (cases xs; cases n) (auto simp: walk.simps(2))
    qed
  qed
qed simp

lemma resolve_ok:
  "clean p \<Longrightarrow> p \<noteq> [] \<Longrightarrow> dir_at root (butlast p) \<Longrightarrow> resolve root p False = Inr p"
  using walk_through_dirs [of p root "[]" False] by (simp add: resolve_def)

lemma resolve_blocked:
  assumes "clean p" "direct root p" "is_dir root" "\<not> dir_at root (butlast p)"
  shows "resolve root p follow = Inl ENOENT \<or> resolve root p follow = Inl ENOTDIR"
proof -
  have "dir_at root []" using assms(3) by (simp add: dir_at_def)
  with walk_blocked [of p root "[]" max_links follow] assms show ?thesis by (auto simp: resolve_def)
qed

lemma resolve_follow_ok:
  "clean p \<Longrightarrow> p \<noteq> [] \<Longrightarrow> dir_at root (butlast p) \<Longrightarrow>
   (case get root p of Some n \<Rightarrow> \<not> is_link n | None \<Rightarrow> True) \<Longrightarrow> resolve root p follow = Inr p"
  using walk_through_dirs [of p root "[]" follow] by (simp add: resolve_def)

lemma resolve_Nil [simp]: "resolve root [] follow = Inr []"
  by (simp add: resolve_def)

lemma resolve_direct:
  assumes "clean p" "direct root p" "is_dir root" "resolve root p False = Inr q"
  shows "q = p \<and> (p \<noteq> [] \<longrightarrow> dir_at root (butlast p))"
proof (cases "p = []")
  case False
  have "dir_at root []" using assms(3) by (simp add: dir_at_def)
  with walk_blocked [of p root "[]" max_links False] assms
  have "dir_at root (butlast p)" by (force simp: resolve_def)
  with resolve_ok [of p root] assms False show ?thesis by simp
qed (use assms in simp)

section \<open>Calls that read\<close>

definition k_lstat :: "node \<Rightarrow> path \<Rightarrow> errno + node" where
  "k_lstat root p =
     (case resolve root p False of
        Inl e \<Rightarrow> Inl e
      | Inr q \<Rightarrow> (case get root q of None \<Rightarrow> Inl ENOENT | Some n \<Rightarrow> Inr n))"

definition k_stat :: "node \<Rightarrow> path \<Rightarrow> errno + node" where
  "k_stat root p =
     (case resolve root p True of
        Inl e \<Rightarrow> Inl e
      | Inr q \<Rightarrow> (case get root q of None \<Rightarrow> Inl ENOENT | Some n \<Rightarrow> Inr n))"

definition k_opendir :: "node \<Rightarrow> path \<Rightarrow> errno + (string \<times> node) list" where
  "k_opendir root p =
     (case k_stat root p of
        Inl e \<Rightarrow> Inl e
      | Inr (Dir m cs) \<Rightarrow> Inr cs
      | Inr _ \<Rightarrow> Inl ENOTDIR)"

definition lstat_ok :: "node \<Rightarrow> path \<Rightarrow> bool" where
  "lstat_ok root p = (case k_lstat root p of Inl _ \<Rightarrow> False | Inr _ \<Rightarrow> True)"

lemma k_lstat_direct:
  assumes "clean p" "direct root p" "is_dir root"
  shows "k_lstat root p = Inr n \<longleftrightarrow> get root p = Some n"
proof
  assume "k_lstat root p = Inr n"
  then obtain q where "resolve root p False = Inr q" "get root q = Some n"
    by (auto simp: k_lstat_def split: sum.splits option.splits)
  with resolve_direct [OF assms] show "get root p = Some n" by auto
next
  assume g: "get root p = Some n"
  show "k_lstat root p = Inr n"
  proof (cases "p = []")
    case False
    then have "dir_at root (butlast p)"
      using g get_below_dir [of root "butlast p" "last p" "[]"] by simp
    with False g assms show ?thesis by (simp add: k_lstat_def resolve_ok)
  qed (use g in \<open>simp add: k_lstat_def\<close>)
qed

lemma lstat_ok_direct:
  "clean p \<Longrightarrow> direct root p \<Longrightarrow> is_dir root \<Longrightarrow> lstat_ok root p \<longleftrightarrow> get root p \<noteq> None"
  using k_lstat_direct [of p root] by (force simp: lstat_ok_def split: sum.splits)

lemma k_lstat_through_dirs:
  "clean p \<Longrightarrow> p \<noteq> [] \<Longrightarrow> dir_at root (butlast p) \<Longrightarrow>
   k_lstat root p = (case get root p of None \<Rightarrow> Inl ENOENT | Some n \<Rightarrow> Inr n)"
  by (simp add: k_lstat_def resolve_ok)

lemma k_opendir_dir:
  assumes "clean p" "get root p = Some (Dir m cs)"
  shows "k_opendir root p = Inr cs"
proof (cases "p = []")
  case False
  then have "dir_at root (butlast p)"
    using assms get_below_dir [of root "butlast p" "last p" "[]"] by simp
  with False assms show ?thesis
    by (simp add: k_opendir_def k_stat_def resolve_follow_ok)
qed (use assms in \<open>simp add: k_opendir_def k_stat_def\<close>)

section \<open>Calls that change the tree\<close>

text \<open>The entry a call creates or names, when its parent directory exists.\<close>

definition k_create :: "node \<Rightarrow> path \<Rightarrow> node \<Rightarrow> errno + node" where
  "k_create root p n =
     (case resolve root p False of
        Inl e \<Rightarrow> Inl e
      | Inr q \<Rightarrow> if get root q \<noteq> None then Inl EEXIST else Inr (put root q (Some n)))"

definition k_unlink :: "node \<Rightarrow> path \<Rightarrow> errno + node" where
  "k_unlink root p =
     (case resolve root p False of
        Inl e \<Rightarrow> Inl e
      | Inr q \<Rightarrow>
          (case get root q of
             None \<Rightarrow> Inl ENOENT
           | Some n \<Rightarrow> if is_dir n then Inl EISDIR else Inr (put root q None)))"

definition k_rmdir :: "node \<Rightarrow> path \<Rightarrow> errno + node" where
  "k_rmdir root p =
     (case resolve root p False of
        Inl e \<Rightarrow> Inl e
      | Inr q \<Rightarrow>
          (case get root q of
             None \<Rightarrow> Inl ENOENT
           | Some (Dir m cs) \<Rightarrow>
               if q = [] then Inl EBUSY
               else if cs \<noteq> [] then Inl ENOTEMPTY
               else Inr (put root q None)
           | Some _ \<Rightarrow> Inl ENOTDIR))"

definition k_rename :: "node \<Rightarrow> path \<Rightarrow> path \<Rightarrow> errno + node" where
  "k_rename root a b =
     (case resolve root a False of
        Inl e \<Rightarrow> Inl e
      | Inr p \<Rightarrow>
          (case resolve root b False of
             Inl e \<Rightarrow> Inl e
           | Inr q \<Rightarrow>
               (case get root p of
                  None \<Rightarrow> Inl ENOENT
                | Some n \<Rightarrow>
                    if p = q then Inr root
                    else if prefix p q then Inl EINVAL
                    else if prefix q p then Inl ENOTEMPTY
                    else (case get root q of
                            None \<Rightarrow> Inr (put (put root p None) q (Some n))
                          | Some (Dir m cs) \<Rightarrow>
                              if \<not> is_dir n then Inl EISDIR
                              else if cs \<noteq> [] then Inl ENOTEMPTY
                              else Inr (put (put root p None) q (Some n))
                          | Some _ \<Rightarrow>
                              if is_dir n then Inl ENOTDIR
                              else Inr (put (put root p None) q (Some n))))))"

text \<open>\<^verbatim>\<open>pwrite\<close> and \<^verbatim>\<open>truncate\<close> through a path, which follows a final symbolic link.\<close>

definition k_edit :: "node \<Rightarrow> path \<Rightarrow> (string \<Rightarrow> string) \<Rightarrow> int \<Rightarrow> errno + node" where
  "k_edit root p f now =
     (case resolve root p True of
        Inl e \<Rightarrow> Inl e
      | Inr q \<Rightarrow>
          (case get root q of
             None \<Rightarrow> Inl ENOENT
           | Some (File m c) \<Rightarrow> Inr (put root q (Some (File (m\<lparr>mtime := now, ctime := now\<rparr>) (f c))))
           | Some (Dir m cs) \<Rightarrow> Inl EISDIR
           | Some _ \<Rightarrow> Inl EINVAL))"

text \<open>\<^verbatim>\<open>chmod\<close> and \<^verbatim>\<open>utimes\<close>, which follow a final symbolic link.\<close>

definition k_set_meta :: "node \<Rightarrow> path \<Rightarrow> (meta \<Rightarrow> meta) \<Rightarrow> errno + node" where
  "k_set_meta root p f =
     (case resolve root p True of
        Inl e \<Rightarrow> Inl e
      | Inr q \<Rightarrow>
          (case get root q of
             None \<Rightarrow> Inl ENOENT
           | Some n \<Rightarrow> Inr (if q = [] then root else put root q (Some (map_meta f n)))))"

lemma k_create_ok:
  "clean p \<Longrightarrow> p \<noteq> [] \<Longrightarrow> dir_at root (butlast p) \<Longrightarrow> get root p = None \<Longrightarrow>
   k_create root p n = Inr (put root p (Some n))"
  by (simp add: k_create_def resolve_ok)

lemma k_unlink_ok:
  "clean p \<Longrightarrow> p \<noteq> [] \<Longrightarrow> get root p = Some n \<Longrightarrow> \<not> is_dir n \<Longrightarrow>
   k_unlink root p = Inr (put root p None)"
  using get_below_dir [of root "butlast p" "last p" "[]"]
  by (simp add: k_unlink_def resolve_ok)

lemma k_edit_ok:
  "clean p \<Longrightarrow> p \<noteq> [] \<Longrightarrow> get root p = Some (File m c) \<Longrightarrow>
   k_edit root p f now = Inr (put root p (Some (File (m\<lparr>mtime := now, ctime := now\<rparr>) (f c))))"
  using get_below_dir [of root "butlast p" "last p" "[]"]
  by (simp add: k_edit_def resolve_follow_ok)

lemma k_set_meta_ok:
  "clean p \<Longrightarrow> p \<noteq> [] \<Longrightarrow> get root p = Some n \<Longrightarrow> \<not> is_link n \<Longrightarrow>
   k_set_meta root p f = Inr (put root p (Some (map_meta f n)))"
  using get_below_dir [of root "butlast p" "last p" "[]"]
  by (simp add: k_set_meta_def resolve_follow_ok)

text \<open>A file or link replaces what is not a directory; a directory replaces an empty one.\<close>

definition replaceable :: "node \<Rightarrow> node option \<Rightarrow> bool" where
  "replaceable n old \<longleftrightarrow>
     (case old of
        None \<Rightarrow> True
      | Some (Dir m cs) \<Rightarrow> is_dir n \<and> cs = []
      | Some _ \<Rightarrow> \<not> is_dir n)"

lemma k_rename_ok:
  assumes "clean p" "clean q" "q \<noteq> []" "\<not> prefix p q" "\<not> prefix q p"
    and "get root p = Some n" "dir_at root (butlast q)" "replaceable n (get root q)"
  shows "k_rename root p q = Inr (put (put root p None) q (Some n))"
proof -
  have "p \<noteq> []" using assms by auto
  then have "resolve root p False = Inr p"
    using assms get_below_dir [of root "butlast p" "last p" "[]"] by (simp add: resolve_ok)
  with assms show ?thesis
    by (auto simp: k_rename_def resolve_ok replaceable_def split: option.splits node.splits)
qed

section \<open>Recursive removal\<close>

text \<open>
  \<^verbatim>\<open>std::filesystem::remove_all\<close>: the entries of a directory first, then the directory, one
  kernel call each, stopping at the first that fails. The list gives the outcome of the next
  calls (\<open>0\<close> for success, or an error number; no entry for success); the result is the error, what is left of the
  entry, and the outcomes not yet used.
\<close>

definition next_fault :: "errno list \<Rightarrow> errno \<times> errno list" where
  "next_fault fs = (case fs of [] \<Rightarrow> (0, []) | f # fs' \<Rightarrow> (f, fs'))"

function (sequential) rm_tree :: "node \<Rightarrow> errno list \<Rightarrow> errno \<times> node option \<times> errno list"
  and rm_entries :: "(string \<times> node) list \<Rightarrow> errno list \<Rightarrow> errno \<times> (string \<times> node) list \<times> errno list"
where
  "rm_tree (Dir m cs) fs =
     (case rm_entries cs fs of
        (e, cs', fs') \<Rightarrow>
          if e \<noteq> 0 then (e, Some (Dir m cs'), fs')
          else (case next_fault fs' of
                  (f, fs'') \<Rightarrow> if f \<noteq> 0 then (f, Some (Dir m []), fs'') else (0, None, fs'')))"
| "rm_tree n fs =
     (case next_fault fs of (f, fs') \<Rightarrow> if f \<noteq> 0 then (f, Some n, fs') else (0, None, fs'))"
| "rm_entries [] fs = (0, [], fs)"
| "rm_entries ((x, n) # cs) fs =
     (case rm_tree n fs of
        (e, n', fs') \<Rightarrow>
          (case n' of
             Some c \<Rightarrow> (e, (x, c) # cs, fs')
           | None \<Rightarrow> rm_entries cs fs'))"
  by pat_completeness auto
termination
  by (relation "measure (\<lambda>x. case x of Inl (n, _) \<Rightarrow> size n
        | Inr (cs, _) \<Rightarrow> size_list (size_prod (\<lambda>_. 0) size) cs)") auto

lemma next_fault_Nil [simp]: "next_fault [] = (0, [])"
  by (simp add: next_fault_def)

lemma rm_tree_none_iff:
  "\<And>e n' fs'. rm_tree n fs = (e, n', fs') \<Longrightarrow> e = 0 \<longleftrightarrow> n' = None"
  and rm_entries_none_iff:
  "\<And>e cs' fs'. rm_entries cs fs = (e, cs', fs') \<Longrightarrow> e = 0 \<longleftrightarrow> cs' = []"
proof (induction n fs and cs fs rule: rm_tree_rm_entries.induct)
  case (4 x n cs fs)
  obtain e1 n1 fs1 where "rm_tree n fs = (e1, n1, fs1)" by (cases "rm_tree n fs") auto
  with 4 show ?case by (cases n1) auto
qed (auto split: prod.splits if_splits)

lemma rm_tree_no_faults:
  "fs = [] \<Longrightarrow> rm_tree n fs = (0, None, [])"
  and rm_entries_no_faults:
  "fs = [] \<Longrightarrow> rm_entries cs fs = (0, [], [])"
  by (induction n fs and cs fs rule: rm_tree_rm_entries.induct) auto

end
