(* ===== verification/Metadata_Store.thy ===== *)
theory Metadata_Store
  imports Prelude
begin

text \<open>
  The metadata database (\<^verbatim>\<open>core/metadata_store.cpp\<close>): its records, its tables and what each SQL
  statement of the source does to them. SQLite itself is not part of the repository. That a
  statement can fail is modelled in the theory Machine; the one operator whose meaning is SQLite's
  own, \<^verbatim>\<open>LIKE\<close>, is a parameter, with its documented behaviour as the hypothesis \<open>sqlite_like\<close>.
\<close>

section \<open>Records\<close>

record project_record =
  pr_root :: string
  pr_mount_point :: string
  pr_base_captured_at :: int
  pr_base_capture_ms :: int
  pr_base_entry_count :: int
  pr_base_bytes :: int

datatype workspace_state = Creating | Active | Removed | Reclaimed

fun workspace_state_name :: "workspace_state \<Rightarrow> string" where
  "workspace_state_name Creating = ''creating''"
| "workspace_state_name Removed = ''removed''"
| "workspace_state_name Reclaimed = ''reclaimed''"
| "workspace_state_name Active = ''active''"

definition parse_workspace_state :: "string \<Rightarrow> workspace_state option" where
  "parse_workspace_state state =
     (if state = ''creating'' then Some Creating
      else if state = ''active'' then Some Active
      else if state = ''removed'' then Some Removed
      else if state = ''reclaimed'' then Some Reclaimed
      else None)"

record workspace_record =
  ws_name :: string
  ws_branch :: string
  ws_state :: workspace_state
  ws_created_at :: int
  ws_create_us :: int
  ws_removed_at :: int
  ws_logical_remove_us :: int
  ws_reclaim_us :: int

datatype recovery_phase = Prepared | Publishing

definition recovery_phase_name :: "recovery_phase \<Rightarrow> string" where
  "recovery_phase_name phase = (if phase = Publishing then ''publishing'' else ''prepared'')"

definition parse_recovery_phase :: "string \<Rightarrow> recovery_phase option" where
  "parse_recovery_phase phase =
     (if phase = ''prepared'' then Some Prepared
      else if phase = ''publishing'' then Some Publishing
      else None)"

record recovery_operation =
  op_id :: int
  op_workspace :: string
  op_kind :: string
  op_path :: string
  op_target :: string
  op_phase :: recovery_phase
  add_path_tombstone :: bool
  drop_target_tombstones :: bool

record recovery_diagnostic =
  diag_id :: int
  diag_created_at :: int
  diag_project :: string
  diag_message :: string

text \<open>Both enumerations are ordered by their place in the life of what they describe.\<close>

fun state_rank :: "workspace_state \<Rightarrow> nat" where
  "state_rank Creating = 0"
| "state_rank Active = 1"
| "state_rank Removed = 2"
| "state_rank Reclaimed = 3"

lemma state_rank_inj: "state_rank a = state_rank b \<Longrightarrow> a = b"
  by (cases a; cases b) auto

instantiation workspace_state :: linorder
begin

definition less_eq_workspace_state :: "workspace_state \<Rightarrow> workspace_state \<Rightarrow> bool" where
  "a \<le> b \<longleftrightarrow> state_rank a \<le> state_rank b"

definition less_workspace_state :: "workspace_state \<Rightarrow> workspace_state \<Rightarrow> bool" where
  "a < b \<longleftrightarrow> state_rank a < state_rank b"

instance
  by standard (auto simp: less_eq_workspace_state_def less_workspace_state_def dest: state_rank_inj)

end

fun phase_rank :: "recovery_phase \<Rightarrow> nat" where
  "phase_rank Prepared = 0"
| "phase_rank Publishing = 1"

lemma phase_rank_inj: "phase_rank a = phase_rank b \<Longrightarrow> a = b"
  by (cases a; cases b) auto

instantiation recovery_phase :: linorder
begin

definition less_eq_recovery_phase :: "recovery_phase \<Rightarrow> recovery_phase \<Rightarrow> bool" where
  "a \<le> b \<longleftrightarrow> phase_rank a \<le> phase_rank b"

definition less_recovery_phase :: "recovery_phase \<Rightarrow> recovery_phase \<Rightarrow> bool" where
  "a < b \<longleftrightarrow> phase_rank a < phase_rank b"

instance
  by standard (auto simp: less_eq_recovery_phase_def less_recovery_phase_def dest: phase_rank_inj)

end

section \<open>Tables\<close>

record workspace_row =
  wr_name :: string
  wr_branch :: string
  wr_state :: string
  wr_created_at :: int
  wr_create_us :: int
  wr_removed_at :: int
  wr_logical_remove_us :: int
  wr_reclaim_us :: int

record operation_row =
  or_id :: int
  or_workspace :: string
  or_kind :: string
  or_path :: string
  or_target :: string
  or_phase :: string
  or_add_path_tombstone :: int
  or_drop_target_tombstones :: int

text \<open>
  One list per table of \<^verbatim>\<open>kSchema\<close>; the sequence numbers are those of the \<^verbatim>\<open>AUTOINCREMENT\<close> keys,
  which are never reused.
\<close>

record store =
  project_row :: "project_record option"
  workspace_rows :: "workspace_row list"
  tombstone_rows :: "(string \<times> string) list"
  operation_rows :: "operation_row list"
  operation_seq :: int
  diagnostic_rows :: "recovery_diagnostic list"
  diagnostic_seq :: int

definition empty_store :: store where
  "empty_store =
     \<lparr>project_row = None, workspace_rows = [], tombstone_rows = [], operation_rows = [],
      operation_seq = 0, diagnostic_rows = [], diagnostic_seq = 0\<rparr>"

section \<open>Rows and records\<close>

definition write_workspace_record :: "workspace_record \<Rightarrow> workspace_row" where
  "write_workspace_record r =
     \<lparr>wr_name = ws_name r, wr_branch = ws_branch r, wr_state = workspace_state_name (ws_state r),
      wr_created_at = ws_created_at r, wr_create_us = ws_create_us r,
      wr_removed_at = ws_removed_at r, wr_logical_remove_us = ws_logical_remove_us r,
      wr_reclaim_us = ws_reclaim_us r\<rparr>"

definition read_workspace_record :: "workspace_row \<Rightarrow> workspace_record option" where
  "read_workspace_record row =
     (case parse_workspace_state (wr_state row) of
        None \<Rightarrow> None
      | Some state \<Rightarrow>
          Some \<lparr>ws_name = wr_name row, ws_branch = wr_branch row, ws_state = state,
            ws_created_at = wr_created_at row, ws_create_us = wr_create_us row,
            ws_removed_at = wr_removed_at row, ws_logical_remove_us = wr_logical_remove_us row,
            ws_reclaim_us = wr_reclaim_us row\<rparr>)"

definition write_operation :: "int \<Rightarrow> recovery_operation \<Rightarrow> operation_row" where
  "write_operation i op =
     \<lparr>or_id = i, or_workspace = op_workspace op, or_kind = op_kind op, or_path = op_path op,
      or_target = op_target op, or_phase = recovery_phase_name (op_phase op),
      or_add_path_tombstone = (if add_path_tombstone op then 1 else 0),
      or_drop_target_tombstones = (if drop_target_tombstones op then 1 else 0)\<rparr>"

definition read_operation :: "operation_row \<Rightarrow> recovery_operation option" where
  "read_operation row =
     (case parse_recovery_phase (or_phase row) of
        None \<Rightarrow> None
      | Some phase \<Rightarrow>
          Some \<lparr>op_id = or_id row, op_workspace = or_workspace row, op_kind = or_kind row,
            op_path = or_path row, op_target = or_target row, op_phase = phase,
            add_path_tombstone = (or_add_path_tombstone row \<noteq> 0),
            drop_target_tombstones = (or_drop_target_tombstones row \<noteq> 0)\<rparr>)"

section \<open>Statements\<close>

definition escape_like_wildcards :: "string \<Rightarrow> string" where
  "escape_like_wildcards text =
     concat (map (\<lambda>c. if c = CHR 0x5C \<or> c = CHR ''%'' \<or> c = CHR ''_'' then [CHR 0x5C, c] else [c]) text)"

definition sql_save_project_record :: "project_record \<Rightarrow> store \<Rightarrow> store" where
  "sql_save_project_record r st = st\<lparr>project_row := Some r\<rparr>"

definition sql_save_workspace_record :: "workspace_record \<Rightarrow> store \<Rightarrow> store" where
  "sql_save_workspace_record r st =
     st\<lparr>workspace_rows :=
          filter (\<lambda>row. wr_name row \<noteq> ws_name r) (workspace_rows st) @ [write_workspace_record r]\<rparr>"

definition sql_load_workspace_record :: "string \<Rightarrow> store \<Rightarrow> workspace_record option" where
  "sql_load_workspace_record name st =
     (case filter (\<lambda>row. wr_name row = name) (workspace_rows st) of
        [] \<Rightarrow> None
      | row # _ \<Rightarrow> read_workspace_record row)"

definition sql_load_all_workspace_records :: "store \<Rightarrow> workspace_record list" where
  "sql_load_all_workspace_records st =
     List.map_filter read_workspace_record
       (sort_key wr_created_at (sort_key wr_name (workspace_rows st)))"

definition sql_set_workspace_state :: "string \<Rightarrow> workspace_state \<Rightarrow> store \<Rightarrow> store" where
  "sql_set_workspace_state name state st =
     st\<lparr>workspace_rows :=
          map (\<lambda>row. if wr_name row = name then row\<lparr>wr_state := workspace_state_name state\<rparr> else row)
            (workspace_rows st)\<rparr>"

definition sql_set_workspace_reclamation_duration :: "string \<Rightarrow> int \<Rightarrow> store \<Rightarrow> store" where
  "sql_set_workspace_reclamation_duration name reclaim_us st =
     st\<lparr>workspace_rows :=
          map (\<lambda>row. if wr_name row = name then row\<lparr>wr_reclaim_us := reclaim_us\<rparr> else row)
            (workspace_rows st)\<rparr>"

definition sql_add_tombstone :: "string \<Rightarrow> string \<Rightarrow> store \<Rightarrow> store" where
  "sql_add_tombstone workspace path st =
     (if (workspace, path) \<in> set (tombstone_rows st) then st
      else st\<lparr>tombstone_rows := tombstone_rows st @ [(workspace, path)]\<rparr>)"

definition sql_remove_tombstones_under ::
  "(string \<Rightarrow> string \<Rightarrow> bool) \<Rightarrow> string \<Rightarrow> string \<Rightarrow> store \<Rightarrow> store"
where
  "sql_remove_tombstones_under like workspace path st =
     st\<lparr>tombstone_rows :=
          filter (\<lambda>(w, p). \<not> (w = workspace \<and>
              (p = path \<or> like (escape_like_wildcards path @ ''/%'') p))) (tombstone_rows st)\<rparr>"

definition sql_clear_tombstones :: "string \<Rightarrow> store \<Rightarrow> store" where
  "sql_clear_tombstones workspace st =
     st\<lparr>tombstone_rows := filter (\<lambda>(w, p). w \<noteq> workspace) (tombstone_rows st)\<rparr>"

definition sql_load_workspace_tombstones :: "string \<Rightarrow> store \<Rightarrow> string list" where
  "sql_load_workspace_tombstones workspace st =
     map snd (filter (\<lambda>(w, p). w = workspace) (tombstone_rows st))"

definition sql_begin_recovery_operation :: "recovery_operation \<Rightarrow> store \<Rightarrow> store" where
  "sql_begin_recovery_operation op st =
     st\<lparr>operation_rows := operation_rows st @ [write_operation (operation_seq st + 1) op],
        operation_seq := operation_seq st + 1\<rparr>"

definition sql_set_recovery_operation_phase :: "int \<Rightarrow> recovery_phase \<Rightarrow> store \<Rightarrow> store" where
  "sql_set_recovery_operation_phase i phase st =
     st\<lparr>operation_rows :=
          map (\<lambda>row. if or_id row = i then row\<lparr>or_phase := recovery_phase_name phase\<rparr> else row)
            (operation_rows st)\<rparr>"

definition sql_abandon_recovery_operation :: "int \<Rightarrow> store \<Rightarrow> store" where
  "sql_abandon_recovery_operation i st =
     st\<lparr>operation_rows := filter (\<lambda>row. or_id row \<noteq> i) (operation_rows st)\<rparr>"

text \<open>\<^verbatim>\<open>ORDER BY id\<close>, then each row's phase parsed, the first invalid one ending the load.\<close>

fun parse_operations :: "operation_row list \<Rightarrow> recovery_operation list option" where
  "parse_operations [] = Some []"
| "parse_operations (row # rows) =
     (case read_operation row of
        None \<Rightarrow> None
      | Some op \<Rightarrow> map_option (Cons op) (parse_operations rows))"

definition sql_load_recovery_operations :: "store \<Rightarrow> recovery_operation list option" where
  "sql_load_recovery_operations st = parse_operations (sort_key or_id (operation_rows st))"

definition sql_record_recovery_diagnostic :: "int \<Rightarrow> string \<Rightarrow> string \<Rightarrow> store \<Rightarrow> store" where
  "sql_record_recovery_diagnostic now project message st =
     (if message \<in> diag_message ` set (diagnostic_rows st) then st
      else st\<lparr>diagnostic_rows := diagnostic_rows st @
                 [\<lparr>diag_id = diagnostic_seq st + 1, diag_created_at = now,
                   diag_project = project, diag_message = message\<rparr>],
              diagnostic_seq := diagnostic_seq st + 1\<rparr>)"

section \<open>Round trips\<close>

lemma parse_workspace_state_name [simp]: "parse_workspace_state (workspace_state_name s) = Some s"
  by (cases s) (simp_all add: parse_workspace_state_def)

lemma parse_recovery_phase_name [simp]: "parse_recovery_phase (recovery_phase_name p) = Some p"
  by (cases p) (simp_all add: parse_recovery_phase_def recovery_phase_name_def)

lemma read_write_workspace_record [simp]: "read_workspace_record (write_workspace_record r) = Some r"
  by (simp add: read_workspace_record_def write_workspace_record_def)

lemma read_write_operation [simp]: "read_operation (write_operation i op) = Some (op\<lparr>op_id := i\<rparr>)"
  by (simp add: read_operation_def write_operation_def)

section \<open>The journal\<close>

text \<open>
  What the engine and recovery rely on: the pending operations in the order they were begun.
  The invariant says that every row parses, that the keys ascend and that none is above the sequence number.
\<close>

definition journal_ok :: "store \<Rightarrow> bool" where
  "journal_ok st \<longleftrightarrow>
     sorted_wrt (<) (map or_id (operation_rows st)) \<and>
     (\<forall>row \<in> set (operation_rows st). or_id row \<le> operation_seq st \<and> read_operation row \<noteq> None)"

definition pending :: "store \<Rightarrow> recovery_operation list" where
  "pending st = (case sql_load_recovery_operations st of None \<Rightarrow> [] | Some ops \<Rightarrow> ops)"

lemma journal_ok_empty [simp]: "journal_ok empty_store"
  by (simp add: journal_ok_def empty_store_def)

lemma parse_operations_all:
  "\<forall>row \<in> set rows. read_operation row \<noteq> None \<Longrightarrow>
   parse_operations rows = Some (map (\<lambda>row. the (read_operation row)) rows)"
  by (induction rows) auto

lemma sorted_rows: "journal_ok st \<Longrightarrow> sort_key or_id (operation_rows st) = operation_rows st"
proof -
  assume "journal_ok st"
  then have "sorted (map or_id (operation_rows st))"
    by (auto simp: journal_ok_def intro: sorted_wrt_mono_rel [of _ "(<)"])
  then show ?thesis by (rule sort_key_id_if_sorted)
qed

lemma pending_rows:
  "journal_ok st \<Longrightarrow>
   sql_load_recovery_operations st =
     Some (map (\<lambda>row. the (read_operation row)) (operation_rows st))"
  by (simp add: sql_load_recovery_operations_def sorted_rows parse_operations_all journal_ok_def)

lemma load_pending: "journal_ok st \<Longrightarrow> sql_load_recovery_operations st = Some (pending st)"
  by (simp add: pending_def pending_rows)

lemma journal_ok_begin: "journal_ok st \<Longrightarrow> journal_ok (sql_begin_recovery_operation op st)"
  by (fastforce simp: journal_ok_def sql_begin_recovery_operation_def sorted_wrt_append
      write_operation_def read_operation_def recovery_phase_name_def parse_recovery_phase_def)

lemma journal_ok_abandon: "journal_ok st \<Longrightarrow> journal_ok (sql_abandon_recovery_operation i st)"
  by (auto simp: journal_ok_def sql_abandon_recovery_operation_def sorted_wrt_map sorted_wrt_filter)

lemma journal_ok_phase: "journal_ok st \<Longrightarrow> journal_ok (sql_set_recovery_operation_phase i phase st)"
  by (auto simp: journal_ok_def sql_set_recovery_operation_phase_def sorted_wrt_map
      read_operation_def if_distrib comp_def cong: if_cong)

end
