(* ===== verification/Fault_Injection.thy ===== *)
theory Fault_Injection
  imports Metadata_Store Host_FS
begin

text \<open>
  The process environment: the variables that switch deterministic faults on
  (\<^verbatim>\<open>core/fault_injection.cpp\<close>), the umask and owner the daemon runs with, the size the host file system
  reports for a directory and the blocks it allocates for an entry, how many bytes an output stream keeps until it is closed, how long the
  measured intervals take, the directory a command was started in, and the parameters that stand for SQLite, for the C library's message
  table and for the programs the daemon runs (exit code, combined output, and the file system they
  leave). Also the C number parsing and printing the sources use.
\<close>

section \<open>Numbers as text\<close>

definition is_space :: "char \<Rightarrow> bool" where
  "is_space c \<longleftrightarrow> c = CHR '' '' \<or> (9 \<le> (of_char c :: nat) \<and> (of_char c :: nat) \<le> 13)"

definition digit_of :: "char \<Rightarrow> nat option" where
  "digit_of c =
     (if 48 \<le> (of_char c :: nat) \<and> (of_char c :: nat) \<le> 57 then Some (of_char c - 48) else None)"

fun scan_number :: "nat \<Rightarrow> nat \<Rightarrow> string \<Rightarrow> nat" where
  "scan_number base acc [] = acc"
| "scan_number base acc (c # cs) =
     (case digit_of c of
        None \<Rightarrow> acc
      | Some d \<Rightarrow> if d < base then scan_number base (acc * base + d) cs else acc)"

text \<open>Leading white space, an optional sign, digits; anything else ends the number.\<close>

definition scan_signed :: "nat \<Rightarrow> string \<Rightarrow> bool \<times> nat" where
  "scan_signed base s =
     (case dropWhile is_space s of
        [] \<Rightarrow> (False, 0)
      | c # cs \<Rightarrow>
          if c = CHR ''-'' then (True, scan_number base 0 cs)
          else if c = CHR ''+'' then (False, scan_number base 0 cs)
          else (False, scan_number base 0 (c # cs)))"

definition atoi :: "string \<Rightarrow> int" where
  "atoi s = (case scan_signed 10 s of (neg, n) \<Rightarrow> if neg then - int n else int n)"

text \<open>\<^verbatim>\<open>strtoull\<close>: too large a value gives the greatest one, a minus sign wraps around.\<close>

definition strtoull :: "nat \<Rightarrow> string \<Rightarrow> 64 word" where
  "strtoull base s =
     (case scan_signed base s of
        (neg, n) \<Rightarrow>
          if 2 ^ 64 \<le> n then - 1
          else if neg then - word_of_nat n else word_of_nat n)"

text \<open>\<^verbatim>\<open>strtoll\<close>: values out of range give the nearest one in range.\<close>

definition strtoll :: "nat \<Rightarrow> string \<Rightarrow> int" where
  "strtoll base s =
     (case scan_signed base s of
        (neg, n) \<Rightarrow>
          if neg then max (- (2 ^ 63)) (- int n) else min (2 ^ 63 - 1) (int n))"

fun show_nat :: "nat \<Rightarrow> string" where
  "show_nat n =
     (if n < 10 then [char_of (48 + n)] else show_nat (n div 10) @ [char_of (48 + n mod 10)])"

declare show_nat.simps [simp del]

definition show_int :: "int \<Rightarrow> string" where
  "show_int i = (if i < 0 then CHR ''-'' # show_nat (nat (- i)) else show_nat (nat i))"

lemma show_nat_digits: "list_all (\<lambda>c. digit_of c \<noteq> None) (show_nat n)"
proof (induction n rule: show_nat.induct)
  case (1 n)
  have digit: "digit_of (char_of (48 + k)) = Some k" if "k < 10" for k :: nat
    using that by (simp add: digit_of_def of_char_of)
  show ?case
    using 1 digit [of n] digit [of "n mod 10"]
    by (subst show_nat.simps) (auto simp: digit_of_def)
qed

lemma show_nat_nonempty [simp]: "show_nat n \<noteq> []"
  by (subst show_nat.simps) simp

lemma scan_show_nat: "scan_number 10 0 (show_nat n) = n"
proof -
  have app: "scan_number 10 acc (xs @ [c]) = scan_number 10 acc xs * 10 + d"
    if "list_all (\<lambda>c. digit_of c \<noteq> None) xs" "digit_of c = Some d" "d < 10" for acc xs c d
    using that
  proof (induction xs arbitrary: acc)
    case (Cons x xs)
    moreover from Cons.prems obtain k where "digit_of x = Some k" by auto
    moreover then have "k < 10" by (auto simp: digit_of_def split: if_splits)
    ultimately show ?case by simp
  qed simp
  show ?thesis
  proof (induction n rule: show_nat.induct)
    case (1 n)
    have digit: "digit_of (char_of (48 + k)) = Some k" if "k < 10" for k :: nat
      using that by (simp add: digit_of_def of_char_of)
    show ?case
    proof (cases "n < 10")
      case True
      then show ?thesis using digit [of n] by (subst show_nat.simps) simp
    next
      case False
      then show ?thesis
        using 1 digit [of "n mod 10"] app [OF show_nat_digits, of "char_of (48 + n mod 10)" "n mod 10"]
        by (subst show_nat.simps) simp
    qed
  qed
qed

lemma show_nat_inj: "show_nat m = show_nat n \<longleftrightarrow> m = n"
  by (metis scan_show_nat)

section \<open>The environment\<close>

record env =
  tribios_io_fault :: "string option"
  tribios_failpoint :: "string option"
  tribios_short_write_bytes :: "string option"
  umask :: "12 word"
  daemon_uid :: nat
  daemon_gid :: nat
  directory_size :: nat
  allocated_blocks :: "node \<Rightarrow> nat"
  stream_buffer :: nat
  sql_like :: "string \<Rightarrow> string \<Rightarrow> bool"
  error_text :: "errno \<Rightarrow> string"
  elapsed :: "string \<Rightarrow> int"
  current_directory :: "string list"
  run_process :: "string list \<Rightarrow> node \<Rightarrow> int \<times> string \<times> node"

definition injected_io_error :: "env \<Rightarrow> string \<Rightarrow> errno" where
  "injected_io_error e boundary =
     (case tribios_io_fault e of
        None \<Rightarrow> 0
      | Some value \<Rightarrow>
          (case find_char (CHR ''='') value of
             None \<Rightarrow> if value \<noteq> boundary then 0 else ENOSPC
           | Some separator \<Rightarrow>
               if take separator value \<noteq> boundary then 0
               else let error_number = atoi (drop (separator + 1) value)
                    in if error_number > 0 then error_number else ENOSPC))"

definition injected_short_write_size :: "env \<Rightarrow> nat \<Rightarrow> nat" where
  "injected_short_write_size e requested =
     (case tribios_short_write_bytes e of
        None \<Rightarrow> requested
      | Some configured \<Rightarrow>
          let limit = unat (strtoull 10 configured)
          in if limit < requested then limit else requested)"

lemma injected_io_error_nonneg: "0 \<le> injected_io_error e b"
  by (auto simp: injected_io_error_def Let_def split: option.splits)

lemma injected_short_write_size_le: "injected_short_write_size e n \<le> n"
  by (auto simp: injected_short_write_size_def Let_def split: option.splits)

text \<open>What \<^verbatim>\<open>https://sqlite.org/lang_expr.html\<close> says of \<open>LIKE\<close> for the patterns of the source:
  escaped characters match themselves, ASCII letters regardless of case, and a final percent sign
  any rest.\<close>

definition ascii_fold :: "char \<Rightarrow> char" where
  "ascii_fold c =
     (if 65 \<le> (of_char c :: nat) \<and> (of_char c :: nat) \<le> 90 then char_of ((of_char c :: nat) + 32) else c)"

definition sqlite_like :: "(string \<Rightarrow> string \<Rightarrow> bool) \<Rightarrow> bool" where
  "sqlite_like like \<longleftrightarrow>
     (\<forall>p t. like (escape_like_wildcards p @ ''/%'') t \<longleftrightarrow>
        prefix (map ascii_fold (p @ ''/'')) (map ascii_fold t))"

text \<open>An executable operator with that behaviour, used in the concrete runs of the development.\<close>

fun like_match :: "string \<Rightarrow> string \<Rightarrow> bool" where
  "like_match [] t = (t = [])"
| "like_match (p # ps) t =
     (if p = CHR ''%'' then ps = [] \<or> (\<exists>k \<in> set [0..<Suc (length t)]. like_match ps (drop k t))
      else if p = CHR ''_'' then (case t of [] \<Rightarrow> False | _ # ts \<Rightarrow> like_match ps ts)
      else if p = CHR 0x5C then
        (case (ps, t) of
           (q # qs, c # ts) \<Rightarrow> ascii_fold q = ascii_fold c \<and> like_match qs ts
         | _ \<Rightarrow> False)
      else (case t of [] \<Rightarrow> False | c # ts \<Rightarrow> ascii_fold p = ascii_fold c \<and> like_match ps ts))"

lemma like_match_escaped:
  "like_match (escape_like_wildcards p @ ''/%'') t \<longleftrightarrow>
     prefix (map ascii_fold (p @ ''/'')) (map ascii_fold t)"
proof (induction p arbitrary: t)
  case Nil
  then show ?case by (cases t) (auto simp: escape_like_wildcards_def)
next
  case (Cons a p)
  then show ?case by (cases t) (auto simp: escape_like_wildcards_def)
qed

lemma sqlite_like_match: "sqlite_like like_match"
  unfolding sqlite_like_def by (simp add: like_match_escaped)

end
