(* ===== verification/Machine.thy ===== *)
theory Machine
  imports Kernel Fault_Injection
begin

text \<open>
  The state the daemon works on: the host file system, the metadata database, the memory of the
  Workspace engine a call runs on, and the outcome of the next fallible calls. On top of it the
  system calls, the \<^verbatim>\<open>std::filesystem\<close> functions and the database statements as programs, and the
  failpoints and flushes of \<^verbatim>\<open>core/recovery.cpp\<close>.
\<close>

section \<open>State\<close>

text \<open>
  A descriptor stands for the file object it was opened on. No call of the sources changes a
  published file in place, so the object is the node that was found at the open.
\<close>

record open_handle =
  backing :: "node option"
  backing_flags :: "32 word"
  handle_flags :: "32 word"
  relative :: string

record dir_entry =
  de_name :: string
  de_ino :: "64 word"
  de_kind :: kind

record engine =
  workspace :: string
  inode_salt :: "64 word"
  base_dir :: path
  upper_dir :: path
  tombstones :: "string set"
  directory_entries_cache :: "(string \<times> dir_entry list) list"
  handles :: "(int \<times> open_handle) list"
  next_handle :: int

text \<open>
  \<open>faults\<close> is the outcome of the fallible calls to come, \<open>0\<close> for success; after its end every call
  succeeds. \<open>trace\<close> is \<^verbatim>\<open>recovery.trace\<close>.
\<close>

record machine =
  host :: node
  store :: store
  eng :: engine
  faults :: "errno list"
  clock :: int
  next_ino :: nat
  trace :: "(string \<times> string) list"

type_synonym 'a io = "(machine, errno, 'a) prog"
type_synonym 'a control = "(machine, string, 'a) prog"

section \<open>Calls that can fail\<close>

text \<open>\<^verbatim>\<open>EEXIST\<close> tells what the file system holds, so no fault has that number.\<close>

definition kernel_call :: "unit io" where
  "kernel_call s =
     (case next_fault (faults s) of
        (f, fs) \<Rightarrow>
          (if f = 0 then Ok () else Err (if f = EEXIST then EIO else f), s\<lparr>faults := fs\<rparr>))"

definition on_host :: "(node \<Rightarrow> errno + node) \<Rightarrow> unit io" where
  "on_host f s =
     (case f (host s) of
        Inl e \<Rightarrow> (Err e, s)
      | Inr h \<Rightarrow> (Ok (), s\<lparr>host := h\<rparr>))"

definition sys :: "(node \<Rightarrow> errno + node) \<Rightarrow> unit io" where
  "sys f = bnd kernel_call (\<lambda>_. on_host f)"

definition from_host :: "(node \<Rightarrow> errno + 'a) \<Rightarrow> 'a io" where
  "from_host f s = (case f (host s) of Inl e \<Rightarrow> (Err e, s) | Inr a \<Rightarrow> (Ok a, s))"

definition fresh_meta :: "env \<Rightarrow> path \<Rightarrow> perm \<Rightarrow> meta io" where
  "fresh_meta e p mode s =
     (Ok \<lparr>ino = next_ino s,
          dev = (case k_stat (host s) (butlast p) of Inl _ \<Rightarrow> 0 | Inr n \<Rightarrow> dev (node_meta n)),
          perm = mode, owner = daemon_uid e, group = daemon_gid e, nlink = 1,
          atime = clock s, mtime = clock s, ctime = clock s, mtime_ns = 0, ctime_ns = 0\<rparr>,
      s\<lparr>next_ino := next_ino s + 1\<rparr>)"

definition new_entry :: "env \<Rightarrow> path \<Rightarrow> perm \<Rightarrow> (meta \<Rightarrow> node) \<Rightarrow> unit io" where
  "new_entry e p mode mk =
     bnd kernel_call (\<lambda>_. bnd (fresh_meta e p mode) (\<lambda>m. on_host (\<lambda>r. k_create r p (mk m))))"

text \<open>\<^verbatim>\<open>mkdir\<close> and \<^verbatim>\<open>open(O_CREAT | O_EXCL)\<close> clear the bits of the umask; a symbolic link has all bits.\<close>

definition sys_mkdir :: "env \<Rightarrow> path \<Rightarrow> perm \<Rightarrow> unit io" where
  "sys_mkdir e p mode = new_entry e p (and mode (not (umask e))) (\<lambda>m. Dir m [])"

definition sys_create_file :: "env \<Rightarrow> path \<Rightarrow> perm \<Rightarrow> unit io" where
  "sys_create_file e p mode = new_entry e p (and mode (not (umask e))) (\<lambda>m. File m [])"

definition sys_symlink :: "env \<Rightarrow> string \<Rightarrow> path \<Rightarrow> unit io" where
  "sys_symlink e target p =
     (if target = [] then fail ENOENT else new_entry e p 0x1FF (\<lambda>m. Link m target))"

definition sys_unlink :: "path \<Rightarrow> unit io" where
  "sys_unlink p = sys (\<lambda>r. k_unlink r p)"

definition sys_rmdir :: "path \<Rightarrow> unit io" where
  "sys_rmdir p = sys (\<lambda>r. k_rmdir r p)"

definition sys_rename :: "path \<Rightarrow> path \<Rightarrow> unit io" where
  "sys_rename a b = sys (\<lambda>r. k_rename r a b)"

definition sys_edit :: "path \<Rightarrow> (string \<Rightarrow> string) \<Rightarrow> unit io" where
  "sys_edit p f = bnd (gets clock) (\<lambda>now. sys (\<lambda>r. k_edit r p f now))"

definition sys_chmod :: "path \<Rightarrow> perm \<Rightarrow> unit io" where
  "sys_chmod p mode = sys (\<lambda>r. k_set_meta r p (\<lambda>m. m\<lparr>perm := mode\<rparr>))"

definition sys_utimes :: "path \<Rightarrow> int \<Rightarrow> int \<Rightarrow> unit io" where
  "sys_utimes p a m = sys (\<lambda>r. k_set_meta r p (\<lambda>x. x\<lparr>atime := a, mtime := m, mtime_ns := 0\<rparr>))"

section \<open>\<^verbatim>\<open>std::filesystem\<close>\<close>

definition fs_remove :: "path \<Rightarrow> unit io" where
  "fs_remove p =
     bnd (gets (\<lambda>s. k_lstat (host s) p)) (\<lambda>found.
       case found of
         Inl e \<Rightarrow> if e = ENOENT \<or> e = ENOTDIR then ret () else fail e
       | Inr n \<Rightarrow> if is_dir n then sys_rmdir p else sys_unlink p)"

definition fs_remove_all :: "path \<Rightarrow> unit io" where
  "fs_remove_all p s =
     (case resolve (host s) p False of
        Inl e \<Rightarrow> (if e = ENOENT \<or> e = ENOTDIR then Ok () else Err e, s)
      | Inr q \<Rightarrow>
          (case get (host s) q of
             None \<Rightarrow> (Ok (), s)
           | Some n \<Rightarrow>
               (case rm_tree n (faults s) of
                  (e, left, fs) \<Rightarrow>
                    (if e \<noteq> 0 then Err e else Ok (),
                     s\<lparr>host := put (host s) q left, faults := fs\<rparr>))))"

fun create_directories_from :: "env \<Rightarrow> path \<Rightarrow> path \<Rightarrow> unit io" where
  "create_directories_from e done [] = ret ()"
| "create_directories_from e done (x # xs) =
     bnd (gets (\<lambda>s. k_stat (host s) (done @ [x]))) (\<lambda>found.
       bnd (case found of
              Inr n \<Rightarrow> if is_dir n then ret () else fail ENOTDIR
            | Inl err \<Rightarrow>
                if err = ENOENT then sys_mkdir e (done @ [x]) 0x1FF else fail err)
         (\<lambda>_. create_directories_from e (done @ [x]) xs))"

definition fs_create_directories :: "env \<Rightarrow> path \<Rightarrow> unit io" where
  "fs_create_directories e p = create_directories_from e [] p"

text \<open>
  \<^verbatim>\<open>copy_file\<close> opens the source, creates the destination with the source's mode, and copies; a
  destination that exists is an error unless it is to be overwritten.
\<close>

definition fs_copy_file :: "env \<Rightarrow> path \<Rightarrow> path \<Rightarrow> bool \<Rightarrow> unit io" where
  "fs_copy_file e source dest overwrite =
     bnd kernel_call (\<lambda>_.
     bnd (from_host (\<lambda>r. k_stat r source)) (\<lambda>n.
       case n of
         File sm content \<Rightarrow>
           bnd (gets (\<lambda>s. k_stat (host s) dest)) (\<lambda>old.
           bnd (case old of
                  Inl _ \<Rightarrow> new_entry e dest (perm sm) (\<lambda>m. File m [])
                | Inr _ \<Rightarrow>
                    if overwrite
                    then bnd (sys_edit dest (\<lambda>_. [])) (\<lambda>_. sys_chmod dest (perm sm))
                    else fail EEXIST) (\<lambda>_.
           sys_edit dest (\<lambda>_. content)))
       | _ \<Rightarrow> fail EINVAL))"

definition fs_exists :: "path \<Rightarrow> machine \<Rightarrow> bool" where
  "fs_exists p s = (case k_stat (host s) p of Inl _ \<Rightarrow> False | Inr _ \<Rightarrow> True)"

definition fs_is_directory :: "path \<Rightarrow> machine \<Rightarrow> bool" where
  "fs_is_directory p s = (case k_stat (host s) p of Inl _ \<Rightarrow> False | Inr n \<Rightarrow> is_dir n)"

text \<open>A path as text, and \<^verbatim>\<open>operator/\<close>, whose right side wins when it is absolute.\<close>

definition path_string :: "path \<Rightarrow> string" where
  "path_string p = (if p = [] then ''/'' else concat (map (\<lambda>x. CHR ''/'' # x) p))"

definition fs_join :: "path \<Rightarrow> string \<Rightarrow> path" where
  "fs_join dir name = (if prefix ''/'' name then segs name else dir @ segs name)"

definition fs_is_regular_file :: "path \<Rightarrow> machine \<Rightarrow> bool" where
  "fs_is_regular_file p s = (case k_stat (host s) p of Inl _ \<Rightarrow> False | Inr n \<Rightarrow> node_kind n = REG)"

text \<open>
  \<^verbatim>\<open>std::ifstream\<close>: a file that cannot be read is empty. \<^verbatim>\<open>std::ofstream\<close>: the open creates or
  truncates; a write that fits the stream's buffer happens when the stream is destroyed, where its
  failure is not seen.
\<close>

definition read_whole_file :: "path \<Rightarrow> (machine, 'e, string) prog" where
  "read_whole_file p =
     bnd (attempt kernel_call) (\<lambda>opened.
     gets (\<lambda>s. case (opened, k_stat (host s) p) of (Inr _, Inr (File m c)) \<Rightarrow> c | _ \<Rightarrow> []))"

definition first_line :: "string \<Rightarrow> string" where
  "first_line text = takeWhile (\<lambda>c. c \<noteq> CHR 0x0A) text"

definition read_first_line :: "path \<Rightarrow> (machine, 'e, string) prog" where
  "read_first_line p = bnd (read_whole_file p) (\<lambda>text. ret (first_line text))"

definition write_stream :: "env \<Rightarrow> path \<Rightarrow> string \<Rightarrow> unit io" where
  "write_stream e p text =
     bnd (gets (\<lambda>s. k_stat (host s) p)) (\<lambda>old.
     bnd (case old of
            Inl _ \<Rightarrow> sys_create_file e p 0x1B6
          | Inr _ \<Rightarrow> sys_edit p (\<lambda>_. [])) (\<lambda>_.
     if length text \<le> stream_buffer e
     then bnd (attempt (sys_edit p (\<lambda>_. text))) (\<lambda>_. ret ())
     else sys_edit p (\<lambda>_. text)))"

section \<open>Flushes\<close>

text \<open>A flush opens its path and syncs it; it changes nothing and can fail at both calls.\<close>

definition sync_file_data :: "path \<Rightarrow> unit io" where
  "sync_file_data p =
     bnd kernel_call (\<lambda>_. bnd (from_host (\<lambda>r. k_stat r p)) (\<lambda>_. kernel_call))"

definition sync_directory :: "path \<Rightarrow> unit io" where
  "sync_directory p =
     bnd kernel_call (\<lambda>_. bnd (from_host (\<lambda>r. k_opendir r p)) (\<lambda>_. kernel_call))"

definition sync_parent_directory :: "path \<Rightarrow> unit io" where
  "sync_parent_directory p = sync_directory (butlast p)"

section \<open>Failpoints\<close>

text \<open>The selected failpoint appends to the trace and ends the process (\<^verbatim>\<open>_exit(137)\<close>).\<close>

definition trigger_failpoint :: "env \<Rightarrow> string \<Rightarrow> string \<Rightarrow> (machine, 'e, unit) prog" where
  "trigger_failpoint e name context =
     (if tribios_failpoint e = Some name
      then bnd (modify (\<lambda>s. s\<lparr>trace := trace s @ [(name, context)]\<rparr>)) (\<lambda>_. halt name)
      else ret ())"

section \<open>Database statements\<close>

text \<open>A statement has its whole effect or fails without any.\<close>

definition sql_error :: "env \<Rightarrow> errno \<Rightarrow> string" where
  "sql_error e code = ''metadata store: '' @ error_text e code"

definition sql_step :: "env \<Rightarrow> unit control" where
  "sql_step e = catch kernel_call (\<lambda>code. fail (sql_error e code))"

definition execute_statement_without_rows :: "env \<Rightarrow> (store \<Rightarrow> store) \<Rightarrow> unit control" where
  "execute_statement_without_rows e f =
     bnd (sql_step e) (\<lambda>_. modify (\<lambda>s. s\<lparr>store := f (store s)\<rparr>))"

definition save_project_record :: "env \<Rightarrow> project_record \<Rightarrow> unit control" where
  "save_project_record e r = execute_statement_without_rows e (sql_save_project_record r)"

definition load_project_record :: "env \<Rightarrow> (machine, 'e, project_record option) prog" where
  "load_project_record e =
     bnd (attempt kernel_call) (\<lambda>r.
       case r of Inl _ \<Rightarrow> ret None | Inr _ \<Rightarrow> gets (\<lambda>s. project_row (store s)))"

definition save_workspace_record :: "env \<Rightarrow> workspace_record \<Rightarrow> unit control" where
  "save_workspace_record e r = execute_statement_without_rows e (sql_save_workspace_record r)"

definition load_workspace_record :: "env \<Rightarrow> string \<Rightarrow> (machine, 'e, workspace_record option) prog" where
  "load_workspace_record e name =
     bnd (attempt kernel_call) (\<lambda>r.
       case r of
         Inl _ \<Rightarrow> ret None
       | Inr _ \<Rightarrow> gets (\<lambda>s. sql_load_workspace_record name (store s)))"

definition load_all_workspace_records :: "env \<Rightarrow> (machine, 'e, workspace_record list) prog" where
  "load_all_workspace_records e =
     bnd (attempt kernel_call) (\<lambda>r.
       case r of
         Inl _ \<Rightarrow> ret []
       | Inr _ \<Rightarrow> gets (\<lambda>s. sql_load_all_workspace_records (store s)))"

definition set_workspace_state :: "env \<Rightarrow> string \<Rightarrow> workspace_state \<Rightarrow> unit control" where
  "set_workspace_state e name state =
     execute_statement_without_rows e (sql_set_workspace_state name state)"

definition set_workspace_reclamation_duration :: "env \<Rightarrow> string \<Rightarrow> int \<Rightarrow> unit control" where
  "set_workspace_reclamation_duration e name us =
     execute_statement_without_rows e (sql_set_workspace_reclamation_duration name us)"

definition add_tombstone :: "env \<Rightarrow> string \<Rightarrow> string \<Rightarrow> unit control" where
  "add_tombstone e w p = execute_statement_without_rows e (sql_add_tombstone w p)"

definition remove_tombstones_under :: "env \<Rightarrow> string \<Rightarrow> string \<Rightarrow> unit control" where
  "remove_tombstones_under e w p =
     execute_statement_without_rows e (sql_remove_tombstones_under (sql_like e) w p)"

definition clear_tombstones :: "env \<Rightarrow> string \<Rightarrow> unit control" where
  "clear_tombstones e w = execute_statement_without_rows e (sql_clear_tombstones w)"

definition load_workspace_tombstones :: "env \<Rightarrow> string \<Rightarrow> (machine, 'e, string list) prog" where
  "load_workspace_tombstones e w =
     bnd (attempt kernel_call) (\<lambda>r.
       case r of
         Inl _ \<Rightarrow> ret []
       | Inr _ \<Rightarrow> gets (\<lambda>s. sql_load_workspace_tombstones w (store s)))"

definition begin_recovery_operation :: "env \<Rightarrow> recovery_operation \<Rightarrow> int control" where
  "begin_recovery_operation e op =
     bnd (execute_statement_without_rows e (sql_begin_recovery_operation op))
       (\<lambda>_. gets (\<lambda>s. operation_seq (store s)))"

definition set_recovery_operation_phase :: "env \<Rightarrow> int \<Rightarrow> recovery_phase \<Rightarrow> unit control" where
  "set_recovery_operation_phase e i phase =
     execute_statement_without_rows e (sql_set_recovery_operation_phase i phase)"

definition abandon_recovery_operation :: "env \<Rightarrow> int \<Rightarrow> unit control" where
  "abandon_recovery_operation e i =
     execute_statement_without_rows e (sql_abandon_recovery_operation i)"

text \<open>
  One transaction: a failing statement rolls the ones before it back, and a failing
  \<open>BEGIN\<close> or \<open>COMMIT\<close> leaves no effect.
\<close>

definition finish_recovery_operation :: "env \<Rightarrow> recovery_operation \<Rightarrow> unit control" where
  "finish_recovery_operation e op =
     bnd (sql_step e) (\<lambda>_.
     bnd (gets store) (\<lambda>before.
       catch
         (bnd (if add_path_tombstone op
               then execute_statement_without_rows e (sql_add_tombstone (op_workspace op) (op_path op))
               else ret ()) (\<lambda>_.
          bnd (if drop_target_tombstones op
               then execute_statement_without_rows e
                      (sql_remove_tombstones_under (sql_like e) (op_workspace op) (op_target op))
               else ret ()) (\<lambda>_.
          bnd (execute_statement_without_rows e (sql_abandon_recovery_operation (op_id op))) (\<lambda>_.
          sql_step e))))
         (\<lambda>message. bnd (modify (\<lambda>s. s\<lparr>store := before\<rparr>)) (\<lambda>_. fail message))))"

definition load_recovery_operations :: "env \<Rightarrow> recovery_operation list control" where
  "load_recovery_operations e =
     bnd (sql_step e) (\<lambda>_.
     bnd (gets (\<lambda>s. sql_load_recovery_operations (store s))) (\<lambda>loaded.
       case loaded of
         None \<Rightarrow> fail ''metadata store: recovery operation has an invalid phase''
       | Some ops \<Rightarrow> ret ops))"

definition validate_database_integrity :: "env \<Rightarrow> unit control" where
  "validate_database_integrity e =
     catch kernel_call (\<lambda>code. fail (''metadata store integrity check failed: '' @ error_text e code))"

definition record_recovery_diagnostic :: "env \<Rightarrow> string \<Rightarrow> string \<Rightarrow> int control" where
  "record_recovery_diagnostic e project message =
     bnd (gets clock) (\<lambda>now.
     bnd (execute_statement_without_rows e (sql_record_recovery_diagnostic now project message)) (\<lambda>_.
     bnd (sql_step e) (\<lambda>_.
     bnd (gets (\<lambda>s. filter (\<lambda>d. diag_message d = message) (diagnostic_rows (store s)))) (\<lambda>found.
       case found of
         [] \<Rightarrow> fail (sql_error e 0)
       | d # _ \<Rightarrow> ret (diag_id d)))))"

definition load_recovery_diagnostics :: "env \<Rightarrow> recovery_diagnostic list control" where
  "load_recovery_diagnostics e =
     bnd (sql_step e) (\<lambda>_. gets (\<lambda>s. sort_key diag_id (diagnostic_rows (store s))))"

end
