(* ===== verification/Workspace_Engine.thy ===== *)
theory Workspace_Engine
  imports Machine
begin

text \<open>
  The Workspace engine (\<^verbatim>\<open>core/workspace_engine.cpp\<close>): an immutable Base tree, the upper tree of the
  Workspace and its tombstones, with every mutation staged under \<^verbatim>\<open>recovery/\<close>, journaled and
  published by a rename. One definition per member function; the engine object is \<open>eng\<close> of the
  state. The mutex of the source makes each member function one step.
\<close>

unbundle bit_operations_syntax

section \<open>Inode numbers\<close>

definition fnv1a :: "string \<Rightarrow> 64 word" where
  "fnv1a s =
     foldl (\<lambda>hash byte. (hash XOR word_of_nat (of_char byte)) * 1099511628211) 14695981039346656037 s"

definition workspace_inode_salt :: "string \<Rightarrow> 64 word" where
  "workspace_inode_salt ws = fnv1a ws"

definition mix_inode :: "64 word \<Rightarrow> 64 word" where
  "mix_inode v0 =
     (let v1 = v0 XOR drop_bit 30 v0;
          v2 = v1 * 0xbf58476d1ce4e5b9;
          v3 = v2 XOR drop_bit 27 v2;
          v4 = v3 * 0x94d049bb133111eb
      in v4 XOR drop_bit 31 v4)"

definition salted_workspace_inode :: "64 word \<Rightarrow> 64 word \<Rightarrow> 64 word" where
  "salted_workspace_inode salt backing_inode =
     (let v = mix_inode (backing_inode + salt) in if v = 0 then 1 else v)"

section \<open>Layers\<close>

definition upper_path :: "engine \<Rightarrow> string \<Rightarrow> path" where
  "upper_path en rel = upper_dir en @ segs rel"

definition base_path :: "engine \<Rightarrow> string \<Rightarrow> path" where
  "base_path en rel = base_dir en @ segs rel"

function hidden_by_tombstone :: "string set \<Rightarrow> string \<Rightarrow> bool" where
  "hidden_by_tombstone T path =
     (if path = [] then False else if path \<in> T then True else hidden_by_tombstone T (parent_of path))"
  by pat_completeness auto
termination
  by (relation "measure (\<lambda>(T, path). length path)") (auto simp: length_parent_of)

declare hidden_by_tombstone.simps [simp del]

definition base_is_visible :: "engine \<Rightarrow> string \<Rightarrow> bool" where
  "base_is_visible en rel = (\<not> hidden_by_tombstone (tombstones en) rel)"

text \<open>The node is what \<^verbatim>\<open>lstat\<close> stored in the caller's buffer.\<close>

datatype layer = Missing | Upper node | Base node

definition find_visible_entry_layer :: "string \<Rightarrow> machine \<Rightarrow> layer" where
  "find_visible_entry_layer rel s =
     (case k_lstat (host s) (upper_path (eng s) rel) of
        Inr n \<Rightarrow> Upper n
      | Inl _ \<Rightarrow>
          if base_is_visible (eng s) rel
          then (case k_lstat (host s) (base_path (eng s) rel) of Inr n \<Rightarrow> Base n | Inl _ \<Rightarrow> Missing)
          else Missing)"

fun layer_node :: "layer \<Rightarrow> node option" where
  "layer_node Missing = None"
| "layer_node (Upper n) = Some n"
| "layer_node (Base n) = Some n"

fun layer_path :: "engine \<Rightarrow> string \<Rightarrow> layer \<Rightarrow> path" where
  "layer_path en rel (Upper n) = upper_path en rel"
| "layer_path en rel _ = base_path en rel"

definition workspace_inode_for :: "engine \<Rightarrow> node \<Rightarrow> 64 word" where
  "workspace_inode_for en n = salted_workspace_inode (inode_salt en) (word_of_nat (ino (node_meta n)))"

section \<open>Listings\<close>

definition merge_directory ::
  "machine \<Rightarrow> string \<Rightarrow> path \<Rightarrow> bool \<Rightarrow> (string \<times> dir_entry) list \<Rightarrow> (string \<times> dir_entry) list"
where
  "merge_directory s rel p filter_tombstones entries =
     (case k_opendir (host s) p of
        Inl _ \<Rightarrow> entries
      | Inr cs \<Rightarrow>
          foldl (\<lambda>es (name, n).
              if filter_tombstones \<and> join_relative rel name \<in> tombstones (eng s) then es
              else omap_set name
                     \<lparr>de_name = name, de_ino = workspace_inode_for (eng s) n, de_kind = node_kind n\<rparr> es)
            entries cs)"

definition merge_visible_directory_entries :: "string \<Rightarrow> machine \<Rightarrow> (string \<times> dir_entry) list" where
  "merge_visible_directory_entries rel s =
     (let entries =
        (if base_is_visible (eng s) rel
         then merge_directory s rel (base_path (eng s) rel) True [] else [])
      in merge_directory s rel (upper_path (eng s) rel) False entries)"

text \<open>\<^verbatim>\<open>lower_bound\<close>, then a loop over the keys that start with the prefix.\<close>

definition erase_prefix_range :: "string \<Rightarrow> (string \<times> 'a) list \<Rightarrow> (string \<times> 'a) list" where
  "erase_prefix_range descendant_prefix cache =
     (let before = takeWhile (\<lambda>(k, _). k < descendant_prefix) cache;
          cached = dropWhile (\<lambda>(k, _). k < descendant_prefix) cache
      in before @ dropWhile (\<lambda>(k, _). prefix descendant_prefix k) cached)"

definition erase_key :: "'k \<Rightarrow> ('k \<times> 'a) list \<Rightarrow> ('k \<times> 'a) list" where
  "erase_key key m = filter (\<lambda>(k, _). k \<noteq> key) m"

definition forget_listings :: "string \<Rightarrow> (string \<times> 'a) list \<Rightarrow> (string \<times> 'a) list" where
  "forget_listings rel cache =
     erase_prefix_range (rel @ ''/'') (erase_key rel (erase_key (parent_of rel) cache))"

definition on_engine :: "(engine \<Rightarrow> engine) \<Rightarrow> (machine, 'e, unit) prog" where
  "on_engine f = modify (\<lambda>s. s\<lparr>eng := f (eng s)\<rparr>)"

definition forget_cached_directory_entries :: "string \<Rightarrow> (machine, 'e, unit) prog" where
  "forget_cached_directory_entries rel =
     on_engine (\<lambda>en. en\<lparr>directory_entries_cache := forget_listings rel (directory_entries_cache en)\<rparr>)"

section \<open>Queries\<close>

record attr =
  at_ino :: "64 word"
  at_kind :: kind
  at_perm :: perm
  at_size :: nat
  at_nlink :: nat
  at_mtime :: int
  at_atime :: int
  at_ctime :: int
  from_upper :: bool

definition node_size :: "env \<Rightarrow> node \<Rightarrow> nat" where
  "node_size e n =
     (case n of File _ c \<Rightarrow> length c | Link _ t \<Rightarrow> length t | Dir _ _ \<Rightarrow> directory_size e | Special _ \<Rightarrow> 0)"

definition attr_from_stat :: "env \<Rightarrow> node \<Rightarrow> 64 word \<Rightarrow> bool \<Rightarrow> attr" where
  "attr_from_stat e n i upper =
     \<lparr>at_ino = i, at_kind = node_kind n, at_perm = perm (node_meta n), at_size = node_size e n,
      at_nlink = nlink (node_meta n), at_mtime = mtime (node_meta n), at_atime = atime (node_meta n),
      at_ctime = ctime (node_meta n), from_upper = upper\<rparr>"

definition getattr :: "env \<Rightarrow> string \<Rightarrow> attr io" where
  "getattr e path =
     (let rel = normalize_relative path in
      bnd (gets (find_visible_entry_layer rel)) (\<lambda>layer.
      bnd (gets eng) (\<lambda>en.
        case layer of
          Missing \<Rightarrow> fail ENOENT
        | Upper n \<Rightarrow> ret (attr_from_stat e n (workspace_inode_for en n) True)
        | Base n \<Rightarrow> ret (attr_from_stat e n (workspace_inode_for en n) False))))"

definition readdir :: "string \<Rightarrow> dir_entry list io" where
  "readdir path =
     (let rel = normalize_relative path in
      bnd (gets (\<lambda>s. map_of (directory_entries_cache (eng s)) rel)) (\<lambda>cached.
        case cached of
          Some entries \<Rightarrow> ret entries
        | None \<Rightarrow>
            bnd (gets (find_visible_entry_layer rel)) (\<lambda>layer.
              case layer_node layer of
                None \<Rightarrow> fail ENOENT
              | Some n \<Rightarrow>
                  if \<not> is_dir n then fail ENOTDIR
                  else
                    bnd (gets (merge_visible_directory_entries rel)) (\<lambda>merged.
                    bnd (on_engine (\<lambda>en. en\<lparr>directory_entries_cache :=
                            omap_set rel (map snd merged) (directory_entries_cache en)\<rparr>)) (\<lambda>_.
                      ret (map snd merged))))))"

definition readlink :: "string \<Rightarrow> string io" where
  "readlink path =
     bnd (gets (find_visible_entry_layer (normalize_relative path))) (\<lambda>layer.
       case layer_node layer of
         None \<Rightarrow> fail ENOENT
       | Some (Link m t) \<Rightarrow> catch (bnd kernel_call (\<lambda>_. ret t)) (\<lambda>_. fail EIO)
       | Some _ \<Rightarrow> fail EINVAL)"

section \<open>Copy-up\<close>

function parents_of :: "string \<Rightarrow> string list" where
  "parents_of dir = (if dir = [] then [] else dir # parents_of (parent_of dir))"
  by pat_completeness auto
termination
  by (relation "measure length") (auto simp: length_parent_of)

declare parents_of.simps [simp del]

definition create_upper_directory :: "env \<Rightarrow> engine \<Rightarrow> string \<Rightarrow> errno + node \<Rightarrow> unit io" where
  "create_upper_directory e en dir base =
     (case (base_is_visible en dir, base) of
        (True, Inr n) \<Rightarrow>
          if \<not> is_dir n then fail ENOTDIR
          else
            bnd (forget_cached_directory_entries dir) (\<lambda>_.
            bnd (catch (sys_mkdir e (upper_path en dir) (perm (node_meta n)))
                   (\<lambda>err. if err \<noteq> EEXIST then fail err else ret ())) (\<lambda>_.
            catch (sync_parent_directory (upper_path en dir)) (\<lambda>_. fail EIO)))
      | _ \<Rightarrow> fail ENOENT)"

definition copy_up_directory :: "env \<Rightarrow> string \<Rightarrow> unit io" where
  "copy_up_directory e dir =
     bnd (gets (\<lambda>s. (eng s, k_lstat (host s) (upper_path (eng s) dir)))) (\<lambda>(en, upper).
       case upper of
         Inr n \<Rightarrow> if \<not> is_dir n then fail ENOTDIR else ret ()
       | Inl _ \<Rightarrow> bnd (gets (\<lambda>s. k_lstat (host s) (base_path en dir))) (create_upper_directory e en dir))"

definition create_missing_upper_parent_directories :: "env \<Rightarrow> string \<Rightarrow> unit io" where
  "create_missing_upper_parent_directories e rel =
     for_each (rev (parents_of (parent_of rel))) (copy_up_directory e)"

text \<open>
  The recursion ends because each child lies one level deeper in one of the two trees; the first
  argument bounds the depth, and \<open>materialize_visible_entry_at\<close> starts it above the size of the tree.
\<close>

fun materialize :: "nat \<Rightarrow> env \<Rightarrow> string \<Rightarrow> path \<Rightarrow> unit io" where
  "materialize 0 e rel destination = fail (- 1)"
| "materialize (Suc fuel) e rel destination =
     bnd (gets (\<lambda>s. (eng s, find_visible_entry_layer rel s))) (\<lambda>(en, layer).
       case layer_node layer of
         None \<Rightarrow> fail ENOENT
       | Some (Dir m cs) \<Rightarrow>
           bnd (catch (sys_mkdir e destination (perm m))
                  (\<lambda>err. if err \<noteq> EEXIST then fail err else ret ())) (\<lambda>_.
           bnd (gets (merge_visible_directory_entries rel)) (\<lambda>children.
           bnd (for_each (map fst children)
                  (\<lambda>name. materialize fuel e (join_relative rel name) (destination @ [name]))) (\<lambda>_.
           bnd (attempt (sys_utimes destination (atime m) (mtime m))) (\<lambda>_. ret ()))))
       | Some (Link m t) \<Rightarrow> catch (sys_symlink e t destination) (\<lambda>_. fail EIO)
       | Some n \<Rightarrow>
           bnd (catch (fs_copy_file e (layer_path en rel layer) destination False) (\<lambda>_. fail EIO)) (\<lambda>_.
           bnd (sys_chmod destination (perm (node_meta n))) (\<lambda>_.
           sys_utimes destination (atime (node_meta n)) (mtime (node_meta n)))))"

definition materialize_visible_entry_at :: "env \<Rightarrow> string \<Rightarrow> path \<Rightarrow> unit io" where
  "materialize_visible_entry_at e rel destination =
     bnd (gets (\<lambda>s. Suc (size (host s)))) (\<lambda>fuel. materialize fuel e rel destination)"

section \<open>Publication\<close>

text \<open>\<^verbatim>\<open>sync_entry_tree\<close>: a file is flushed, a directory after its entries.\<close>

function (sequential) flush_tree :: "node \<Rightarrow> errno list \<Rightarrow> errno \<times> errno list"
  and flush_entries :: "(string \<times> node) list \<Rightarrow> errno list \<Rightarrow> errno \<times> errno list"
where
  "flush_tree (Dir m cs) fs =
     (case flush_entries cs fs of
        (e, fs') \<Rightarrow>
          if e \<noteq> 0 then (e, fs')
          else (case next_fault fs' of
                  (f, fs'') \<Rightarrow> if f \<noteq> 0 then (f, fs'') else next_fault fs''))"
| "flush_tree (File m c) fs =
     (case next_fault fs of (f, fs') \<Rightarrow> if f \<noteq> 0 then (f, fs') else next_fault fs')"
| "flush_tree n fs = (0, fs)"
| "flush_entries [] fs = (0, fs)"
| "flush_entries ((x, n) # cs) fs =
     (case flush_tree n fs of (e, fs') \<Rightarrow> if e \<noteq> 0 then (e, fs') else flush_entries cs fs')"
  by pat_completeness auto
termination
  by (relation "measure (\<lambda>x. case x of Inl (n, _) \<Rightarrow> size n
        | Inr (cs, _) \<Rightarrow> size_list (size_prod (\<lambda>_. 0) size) cs)") auto

definition sync_entry_tree :: "path \<Rightarrow> unit io" where
  "sync_entry_tree p s =
     (case k_lstat (host s) p of
        Inl e \<Rightarrow> (Err e, s)
      | Inr n \<Rightarrow>
          (case flush_tree n (faults s) of
             (e, fs) \<Rightarrow> (if e \<noteq> 0 then Err e else Ok (), s\<lparr>faults := fs\<rparr>)))"

definition workspace_dir :: "engine \<Rightarrow> path" where
  "workspace_dir en = butlast (upper_dir en)"

definition recovery_dir :: "engine \<Rightarrow> path" where
  "recovery_dir en = workspace_dir en @ [''recovery'']"

definition stage_path :: "engine \<Rightarrow> int \<Rightarrow> path" where
  "stage_path en i = recovery_dir en @ [show_int i]"

definition operation_context :: "engine \<Rightarrow> int \<Rightarrow> string \<Rightarrow> string" where
  "operation_context en i p =
     ''operation='' @ show_int i @ '' workspace='' @ workspace en @ '' path='' @ p"

definition drop_tombstones :: "string \<Rightarrow> string set \<Rightarrow> string set" where
  "drop_tombstones target T = {p \<in> T. \<not> (p = target \<or> prefix (target @ ''/'') p)}"

definition apply_tombstones :: "recovery_operation \<Rightarrow> string set \<Rightarrow> string set" where
  "apply_tombstones op T =
     (let T' = (if add_path_tombstone op then insert (op_path op) T else T)
      in if drop_target_tombstones op then drop_tombstones (op_target op) T' else T')"

text \<open>Every error before the publishing rename removes the stage and the journal record.\<close>

definition abandon_staged :: "env \<Rightarrow> path \<Rightarrow> int \<Rightarrow> errno \<Rightarrow> 'a io" where
  "abandon_staged e stage i fault =
     bnd (attempt (fs_remove_all stage)) (\<lambda>_.
     bnd (attempt (abandon_recovery_operation e i)) (\<lambda>_. fail fault))"

definition inject :: "env \<Rightarrow> string \<Rightarrow> unit io" where
  "inject e boundary =
     (let fault = injected_io_error e boundary in if fault \<noteq> 0 then fail fault else ret ())"

definition prepare_stage ::
  "env \<Rightarrow> engine \<Rightarrow> recovery_operation \<Rightarrow> path \<Rightarrow> (path \<Rightarrow> 'a io) \<Rightarrow> 'a io"
where
  "prepare_stage e en op stage prepare =
     bnd (catch (bnd (catch (fs_create_directories e (recovery_dir en)) (\<lambda>_. fail EIO))
                   (\<lambda>_. sync_parent_directory (recovery_dir en)))
            (\<lambda>err. bnd (attempt (abandon_recovery_operation e (op_id op))) (\<lambda>_. fail err))) (\<lambda>_.
     bnd (catch (prepare stage) (abandon_staged e stage (op_id op))) (\<lambda>a.
     bnd (catch (inject e ''stage.flush'') (abandon_staged e stage (op_id op))) (\<lambda>_.
     bnd (catch (bnd (sync_entry_tree stage)
                   (\<lambda>_. catch (sync_directory (recovery_dir en)) (\<lambda>_. fail EIO)))
            (abandon_staged e stage (op_id op))) (\<lambda>_.
     ret a))))"

definition publish_stage :: "env \<Rightarrow> engine \<Rightarrow> recovery_operation \<Rightarrow> path \<Rightarrow> unit io" where
  "publish_stage e en op stage =
     (let destination =
            upper_path en (if op_kind op = ''rename'' then op_target op else op_path op)
      in
      catch (bnd (inject e ''publish.rename'') (\<lambda>_.
             bnd (inject e ''publish.directory_flush'') (\<lambda>_.
             bnd (inject e ''journal.finish'') (\<lambda>_.
             sys_rename stage destination))))
        (abandon_staged e stage (op_id op)))"

definition remove_rename_source :: "env \<Rightarrow> engine \<Rightarrow> recovery_operation \<Rightarrow> unit io" where
  "remove_rename_source e en op =
     (let source = upper_path en (op_path op) in
      bnd (gets (\<lambda>s. lstat_ok (host s) source)) (\<lambda>source_was_materialized.
      bnd (catch (bnd (fs_remove_all source)
                    (\<lambda>_. if source_was_materialized then sync_parent_directory source else ret ()))
             (\<lambda>_. fail EIO)) (\<lambda>_.
      trigger_failpoint e (op_kind op @ ''.after_source_remove'')
        (operation_context en (op_id op) (op_path op)))))"

definition complete_publication :: "env \<Rightarrow> engine \<Rightarrow> recovery_operation \<Rightarrow> unit io" where
  "complete_publication e en op =
     (let destination =
            upper_path en (if op_kind op = ''rename'' then op_target op else op_path op);
          failpoint = (\<lambda>suffix. trigger_failpoint e (op_kind op @ ''.'' @ suffix)
                                  (operation_context en (op_id op) (op_path op)))
      in
      bnd (failpoint ''after_publish'') (\<lambda>_.
      bnd (catch (sync_parent_directory destination) (\<lambda>_. fail EIO)) (\<lambda>_.
      bnd (if op_kind op = ''rename'' then remove_rename_source e en op else ret ()) (\<lambda>_.
      bnd (catch (finish_recovery_operation e op) (\<lambda>_. fail EIO)) (\<lambda>_.
      bnd (on_engine (\<lambda>en. en\<lparr>tombstones := apply_tombstones op (tombstones en)\<rparr>)) (\<lambda>_.
      bnd (failpoint ''after_metadata_commit'') (\<lambda>_.
      bnd (attempt (fs_remove (recovery_dir en))) (\<lambda>_.
      ret ()))))))))"

text \<open>The result of \<open>prepare\<close> is what the source's closure stores for its caller.\<close>

definition publish_staged_operation ::
  "env \<Rightarrow> recovery_operation \<Rightarrow> (path \<Rightarrow> 'a io) \<Rightarrow> 'a io"
where
  "publish_staged_operation e op0 prepare =
     bnd (inject e ''journal.write'') (\<lambda>_.
     bnd (forget_cached_directory_entries (op_path op0)) (\<lambda>_.
     bnd (if op_kind op0 = ''rename'' then forget_cached_directory_entries (op_target op0) else ret ()) (\<lambda>_.
     bnd (catch (begin_recovery_operation e op0) (\<lambda>_. fail EIO)) (\<lambda>i.
     bnd (gets eng) (\<lambda>en.
       let op = op0\<lparr>op_id := i\<rparr>;
           stage = stage_path en i;
           failpoint = (\<lambda>suffix. trigger_failpoint e (op_kind op @ ''.'' @ suffix)
                                   (operation_context en i (op_path op)))
       in
       bnd (failpoint ''after_journal'') (\<lambda>_.
       bnd (prepare_stage e en op stage prepare) (\<lambda>a.
       bnd (failpoint ''after_stage_flush'') (\<lambda>_.
       bnd (catch (inject e ''journal.phase'') (abandon_staged e stage i)) (\<lambda>_.
       bnd (catch (set_recovery_operation_phase e i Publishing) (\<lambda>_. abandon_staged e stage i EIO)) (\<lambda>_.
       bnd (failpoint ''before_publish'') (\<lambda>_.
       bnd (publish_stage e en op stage) (\<lambda>_.
       bnd (complete_publication e en (op\<lparr>op_phase := Publishing\<rparr>)) (\<lambda>_.
       ret a)))))))))))))"

definition remove_from_upper :: "env \<Rightarrow> int \<Rightarrow> path \<Rightarrow> bool \<Rightarrow> unit io" where
  "remove_from_upper e i upper directory =
     bnd (gets (\<lambda>s. lstat_ok (host s) upper)) (\<lambda>exists.
       if exists
       then bnd (catch (if directory then fs_remove_all upper else fs_remove upper)
                   (\<lambda>_. bnd (attempt (abandon_recovery_operation e i)) (\<lambda>_. fail EIO))) (\<lambda>_.
            catch (sync_parent_directory upper) (\<lambda>_. fail EIO))
       else ret ())"

definition remove_journaled_entry :: "env \<Rightarrow> engine \<Rightarrow> recovery_operation \<Rightarrow> bool \<Rightarrow> unit io" where
  "remove_journaled_entry e en op directory =
     (let i = op_id op;
          failpoint = (\<lambda>suffix. trigger_failpoint e (op_kind op @ ''.'' @ suffix)
                                  (operation_context en i (op_path op)))
      in
      bnd (failpoint ''after_journal'') (\<lambda>_.
      bnd (catch (set_recovery_operation_phase e i Publishing)
             (\<lambda>_. bnd (attempt (abandon_recovery_operation e i)) (\<lambda>_. fail EIO))) (\<lambda>_.
      bnd (failpoint ''before_upper_remove'') (\<lambda>_.
      bnd (remove_from_upper e i (upper_path en (op_path op)) directory) (\<lambda>_.
      bnd (failpoint ''after_upper_remove'') (\<lambda>_.
      bnd (catch (finish_recovery_operation e (op\<lparr>op_phase := Publishing\<rparr>)) (\<lambda>_. fail EIO)) (\<lambda>_.
      bnd (if add_path_tombstone op
           then on_engine (\<lambda>en. en\<lparr>tombstones := insert (op_path op) (tombstones en)\<rparr>) else ret ()) (\<lambda>_.
      failpoint ''after_metadata_commit''))))))))"

definition remove_visible_entry_atomically :: "env \<Rightarrow> string \<Rightarrow> string \<Rightarrow> bool \<Rightarrow> unit io" where
  "remove_visible_entry_atomically e op_name rel directory =
     bnd (gets (\<lambda>s. base_is_visible (eng s) rel \<and> lstat_ok (host s) (base_path (eng s) rel))) (\<lambda>hides_base.
     bnd (forget_cached_directory_entries rel) (\<lambda>_.
     bnd (gets eng) (\<lambda>en.
     let op = \<lparr>op_id = 0, op_workspace = workspace en, op_kind = op_name, op_path = rel,
               op_target = [], op_phase = Prepared, add_path_tombstone = hides_base,
               drop_target_tombstones = False\<rparr>
     in
     bnd (catch (begin_recovery_operation e op) (\<lambda>_. fail EIO)) (\<lambda>i.
     remove_journaled_entry e en (op\<lparr>op_id := i\<rparr>) directory))))"

section \<open>Open files\<close>

definition O_ACCMODE :: "32 word" where "O_ACCMODE = 3"
definition O_RDONLY :: "32 word" where "O_RDONLY = 0"
definition O_WRONLY :: "32 word" where "O_WRONLY = 1"
definition O_RDWR :: "32 word" where "O_RDWR = 2"
definition O_CREAT :: "32 word" where "O_CREAT = 64"
definition O_EXCL :: "32 word" where "O_EXCL = 128"
definition O_TRUNC :: "32 word" where "O_TRUNC = 512"
definition O_APPEND :: "32 word" where "O_APPEND = 1024"

definition staged_operation :: "engine \<Rightarrow> string \<Rightarrow> string \<Rightarrow> recovery_operation" where
  "staged_operation en op_name rel =
     \<lparr>op_id = 0, op_workspace = workspace en, op_kind = op_name, op_path = rel, op_target = [],
      op_phase = Prepared, add_path_tombstone = False, drop_target_tombstones = False\<rparr>"

text \<open>\<^verbatim>\<open>open(path, flags)\<close> without \<^verbatim>\<open>O_CREAT\<close>, \<^verbatim>\<open>O_EXCL\<close> and \<^verbatim>\<open>O_TRUNC\<close>.\<close>

definition sys_open :: "path \<Rightarrow> 32 word \<Rightarrow> node io" where
  "sys_open p flags =
     bnd kernel_call (\<lambda>_.
     bnd (from_host (\<lambda>r. k_stat r p)) (\<lambda>n.
       if is_dir n \<and> flags AND O_ACCMODE \<noteq> O_RDONLY then fail EISDIR else ret n))"

definition sys_truncate :: "path \<Rightarrow> 64 word \<Rightarrow> unit io" where
  "sys_truncate p new_size =
     (if sint new_size < 0 then fail EINVAL
      else sys_edit p (\<lambda>c. take (unat new_size) c @ replicate (unat new_size - length c) (CHR 0x00)))"

definition open_handle :: "string \<Rightarrow> 32 word \<Rightarrow> env \<Rightarrow> int io" where
  "open_handle path flags e =
     (let rel = normalize_relative path;
          for_writing = (flags AND (O_WRONLY OR O_RDWR OR O_APPEND OR O_TRUNC OR O_CREAT) \<noteq> 0)
      in
      if rel = [] then fail EISDIR
      else
        bnd (gets (\<lambda>s. (eng s, find_visible_entry_layer rel s))) (\<lambda>(en, layer).
        bnd (case layer_node layer of
               None \<Rightarrow>
                 if flags AND O_CREAT = 0 then fail ENOENT
                 else
                   bnd (create_missing_upper_parent_directories e rel) (\<lambda>_.
                   bnd (publish_staged_operation e (staged_operation en ''create'' rel)
                          (\<lambda>stage. sys_create_file e stage 0x1A4)) (\<lambda>_.
                   ret True))
             | Some n \<Rightarrow>
                 if is_dir n then fail EISDIR
                 else if flags AND O_CREAT \<noteq> 0 \<and> flags AND O_EXCL \<noteq> 0 then fail EEXIST
                 else ret (case layer of Upper _ \<Rightarrow> True | _ \<Rightarrow> False)) (\<lambda>in_upper.
        bnd (if for_writing \<and> flags AND O_TRUNC \<noteq> 0
             then
               bnd (create_missing_upper_parent_directories e rel) (\<lambda>_.
               bnd (publish_staged_operation e (staged_operation en ''truncate'' rel)
                      (\<lambda>stage. bnd (materialize_visible_entry_at e rel stage)
                                 (\<lambda>_. sys_truncate stage 0))) (\<lambda>_.
               ret True))
             else ret in_upper) (\<lambda>in_upper.
        let kept_flags = flags AND NOT (O_CREAT OR O_EXCL OR O_TRUNC);
            fd_flags = (if \<not> in_upper \<and> for_writing then O_RDONLY else kept_flags);
            fd_path = (if in_upper then upper_path en rel else base_path en rel)
        in
        bnd (sys_open fd_path fd_flags) (\<lambda>n.
        bnd (gets (\<lambda>s. next_handle (eng s))) (\<lambda>handle.
        bnd (on_engine (\<lambda>en.
               en\<lparr>next_handle := handle + 1,
                  handles := omap_set handle
                    \<lparr>backing = Some n, backing_flags = fd_flags, handle_flags = flags, relative = rel\<rparr>
                    (handles en)\<rparr>)) (\<lambda>_.
        ret handle)))))))"

definition read_handle :: "int \<Rightarrow> nat \<Rightarrow> 64 word \<Rightarrow> string io" where
  "read_handle fd count offset =
     bnd (gets (\<lambda>s. map_of (handles (eng s)) fd)) (\<lambda>found.
       case found of
         None \<Rightarrow> fail EBADF
       | Some h \<Rightarrow>
           (case backing h of
              None \<Rightarrow> fail EBADF
            | Some n \<Rightarrow>
                if backing_flags h AND O_ACCMODE = O_WRONLY then fail EBADF
                else if sint offset < 0 then fail EINVAL
                else
                  bnd kernel_call (\<lambda>_.
                    case n of
                      File m c \<Rightarrow> ret (take count (drop (unat offset) c))
                    | Dir _ _ \<Rightarrow> fail EISDIR
                    | _ \<Rightarrow> fail EINVAL)))"

definition pwrite_bytes :: "nat \<Rightarrow> string \<Rightarrow> string \<Rightarrow> string" where
  "pwrite_bytes offset data c =
     (if data = [] then c
      else take offset c @ replicate (offset - length c) (CHR 0x00) @ data @
             drop (offset + length data) c)"

definition sys_pwrite :: "path \<Rightarrow> string \<Rightarrow> 64 word \<Rightarrow> nat io" where
  "sys_pwrite p data offset =
     bnd (sys_open p O_WRONLY) (\<lambda>_.
       if sint offset < 0 then fail EINVAL
       else bnd (sys_edit p (pwrite_bytes (unat offset) data)) (\<lambda>_. ret (length data)))"

definition write_handle :: "env \<Rightarrow> int \<Rightarrow> string \<Rightarrow> 64 word \<Rightarrow> nat io" where
  "write_handle e fd buffer offset =
     bnd (gets (\<lambda>s. (eng s, map_of (handles (eng s)) fd))) (\<lambda>(en, found).
       case found of
         None \<Rightarrow> fail EBADF
       | Some h \<Rightarrow>
           if handle_flags h AND O_ACCMODE = O_RDONLY then fail EBADF
           else
             let rel = relative h in
             bnd (create_missing_upper_parent_directories e rel) (\<lambda>_.
             bnd (publish_staged_operation e (staged_operation en ''write'' rel)
                    (\<lambda>stage. bnd (materialize_visible_entry_at e rel stage)
                       (\<lambda>_. sys_pwrite stage
                              (take (injected_short_write_size e (length buffer)) buffer) offset))) (\<lambda>accepted.
             let reopen_flags = handle_flags h AND NOT (O_CREAT OR O_EXCL OR O_TRUNC);
                 reopened = (\<lambda>fd_node. on_engine (\<lambda>en.
                   en\<lparr>handles := omap_set fd (h\<lparr>backing := fd_node, backing_flags := reopen_flags\<rparr>)
                        (handles en)\<rparr>))
             in
             bnd (catch (bnd (sys_open (upper_path en rel) reopen_flags) (\<lambda>n. reopened (Some n)))
                    (\<lambda>err. bnd (reopened None) (\<lambda>_. fail err))) (\<lambda>_.
             ret accepted))))"

definition fsync_handle :: "int \<Rightarrow> unit io" where
  "fsync_handle fd =
     bnd (gets (\<lambda>s. (eng s, map_of (handles (eng s)) fd))) (\<lambda>(en, found).
       case found of
         None \<Rightarrow> fail EBADF
       | Some h \<Rightarrow>
           bnd (if backing h = None then fail EBADF else kernel_call) (\<lambda>_.
           bnd (gets (\<lambda>s. lstat_ok (host s) (upper_path en (relative h)))) (\<lambda>in_upper.
           if in_upper then catch (sync_parent_directory (upper_path en (relative h))) (\<lambda>_. fail EIO)
           else ret ())))"

definition fsync_path :: "string \<Rightarrow> bool \<Rightarrow> unit io" where
  "fsync_path path directory =
     (let rel = normalize_relative path in
      bnd (gets (\<lambda>s. (eng s, find_visible_entry_layer rel s))) (\<lambda>(en, layer).
        case layer_node layer of
          None \<Rightarrow> fail ENOENT
        | Some n \<Rightarrow>
            if directory \<noteq> is_dir n then fail (if directory then ENOTDIR else EISDIR)
            else
              let visible_path = layer_path en rel layer in
              bnd (if directory then sync_directory visible_path else sync_file_data visible_path) (\<lambda>_.
              case layer of
                Upper _ \<Rightarrow> catch (sync_parent_directory visible_path) (\<lambda>_. fail EIO)
              | _ \<Rightarrow> ret ())))"

definition close_handle :: "int \<Rightarrow> unit io" where
  "close_handle fd = on_engine (\<lambda>en. en\<lparr>handles := erase_key fd (handles en)\<rparr>)"

definition read_file :: "env \<Rightarrow> string \<Rightarrow> nat \<Rightarrow> 64 word \<Rightarrow> string io" where
  "read_file e path count offset =
     bnd (open_handle path O_RDONLY e) (\<lambda>fd.
     bnd (attempt (read_handle fd count offset)) (\<lambda>n.
     bnd (close_handle fd) (\<lambda>_.
       case n of Inl err \<Rightarrow> fail err | Inr buffer \<Rightarrow> ret buffer)))"

definition write_file :: "env \<Rightarrow> string \<Rightarrow> string \<Rightarrow> 64 word \<Rightarrow> nat io" where
  "write_file e path data offset =
     bnd (open_handle path (O_RDWR OR O_CREAT) e) (\<lambda>fd.
     bnd (attempt (write_handle e fd data offset)) (\<lambda>written.
     bnd (close_handle fd) (\<lambda>_.
       case written of Inl err \<Rightarrow> fail err | Inr n \<Rightarrow> ret n)))"

section \<open>Mutations\<close>

definition create :: "env \<Rightarrow> string \<Rightarrow> perm \<Rightarrow> unit io" where
  "create e path mode =
     (let rel = normalize_relative path in
      if rel = [] then fail EEXIST
      else
        bnd (gets (\<lambda>s. (eng s, find_visible_entry_layer rel s))) (\<lambda>(en, layer).
        if layer \<noteq> Missing then fail EEXIST
        else
          bnd (create_missing_upper_parent_directories e rel) (\<lambda>_.
          publish_staged_operation e (staged_operation en ''create'' rel)
            (\<lambda>stage. sys_create_file e stage mode))))"

definition mkdir :: "env \<Rightarrow> string \<Rightarrow> perm \<Rightarrow> unit io" where
  "mkdir e path mode =
     (let rel = normalize_relative path in
      if rel = [] then fail EEXIST
      else
        bnd (gets (\<lambda>s. (eng s, find_visible_entry_layer rel s))) (\<lambda>(en, layer).
        if layer \<noteq> Missing then fail EEXIST
        else
          bnd (create_missing_upper_parent_directories e rel) (\<lambda>_.
          publish_staged_operation e (staged_operation en ''mkdir'' rel)
            (\<lambda>stage. sys_mkdir e stage mode))))"

definition unlink :: "env \<Rightarrow> string \<Rightarrow> unit io" where
  "unlink e path =
     (let rel = normalize_relative path in
      if rel = [] then fail EISDIR
      else
        bnd (gets (find_visible_entry_layer rel)) (\<lambda>layer.
          case layer_node layer of
            None \<Rightarrow> fail ENOENT
          | Some n \<Rightarrow>
              if is_dir n then fail EISDIR
              else remove_visible_entry_atomically e ''unlink'' rel False))"

definition rmdir :: "env \<Rightarrow> string \<Rightarrow> unit io" where
  "rmdir e path =
     (let rel = normalize_relative path in
      if rel = [] then fail EBUSY
      else
        bnd (gets (find_visible_entry_layer rel)) (\<lambda>layer.
          case layer_node layer of
            None \<Rightarrow> fail ENOENT
          | Some n \<Rightarrow>
              if \<not> is_dir n then fail ENOTDIR
              else
                bnd (gets (merge_visible_directory_entries rel)) (\<lambda>children.
                if children \<noteq> [] then fail ENOTEMPTY
                else remove_visible_entry_atomically e ''rmdir'' rel True)))"

definition check_rename_target :: "node \<Rightarrow> string \<Rightarrow> unit io" where
  "check_rename_target source to =
     bnd (gets (find_visible_entry_layer to)) (\<lambda>layer.
       case layer_node layer of
         None \<Rightarrow> ret ()
       | Some dest \<Rightarrow>
           if is_dir source \<and> \<not> is_dir dest then fail ENOTDIR
           else if \<not> is_dir source \<and> is_dir dest then fail EISDIR
           else if is_dir dest
           then bnd (gets (merge_visible_directory_entries to))
                  (\<lambda>children. if children \<noteq> [] then fail ENOTEMPTY else ret ())
           else ret ())"

definition rename :: "env \<Rightarrow> string \<Rightarrow> string \<Rightarrow> unit io" where
  "rename e from_path to_path =
     (let from = normalize_relative from_path; to = normalize_relative to_path in
      if from = [] \<or> to = [] then fail EBUSY
      else if from = to then ret ()
      else if prefix (from @ ''/'') to then fail EINVAL
      else
        bnd (gets (find_visible_entry_layer from)) (\<lambda>layer.
          case layer_node layer of
            None \<Rightarrow> fail ENOENT
          | Some source \<Rightarrow>
              bnd (check_rename_target source to) (\<lambda>_.
              bnd (create_missing_upper_parent_directories e to) (\<lambda>_.
              bnd (gets (\<lambda>s. (eng s,
                     base_is_visible (eng s) from \<and> lstat_ok (host s) (base_path (eng s) from)))) (\<lambda>(en, hides_base).
              publish_staged_operation e
                ((staged_operation en ''rename'' from)\<lparr>op_target := to, add_path_tombstone := hides_base,
                    drop_target_tombstones := True\<rparr>)
                (\<lambda>stage. materialize_visible_entry_at e from stage))))))"

definition symlink :: "env \<Rightarrow> string \<Rightarrow> string \<Rightarrow> unit io" where
  "symlink e target link_path =
     (let rel = normalize_relative link_path in
      if rel = [] then fail EEXIST
      else
        bnd (gets (\<lambda>s. (eng s, find_visible_entry_layer rel s))) (\<lambda>(en, layer).
        if layer \<noteq> Missing then fail EEXIST
        else
          bnd (create_missing_upper_parent_directories e rel) (\<lambda>_.
          publish_staged_operation e (staged_operation en ''symlink'' rel)
            (\<lambda>stage. sys_symlink e target stage))))"

definition chmod :: "env \<Rightarrow> string \<Rightarrow> perm \<Rightarrow> unit io" where
  "chmod e path mode =
     (let rel = normalize_relative path in
      bnd (gets (\<lambda>s. (eng s, find_visible_entry_layer rel s))) (\<lambda>(en, layer).
      if layer = Missing then fail ENOENT
      else
        bnd (create_missing_upper_parent_directories e rel) (\<lambda>_.
        publish_staged_operation e (staged_operation en ''chmod'' rel)
          (\<lambda>stage. bnd (materialize_visible_entry_at e rel stage) (\<lambda>_. sys_chmod stage mode)))))"

definition truncate :: "env \<Rightarrow> string \<Rightarrow> 64 word \<Rightarrow> unit io" where
  "truncate e path new_size =
     (let rel = normalize_relative path in
      bnd (gets (\<lambda>s. (eng s, find_visible_entry_layer rel s))) (\<lambda>(en, layer).
        case layer_node layer of
          None \<Rightarrow> fail ENOENT
        | Some n \<Rightarrow>
            if is_dir n then fail EISDIR
            else
              bnd (create_missing_upper_parent_directories e rel) (\<lambda>_.
              publish_staged_operation e (staged_operation en ''truncate'' rel)
                (\<lambda>stage. bnd (materialize_visible_entry_at e rel stage)
                           (\<lambda>_. sys_truncate stage new_size)))))"

definition utimens :: "env \<Rightarrow> string \<Rightarrow> int \<Rightarrow> int \<Rightarrow> unit io" where
  "utimens e path new_atime new_mtime =
     (let rel = normalize_relative path in
      bnd (gets (\<lambda>s. (eng s, find_visible_entry_layer rel s))) (\<lambda>(en, layer).
      if layer = Missing then fail ENOENT
      else
        bnd (create_missing_upper_parent_directories e rel) (\<lambda>_.
        publish_staged_operation e (staged_operation en ''utimens'' rel)
          (\<lambda>stage. bnd (materialize_visible_entry_at e rel stage)
                     (\<lambda>_. sys_utimes stage new_atime new_mtime)))))"

section \<open>Space\<close>

text \<open>All entries below a directory, links not followed; a failing step of the iterator ends the loop.\<close>

function (sequential) tree_blocks :: "env \<Rightarrow> node \<Rightarrow> errno list \<Rightarrow> errno \<times> 64 word \<times> errno list"
  and entries_blocks ::
    "env \<Rightarrow> (string \<times> node) list \<Rightarrow> errno list \<Rightarrow> errno \<times> 64 word \<times> errno list"
where
  "tree_blocks e (Dir m cs) fs =
     (case next_fault fs of (f, fs') \<Rightarrow> if f \<noteq> 0 then (f, 0, fs') else entries_blocks e cs fs')"
| "tree_blocks e n fs = (0, 0, fs)"
| "entries_blocks e [] fs = (0, 0, fs)"
| "entries_blocks e ((x, n) # cs) fs =
     (let own = word_of_nat (allocated_blocks e n) * 512 in
      case tree_blocks e n fs of
        (f, below, fs') \<Rightarrow>
          if f \<noteq> 0 then (f, own + below, fs')
          else (case entries_blocks e cs fs' of (f', rest, fs'') \<Rightarrow> (f', own + below + rest, fs'')))"
  by pat_completeness auto
termination
  by (relation "measure (\<lambda>x. case x of Inl (_, n, _) \<Rightarrow> size n
        | Inr (_, cs, _) \<Rightarrow> size_list (size_prod (\<lambda>_. 0) size) cs)") auto

definition upper_bytes :: "env \<Rightarrow> (machine, 'e, 64 word) prog" where
  "upper_bytes e s =
     (case k_stat (host s) (upper_dir (eng s)) of
        Inl _ \<Rightarrow> (Ok 0, s)
      | Inr n \<Rightarrow>
          (case tree_blocks e n (faults s) of (_, all, fs) \<Rightarrow> (Ok all, s\<lparr>faults := fs\<rparr>)))"

section \<open>Construction\<close>

definition new_engine :: "env \<Rightarrow> string \<Rightarrow> path \<Rightarrow> path \<Rightarrow> (machine, 'e, engine) prog" where
  "new_engine e ws base upper =
     bnd (load_workspace_tombstones e ws) (\<lambda>paths.
     ret \<lparr>workspace = ws, inode_salt = workspace_inode_salt ws, base_dir = base, upper_dir = upper,
          tombstones = set paths, directory_entries_cache = [], handles = [], next_handle = 1\<rparr>)"

end
