(* ===== verification/Overlay.thy ===== *)
theory Overlay
  imports Workspace_Engine
begin

text \<open>
  What a Workspace shows: the abstract view of the two layers and the tombstones, the layout the
  view depends on, and the lookup of the code as a lookup in the view. A path of the view is a list
  of components; the strings of the code are its normal forms.
\<close>

section \<open>The host file system outside some subtrees\<close>

definition outside :: "path set \<Rightarrow> node \<Rightarrow> node \<Rightarrow> bool" where
  "outside S h h' \<longleftrightarrow> (\<forall>q. (\<forall>r \<in> S. \<not> prefix r q) \<longrightarrow> same_entry (get h q) (get h' q))"

lemma same_entry_cases:
  assumes "same_entry a b"
  obtains "a = None" "b = None"
  | m cs cs' where "a = Some (Dir m cs)" "b = Some (Dir m cs')"
  | n where "a = Some n" "b = Some n" "\<not> is_dir n"
proof (cases a; cases b)
  fix x y assume "a = Some x" "b = Some y"
  with assms that show thesis by (cases x; cases y) (auto simp: same_entry_def)
qed (use assms that in \<open>auto simp: same_entry_def split: node.splits\<close>)

lemma same_entry_trans: "same_entry a b \<Longrightarrow> same_entry b c \<Longrightarrow> same_entry a c"
  by (erule same_entry_cases; erule same_entry_cases) (auto simp: same_entry_def)

lemma outside_refl [simp]: "outside S h h"
  by (simp add: outside_def)

lemma outside_trans: "outside S h h' \<Longrightarrow> outside S h' h'' \<Longrightarrow> outside S h h''"
  unfolding outside_def using same_entry_trans by blast

lemma outside_mono: "outside S h h' \<Longrightarrow> S \<subseteq> S' \<Longrightarrow> outside S' h h'"
  unfolding outside_def by blast

lemma outside_put: "outside S h h' \<Longrightarrow> r \<in> S \<Longrightarrow> prefix r q \<Longrightarrow> outside S h (put h' q v)"
  unfolding outside_def using same_entry_trans same_entry_put prefix_order.trans by meson

lemma same_entry_dir: "same_entry (get h q) (get h' q) \<Longrightarrow> dir_at h' q = dir_at h q"
  by (erule same_entry_cases) (auto simp: dir_at_def)

lemma same_entry_link:
  "same_entry a b \<Longrightarrow>
   (case b of Some n \<Rightarrow> \<not> is_link n | None \<Rightarrow> True) = (case a of Some n \<Rightarrow> \<not> is_link n | None \<Rightarrow> True)"
  by (erule same_entry_cases) auto

lemma same_entry_none: "same_entry a b \<Longrightarrow> b = None \<longleftrightarrow> a = None"
  by (erule same_entry_cases) auto

lemma outside_dir: "outside S h h' \<Longrightarrow> (\<And>r. r \<in> S \<Longrightarrow> \<not> prefix r q) \<Longrightarrow> dir_at h' q = dir_at h q"
  unfolding outside_def by (rule same_entry_dir) blast

lemma outside_same: "outside S h h' \<Longrightarrow> (\<And>r. r \<in> S \<Longrightarrow> \<not> prefix r q) \<Longrightarrow> same_entry (get h q) (get h' q)"
  unfolding outside_def by blast

section \<open>The view\<close>

datatype entry = VFile perm string | VLink string | VDir perm | VSpecial

definition abstr :: "node \<Rightarrow> entry" where
  "abstr n =
     (case n of File m c \<Rightarrow> VFile (perm m) c | Link m t \<Rightarrow> VLink t | Dir m cs \<Rightarrow> VDir (perm m)
      | Special m \<Rightarrow> VSpecial)"

lemma abstr_simps [simp]:
  "abstr (File m c) = VFile (perm m) c"
  "abstr (Link m t) = VLink t"
  "abstr (Dir m cs) = VDir (perm m)"
  "abstr (Special m) = VSpecial"
  by (simp_all add: abstr_def)

lemma same_entry_abstr: "same_entry a b \<Longrightarrow> map_option abstr a = map_option abstr b"
  by (erule same_entry_cases) auto

definition hid :: "string set \<Rightarrow> path \<Rightarrow> bool" where
  "hid T p \<longleftrightarrow> (\<exists>q. q \<noteq> [] \<and> prefix q p \<and> unsegs q \<in> T)"

definition vis :: "engine \<Rightarrow> node \<Rightarrow> path \<Rightarrow> entry option" where
  "vis en h p =
     (case get h (upper_dir en @ p) of
        Some n \<Rightarrow> Some (abstr n)
      | None \<Rightarrow> if hid (tombstones en) p then None else map_option abstr (get h (base_dir en @ p)))"

lemma hid_Nil [simp]: "\<not> hid T []"
  by (simp add: hid_def)

lemma hid_snoc: "hid T (p @ [x]) \<longleftrightarrow> unsegs (p @ [x]) \<in> T \<or> hid T p"
  by (auto simp: hid_def)

lemma hid_mono: "hid T p \<Longrightarrow> prefix p q \<Longrightarrow> hid T q"
  unfolding hid_def using prefix_order.trans by blast

lemma hidden_by_tombstone_hid: "clean p \<Longrightarrow> hidden_by_tombstone T (unsegs p) = hid T p"
proof (induction p rule: rev_induct)
  case (snoc x p)
  then have "unsegs (p @ [x]) \<noteq> []" "parent_of (unsegs (p @ [x])) = unsegs p"
    by (auto simp: parent_of_unsegs)
  with snoc show ?case
    by (subst hidden_by_tombstone.simps) (auto simp: hid_snoc)
qed (simp add: hidden_by_tombstone.simps)

section \<open>Layout\<close>

text \<open>
  The storage of a Workspace is a directory with the upper tree and, while something is staged,
  \<^verbatim>\<open>recovery\<close> in it; the Base tree lies elsewhere.
\<close>

definition layout :: "engine \<Rightarrow> node \<Rightarrow> bool" where
  "layout en h \<longleftrightarrow>
     clean (upper_dir en) \<and> upper_dir en \<noteq> [] \<and> last (upper_dir en) = ''upper'' \<and> clean (base_dir en) \<and>
     dir_at h (upper_dir en) \<and> dir_at h (base_dir en) \<and>
     \<not> prefix (workspace_dir en) (base_dir en) \<and> \<not> prefix (base_dir en) (workspace_dir en) \<and>
     (get h (recovery_dir en) = None \<or> dir_at h (recovery_dir en))"

lemma layout_upper: "layout en h \<Longrightarrow> upper_dir en = workspace_dir en @ [''upper'']"
  unfolding layout_def workspace_dir_def by (metis append_butlast_last_id)

lemma layout_clean:
  assumes "layout en h"
  shows "clean (upper_dir en)" "clean (base_dir en)" "clean (workspace_dir en)" "clean (recovery_dir en)"
  using assms
  by (auto simp: layout_def workspace_dir_def recovery_dir_def clean_segment_def)

lemma layout_dirs:
  assumes "layout en h"
  shows "dir_at h (upper_dir en)" "dir_at h (base_dir en)" "dir_at h (workspace_dir en)" "is_dir h"
proof -
  show "dir_at h (upper_dir en)" "dir_at h (base_dir en)" using assms by (auto simp: layout_def)
  then show "dir_at h (workspace_dir en)"
    using layout_upper [OF assms] dir_at_append_prefix by metis
  then have "dir_at h ([] @ workspace_dir en)" by simp
  then have "dir_at h []" by (rule dir_at_append_prefix)
  then show "is_dir h" by (simp add: dir_at_def)
qed

text \<open>The trees lie apart: nothing under one is under another.\<close>

lemma prefix_common: "prefix a q \<Longrightarrow> prefix b q \<Longrightarrow> prefix a b \<or> prefix b a"
  by (metis prefix_same_cases)

lemma layout_apart:
  assumes "layout en h"
  shows "\<not> prefix (recovery_dir en) (upper_dir en @ p)" "\<not> prefix (upper_dir en) (recovery_dir en @ p)"
    "\<not> prefix (recovery_dir en) (base_dir en @ p)" "\<not> prefix (upper_dir en) (base_dir en @ p)"
    "\<not> prefix (base_dir en) (upper_dir en @ p)" "\<not> prefix (base_dir en) (recovery_dir en @ p)"
proof -
  note u = layout_upper [OF assms]
  show "\<not> prefix (recovery_dir en) (upper_dir en @ p)" "\<not> prefix (upper_dir en) (recovery_dir en @ p)"
    by (auto simp: u recovery_dir_def)
  have apart: "\<not> prefix (workspace_dir en @ x) (base_dir en @ p)"
      "\<not> prefix (base_dir en) (workspace_dir en @ x)" for x p
    using assms prefix_common [of "workspace_dir en" "base_dir en @ p" "base_dir en"]
      prefix_common [of "workspace_dir en" "workspace_dir en @ x" "base_dir en"]
    by (auto simp: layout_def dest: append_prefixD)
  show "\<not> prefix (recovery_dir en) (base_dir en @ p)" "\<not> prefix (upper_dir en) (base_dir en @ p)"
    "\<not> prefix (base_dir en) (upper_dir en @ p)" "\<not> prefix (base_dir en) (recovery_dir en @ p)"
    using apart by (auto simp: u recovery_dir_def)
qed

text \<open>
  No component above \<open>p\<close> is a symbolic link in a layer that is looked at. The kernel resolves the
  links of a mounted view before it calls the daemon, so every path it passes is plain.
\<close>

definition no_link :: "node option \<Rightarrow> bool" where
  "no_link x \<longleftrightarrow> (case x of Some n \<Rightarrow> \<not> is_link n | None \<Rightarrow> True)"

definition plain :: "engine \<Rightarrow> node \<Rightarrow> path \<Rightarrow> bool" where
  "plain en h p \<longleftrightarrow>
     (\<forall>q. strict_prefix q p \<longrightarrow> no_link (get h (upper_dir en @ q)) \<and>
            (\<not> hid (tombstones en) p \<longrightarrow> no_link (get h (base_dir en @ q))))"

lemma direct_under:
  assumes "dir_at h d" "\<And>q. strict_prefix q p \<Longrightarrow> no_link (get h (d @ q))"
  shows "direct h (d @ p)"
  unfolding direct_def
proof (intro allI impI)
  fix q assume q: "strict_prefix q (d @ p)"
  then have "prefix q d \<or> prefix d q"
    using prefix_common [of q "d @ p" d] by (auto simp: strict_prefix_def)
  then show "case get h q of Some n \<Rightarrow> \<not> is_link n | None \<Rightarrow> True"
  proof
    assume "prefix q d"
    then obtain r where "d = q @ r" by (auto simp: prefix_def)
    with assms(1) have "dir_at h q" using dir_at_append_prefix by blast
    then show ?thesis by (auto elim: dir_atE)
  next
    assume "prefix d q"
    then obtain r where r: "q = d @ r" by (auto simp: prefix_def)
    with q have "strict_prefix r p" by (auto simp: strict_prefix_def)
    with assms(2) r show ?thesis by (simp add: no_link_def)
  qed
qed

lemma direct_upper: "layout en h \<Longrightarrow> plain en h p \<Longrightarrow> direct h (upper_dir en @ p)"
  using layout_dirs by (intro direct_under) (auto simp: plain_def)

lemma direct_base: "layout en h \<Longrightarrow> plain en h p \<Longrightarrow> \<not> hid (tombstones en) p \<Longrightarrow> direct h (base_dir en @ p)"
  using layout_dirs by (intro direct_under) (auto simp: plain_def)

section \<open>Lookup\<close>

lemma lookup_upper:
  assumes "layout en h" "plain en h p" "clean p"
  shows "k_lstat h (upper_dir en @ p) = Inr n \<longleftrightarrow> get h (upper_dir en @ p) = Some n"
    and "lstat_ok h (upper_dir en @ p) \<longleftrightarrow> get h (upper_dir en @ p) \<noteq> None"
  using k_lstat_direct lstat_ok_direct direct_upper [OF assms(1,2)] layout_clean [OF assms(1)]
    layout_dirs [OF assms(1)] assms(3) by auto

lemma lookup_base:
  assumes "layout en h" "plain en h p" "clean p" "\<not> hid (tombstones en) p"
  shows "k_lstat h (base_dir en @ p) = Inr n \<longleftrightarrow> get h (base_dir en @ p) = Some n"
    and "lstat_ok h (base_dir en @ p) \<longleftrightarrow> get h (base_dir en @ p) \<noteq> None"
  using k_lstat_direct lstat_ok_direct direct_base [OF assms(1,2,4)] layout_clean [OF assms(1)]
    layout_dirs [OF assms(1)] assms(3) by auto

definition layer_at :: "engine \<Rightarrow> node \<Rightarrow> path \<Rightarrow> layer" where
  "layer_at en h p =
     (case get h (upper_dir en @ p) of
        Some n \<Rightarrow> Upper n
      | None \<Rightarrow>
          if hid (tombstones en) p then Missing
          else (case get h (base_dir en @ p) of Some n \<Rightarrow> Base n | None \<Rightarrow> Missing))"

lemma layer_at_vis: "map_option abstr (layer_node (layer_at en h p)) = vis en h p"
  by (auto simp: layer_at_def vis_def split: option.splits)

lemma vis_None: "vis en h p = None \<longleftrightarrow> layer_at en h p = Missing"
  by (auto simp: layer_at_def vis_def split: option.splits)

lemma find_layer:
  assumes "layout (eng s) (host s)" "plain (eng s) (host s) p" "clean p"
  shows "find_visible_entry_layer (unsegs p) s = layer_at (eng s) (host s) p"
proof (cases "get (host s) (upper_dir (eng s) @ p)")
  case (Some n)
  then have "k_lstat (host s) (upper_path (eng s) (unsegs p)) = Inr n"
    using lookup_upper [OF assms] assms(3) by (simp add: upper_path_def)
  with Some show ?thesis by (simp add: find_visible_entry_layer_def layer_at_def)
next
  case None
  then obtain x where u: "k_lstat (host s) (upper_path (eng s) (unsegs p)) = Inl x"
    using lookup_upper [OF assms] assms(3)
    by (cases "k_lstat (host s) (upper_path (eng s) (unsegs p))") (auto simp: upper_path_def)
  have hid: "base_is_visible (eng s) (unsegs p) = (\<not> hid (tombstones (eng s)) p)"
    using assms(3) by (simp add: base_is_visible_def hidden_by_tombstone_hid)
  show ?thesis
  proof (cases "hid (tombstones (eng s)) p")
    case True
    with None u hid show ?thesis by (simp add: find_visible_entry_layer_def layer_at_def)
  next
    case False
    then have "k_lstat (host s) (base_path (eng s) (unsegs p)) = Inr n \<longleftrightarrow>
        get (host s) (base_dir (eng s) @ p) = Some n" for n
      using lookup_base [OF assms] assms(3) by (simp add: base_path_def)
    with None u hid False show ?thesis
      by (cases "get (host s) (base_dir (eng s) @ p)";
          cases "k_lstat (host s) (base_path (eng s) (unsegs p))")
        (auto simp: find_visible_entry_layer_def layer_at_def)
  qed
qed

section \<open>What changes outside the two trees leaves the view alone\<close>

lemma outside_vis:
  assumes "layout en h" "outside {recovery_dir en} h h'"
  shows "vis en h' p = vis en h p"
proof -
  have "same_entry (get h (upper_dir en @ p)) (get h' (upper_dir en @ p))"
    "same_entry (get h (base_dir en @ p)) (get h' (base_dir en @ p))"
    using outside_same [OF assms(2)] layout_apart [OF assms(1)] by auto
  then have "map_option abstr (get h (upper_dir en @ p)) = map_option abstr (get h' (upper_dir en @ p))"
    "map_option abstr (get h (base_dir en @ p)) = map_option abstr (get h' (base_dir en @ p))"
    by (auto dest: same_entry_abstr)
  then show ?thesis by (auto simp: vis_def split: option.splits)
qed

lemma outside_layout:
  assumes "layout en h" "outside S h h'" "\<And>r. r \<in> S \<Longrightarrow> prefix (recovery_dir en) r \<or> strict_prefix (upper_dir en) r"
    and "get h' (recovery_dir en) = None \<or> dir_at h' (recovery_dir en)"
  shows "layout en h'"
proof -
  have "\<not> prefix r (upper_dir en)" "\<not> prefix r (base_dir en)" if "r \<in> S" for r
    using assms(3) [OF that] layout_apart [OF assms(1), of "[]"]
    by (auto dest: prefix_order.trans prefix_order.less_le_trans prefix_order.le_less_trans
        simp: strict_prefix_def)
  with assms show ?thesis by (auto simp: layout_def outside_dir)
qed

end
