(* ===== verification/Program_Logic.thy ===== *)
theory Program_Logic
  imports Prelude
begin

text \<open>
  Partial and total facts about programs: \<open>hoare P m Q E H\<close> says that from a state with \<open>P\<close> the
  program \<open>m\<close> ends with its result and state in \<open>Q\<close>, with its error in \<open>E\<close>, or with the process
  exit in \<open>H\<close>. Programs are functions, so they always end; a fact with \<open>E\<close> and \<open>H\<close> false says that
  the program succeeds.
\<close>

definition outcome ::
  "('a \<Rightarrow> 's \<Rightarrow> bool) \<Rightarrow> ('e \<Rightarrow> 's \<Rightarrow> bool) \<Rightarrow> (string \<Rightarrow> 's \<Rightarrow> bool) \<Rightarrow> ('e, 'a) res \<times> 's \<Rightarrow> bool"
where
  "outcome Q E H r = (case r of (Ok a, t) \<Rightarrow> Q a t | (Err e, t) \<Rightarrow> E e t | (Halt f, t) \<Rightarrow> H f t)"

lemma outcome_simps [simp]:
  "outcome Q E H (Ok a, t) = Q a t"
  "outcome Q E H (Err e, t) = E e t"
  "outcome Q E H (Halt f, t) = H f t"
  by (simp_all add: outcome_def)

lemma outcome_cases:
  assumes "outcome Q E H r"
  obtains a t where "r = (Ok a, t)" "Q a t"
  | e t where "r = (Err e, t)" "E e t"
  | f t where "r = (Halt f, t)" "H f t"
proof (cases r)
  case (Pair x t)
  with assms that show ?thesis by (cases x) auto
qed

lemma outcome_mono:
  assumes "outcome Q E H r" "\<And>a t. Q a t \<Longrightarrow> Q' a t" "\<And>e t. E e t \<Longrightarrow> E' e t" "\<And>f t. H f t \<Longrightarrow> H' f t"
  shows "outcome Q' E' H' r"
  using assms(1) by (rule outcome_cases) (auto intro: assms(2-))

lemma outcome_bnd: "outcome Q E H (bnd m k s) = outcome (\<lambda>a t. outcome Q E H (k a t)) E H (m s)"
  by (simp add: outcome_def bnd_def split: prod.splits res.splits)

lemma outcome_catch: "outcome Q E H (catch m h s) = outcome Q (\<lambda>e t. outcome Q E H (h e t)) H (m s)"
  by (simp add: outcome_def catch_def split: prod.splits res.splits)

lemma outcome_attempt:
  "outcome Q E H (attempt m s) = outcome (\<lambda>a. Q (Inr a)) (\<lambda>e. Q (Inl e)) H (m s)"
  by (simp add: outcome_def attempt_def split: prod.splits res.splits)

definition hoare ::
  "('s \<Rightarrow> bool) \<Rightarrow> ('s, 'e, 'a) prog \<Rightarrow> ('a \<Rightarrow> 's \<Rightarrow> bool) \<Rightarrow> ('e \<Rightarrow> 's \<Rightarrow> bool) \<Rightarrow>
   (string \<Rightarrow> 's \<Rightarrow> bool) \<Rightarrow> bool"
where
  "hoare P m Q E H \<longleftrightarrow> (\<forall>s. P s \<longrightarrow> outcome Q E H (m s))"

lemma hoareI: "(\<And>s. P s \<Longrightarrow> outcome Q E H (m s)) \<Longrightarrow> hoare P m Q E H"
  by (simp add: hoare_def)

lemma hoareD: "hoare P m Q E H \<Longrightarrow> P s \<Longrightarrow> outcome Q E H (m s)"
  by (simp add: hoare_def)

lemma hoare_Ok: "hoare P m Q E H \<Longrightarrow> P s \<Longrightarrow> m s = (Ok a, t) \<Longrightarrow> Q a t"
  and hoare_Err: "hoare P m Q E H \<Longrightarrow> P s \<Longrightarrow> m s = (Err e, t) \<Longrightarrow> E e t"
  and hoare_Halt: "hoare P m Q E H \<Longrightarrow> P s \<Longrightarrow> m s = (Halt f, t) \<Longrightarrow> H f t"
  by (metis hoareD outcome_simps)+

lemma hoare_total:
  "hoare P m Q (\<lambda>_ _. False) (\<lambda>_ _. False) \<Longrightarrow> P s \<Longrightarrow> \<exists>a t. m s = (Ok a, t) \<and> Q a t"
  by (drule (1) hoareD) (auto elim: outcome_cases)

lemma hoare_conseq:
  assumes "hoare P' m Q' E' H'"
    and "\<And>s. P s \<Longrightarrow> P' s" "\<And>a s. Q' a s \<Longrightarrow> Q a s" "\<And>e s. E' e s \<Longrightarrow> E e s" "\<And>f s. H' f s \<Longrightarrow> H f s"
  shows "hoare P m Q E H"
  using assms(1) by (intro hoareI) (auto dest!: hoareD intro: assms(2-) outcome_mono)

lemma hoare_pre: "hoare P' m Q E H \<Longrightarrow> (\<And>s. P s \<Longrightarrow> P' s) \<Longrightarrow> hoare P m Q E H"
  by (erule hoare_conseq)

lemma hoare_post: "hoare P m Q' E H \<Longrightarrow> (\<And>a s. Q' a s \<Longrightarrow> Q a s) \<Longrightarrow> hoare P m Q E H"
  by (erule hoare_conseq)

lemma hoare_ret: "(\<And>s. P s \<Longrightarrow> Q a s) \<Longrightarrow> hoare P (ret a) Q E H"
  by (simp add: hoare_def prog_defs)

lemma hoare_fail: "(\<And>s. P s \<Longrightarrow> E e s) \<Longrightarrow> hoare P (fail e) Q E H"
  by (simp add: hoare_def prog_defs)

lemma hoare_halt: "(\<And>s. P s \<Longrightarrow> H f s) \<Longrightarrow> hoare P (halt f) Q E H"
  by (simp add: hoare_def prog_defs)

lemma hoare_gets: "(\<And>s. P s \<Longrightarrow> Q (g s) s) \<Longrightarrow> hoare P (gets g) Q E H"
  by (simp add: hoare_def prog_defs)

lemma hoare_modify: "(\<And>s. P s \<Longrightarrow> Q () (h s)) \<Longrightarrow> hoare P (modify h) Q E H"
  by (simp add: hoare_def prog_defs)

lemma hoare_bnd:
  assumes "hoare P m R E H" and "\<And>a. hoare (R a) (k a) Q E H"
  shows "hoare P (bnd m k) Q E H"
proof (rule hoareI)
  fix s assume "P s"
  with hoareD [OF assms(1)] have "outcome R E H (m s)" .
  then show "outcome Q E H (bnd m k s)"
    unfolding outcome_bnd by (rule outcome_mono) (auto intro: hoareD [OF assms(2)])
qed

lemma hoare_catch:
  assumes "hoare P m Q R H" and "\<And>e. hoare (R e) (h e) Q E H"
  shows "hoare P (catch m h) Q E H"
proof (rule hoareI)
  fix s assume "P s"
  with hoareD [OF assms(1)] have "outcome Q R H (m s)" .
  then show "outcome Q E H (catch m h s)"
    unfolding outcome_catch by (rule outcome_mono) (auto intro: hoareD [OF assms(2)])
qed

lemma hoare_attempt:
  "hoare P m (\<lambda>a. Q (Inr a)) (\<lambda>e. Q (Inl e)) H \<Longrightarrow> hoare P (attempt m) Q E H"
  by (simp add: hoare_def outcome_attempt)

lemma hoare_if:
  "(c \<Longrightarrow> hoare P m Q E H) \<Longrightarrow> (\<not> c \<Longrightarrow> hoare P n Q E H) \<Longrightarrow> hoare P (if c then m else n) Q E H"
  by simp

lemma hoare_gets_bnd:
  "(\<And>x. hoare (\<lambda>s. P s \<and> x = g s) (k x) Q E H) \<Longrightarrow> hoare P (bnd (gets g) k) Q E H"
  by (auto simp: hoare_def prog_defs)

text \<open>A test whose outcome the assertion settles.\<close>

lemma hoare_test:
  "(\<And>s. P s \<Longrightarrow> g s = x) \<Longrightarrow> hoare P (k x) Q E H \<Longrightarrow> hoare P (bnd (gets g) k) Q E H"
  by (simp add: hoare_def prog_defs)

lemma hoare_assume: "(c \<Longrightarrow> hoare P m Q E H) \<Longrightarrow> hoare (\<lambda>s. c \<and> P s) m Q E H"
  by (auto simp: hoare_def)

lemma hoare_const: "(\<And>s. P s \<Longrightarrow> c) \<Longrightarrow> (c \<Longrightarrow> hoare P m Q E H) \<Longrightarrow> hoare P m Q E H"
  by (auto simp: hoare_def)

lemma hoare_ex: "(\<And>x. hoare (P x) m Q E H) \<Longrightarrow> hoare (\<lambda>s. \<exists>x. P x s) m Q E H"
  by (auto simp: hoare_def)

lemma hoare_false: "(\<And>s. \<not> P s) \<Longrightarrow> hoare P m Q E H"
  by (simp add: hoare_def)

text \<open>A loop that keeps an assertion indexed by what is still to do.\<close>

lemma hoare_for_each:
  assumes "\<And>x xs. hoare (I (x # xs)) (f x) (\<lambda>_. I xs) E H"
  shows "hoare (I xs) (for_each xs f) (\<lambda>_. I []) E H"
proof (induction xs)
  case Nil
  then show ?case by (simp add: hoare_ret)
next
  case (Cons x xs)
  then show ?case by (simp, intro hoare_bnd [OF assms])
qed

lemma hoare_for_each_same:
  assumes "\<And>x. x \<in> set xs \<Longrightarrow> hoare I (f x) (\<lambda>_. I) E H"
  shows "hoare I (for_each xs f) (\<lambda>_. I) E H"
  using assms
proof (induction xs)
  case Nil
  then show ?case by (simp add: hoare_ret)
next
  case (Cons x xs)
  have "hoare I (f x) (\<lambda>_. I) E H" by (rule Cons.prems) simp
  moreover have "hoare I (for_each xs f) (\<lambda>_. I) E H" by (rule Cons.IH) (simp add: Cons.prems)
  ultimately show ?case by (simp add: hoare_bnd)
qed

text \<open>Splitting the sum of a fallible pure step and the option of a lookup.\<close>

lemma hoare_case_sum:
  "(\<And>e. r = Inl e \<Longrightarrow> hoare P (f e) Q E H) \<Longrightarrow> (\<And>a. r = Inr a \<Longrightarrow> hoare P (g a) Q E H) \<Longrightarrow>
   hoare P (case r of Inl e \<Rightarrow> f e | Inr a \<Rightarrow> g a) Q E H"
  by (cases r) auto

lemma hoare_case_option:
  "(r = None \<Longrightarrow> hoare P m Q E H) \<Longrightarrow> (\<And>a. r = Some a \<Longrightarrow> hoare P (f a) Q E H) \<Longrightarrow>
   hoare P (case r of None \<Rightarrow> m | Some a \<Rightarrow> f a) Q E H"
  by (cases r) auto

text \<open>A frame condition is a triple with one assertion on every way to end.\<close>

lemma outcome_snd: "outcome (\<lambda>_. S) (\<lambda>_. S) (\<lambda>_. S) r = S (snd r)"
  by (cases r; cases "fst r") auto

lemma keeps_hoare: "keeps R m \<longleftrightarrow> (\<forall>s0. hoare (\<lambda>s. s = s0) m (\<lambda>_. R s0) (\<lambda>_. R s0) (\<lambda>_. R s0))"
  by (simp add: keeps_def hoare_def outcome_snd)

lemmas hoare_intros =
  hoare_ret hoare_fail hoare_halt hoare_gets hoare_modify hoare_gets_bnd hoare_bnd hoare_attempt
  hoare_if hoare_case_sum hoare_case_option

end
