(* ===== verification/Machine_Specs.thy ===== *)
theory Machine_Specs
  imports Machine Program_Logic
begin

text \<open>
  What each call of the theory Machine does to an assertion over the file system, the database and
  the engine. The flag \<open>F\<close> of an assertion says that no fault is left to come: then a call only
  fails for the reason the file system itself gives.
\<close>

definition holds :: "bool \<Rightarrow> (node \<Rightarrow> store \<Rightarrow> engine \<Rightarrow> bool) \<Rightarrow> machine \<Rightarrow> bool" where
  "holds F C s \<longleftrightarrow> (F \<longrightarrow> faults s = []) \<and> C (host s) (store s) (eng s)"

lemma holds_mono: "holds F C s \<Longrightarrow> (\<And>h st en. C h st en \<Longrightarrow> D h st en) \<Longrightarrow> holds F D s"
  by (simp add: holds_def)

named_theorems calls "triples of the calls of the machine"

lemma weaken_error:
  "hoare P m Q (\<lambda>x. holds F (E' x)) H \<Longrightarrow> (\<And>x h st en. E' x h st en \<Longrightarrow> E x h st en) \<Longrightarrow>
   hoare P m Q (\<lambda>x. holds F (E x)) H"
  by (erule hoare_conseq) (auto simp: holds_def)

lemma kernel_call_spec [calls]:
  "hoare (holds F C) kernel_call (\<lambda>_. holds F C) (\<lambda>_. holds F (\<lambda>h st en. C h st en \<and> \<not> F)) H"
  by (auto simp: hoare_def outcome_def kernel_call_def holds_def next_fault_def
      split: list.splits prod.splits res.splits)

lemma kernel_call_not_EEXIST: "kernel_call s = (Err x, t) \<Longrightarrow> x \<noteq> EEXIST"
  by (auto simp: kernel_call_def split: prod.splits if_splits)

lemma on_host_spec:
  assumes "\<And>h h' st en. C h st en \<Longrightarrow> f h = Inr h' \<Longrightarrow> D h' st en"
  shows "hoare (holds F C) (on_host f) (\<lambda>_. holds F D) (\<lambda>x. holds F (\<lambda>h st en. C h st en \<and> f h = Inl x)) H"
  using assms by (auto simp: hoare_def outcome_def on_host_def holds_def split: sum.splits)

lemma from_host_spec:
  assumes "\<And>h st en a. C h st en \<Longrightarrow> f h = Inr a \<Longrightarrow> D a h st en"
  shows "hoare (holds F C) (from_host f) (\<lambda>a. holds F (D a))
           (\<lambda>x. holds F (\<lambda>h st en. C h st en \<and> f h = Inl x)) H"
  using assms by (auto simp: hoare_def outcome_def from_host_def holds_def split: sum.splits)

lemma sys_spec:
  assumes "\<And>h h' st en. C h st en \<Longrightarrow> f h = Inr h' \<Longrightarrow> D h' st en"
  shows "hoare (holds F C) (sys f) (\<lambda>_. holds F D)
           (\<lambda>x. holds F (\<lambda>h st en. C h st en \<and> (F \<longrightarrow> f h = Inl x))) H"
  unfolding sys_def
  by (rule hoare_bnd [OF hoare_conseq [OF kernel_call_spec [of F C]]
        hoare_conseq [OF on_host_spec [where C = C and f = f and D = D]]])
    (auto simp: holds_def assms)

lemma fresh_meta_spec:
  "hoare (holds F C) (fresh_meta e p mode) (\<lambda>m. holds F (\<lambda>h st en. C h st en \<and> perm m = mode)) E H"
  by (simp add: hoare_def fresh_meta_def holds_def)

lemma new_entry_spec:
  assumes "\<And>h h' st en m. C h st en \<Longrightarrow> perm m = mode \<Longrightarrow> k_create h p (mk m) = Inr h' \<Longrightarrow> D h' st en"
  shows "hoare (holds F C) (new_entry e p mode mk) (\<lambda>_. holds F D)
           (\<lambda>x. holds F (\<lambda>h st en. C h st en \<and> (F \<longrightarrow> (\<exists>m. k_create h p (mk m) = Inl x)))) H"
proof -
  let ?E = "\<lambda>x. holds F (\<lambda>h st en. C h st en \<and> (F \<longrightarrow> (\<exists>m. k_create h p (mk m) = Inl x)))"
  have create: "hoare (holds F (\<lambda>h st en. C h st en \<and> perm m = mode)) (on_host (\<lambda>r. k_create r p (mk m)))
      (\<lambda>_. holds F D) ?E H" for m
    by (rule hoare_conseq [OF on_host_spec [where C = "\<lambda>h st en. C h st en \<and> perm m = mode" and D = D]])
      (auto intro: assms simp: holds_def)
  have "hoare (holds F C) (bnd (fresh_meta e p mode) (\<lambda>m. on_host (\<lambda>r. k_create r p (mk m)))) (\<lambda>_. holds F D) ?E H"
    by (rule hoare_bnd [OF fresh_meta_spec create])
  then show ?thesis
    unfolding new_entry_def
    by (intro hoare_bnd [OF hoare_conseq [OF kernel_call_spec [of F C]]]) (auto simp: holds_def)
qed

lemma sys_edit_spec:
  assumes "\<And>h h' st en now. C h st en \<Longrightarrow> k_edit h p f now = Inr h' \<Longrightarrow> D h' st en"
  shows "hoare (holds F C) (sys_edit p f) (\<lambda>_. holds F D)
           (\<lambda>x. holds F (\<lambda>h st en. C h st en \<and> (F \<longrightarrow> (\<exists>now. k_edit h p f now = Inl x)))) H"
  unfolding sys_edit_def
  by (rule hoare_gets_bnd, rule hoare_conseq [OF sys_spec [where C = C and D = D]])
    (auto intro: assms simp: holds_def)

lemma execute_spec:
  assumes "\<And>h st en. C h st en \<Longrightarrow> D h (f st) en"
  shows "hoare (holds F C) (execute_statement_without_rows e f) (\<lambda>_. holds F D)
           (\<lambda>_. holds F (\<lambda>h st en. C h st en \<and> \<not> F)) H"
  unfolding execute_statement_without_rows_def sql_step_def
  by (rule hoare_bnd [where R = "\<lambda>_. holds F C"],
      rule hoare_catch [OF kernel_call_spec [of F C]])
    (auto intro!: hoare_fail hoare_modify simp: holds_def assms)

lemma sql_step_spec [calls]:
  "hoare (holds F C) (sql_step e) (\<lambda>_. holds F C) (\<lambda>_. holds F (\<lambda>h st en. C h st en \<and> \<not> F)) H"
  unfolding sql_step_def
  by (rule hoare_catch [OF kernel_call_spec]) (auto intro!: hoare_fail simp: holds_def)

text \<open>What the closing transaction of an operation does to the database.\<close>

definition sql_finish :: "(string \<Rightarrow> string \<Rightarrow> bool) \<Rightarrow> recovery_operation \<Rightarrow> store \<Rightarrow> store" where
  "sql_finish like op st =
     sql_abandon_recovery_operation (op_id op)
       ((if drop_target_tombstones op then sql_remove_tombstones_under like (op_workspace op) (op_target op)
         else (\<lambda>st. st))
         ((if add_path_tombstone op then sql_add_tombstone (op_workspace op) (op_path op) else (\<lambda>st. st)) st))"

lemma finish_spec:
  assumes D: "\<And>h st en. C h st en \<Longrightarrow> D h (sql_finish (sql_like e) op st) en"
  shows "hoare (holds F C) (finish_recovery_operation e op) (\<lambda>_. holds F D)
           (\<lambda>_. holds F (\<lambda>h st en. C h st en \<and> \<not> F)) H"
proof -
  have rollback: "hoare (holds F (\<lambda>h st en. C h before en \<and> \<not> F))
      (bnd (modify (\<lambda>s. s\<lparr>store := before\<rparr>)) (\<lambda>_. fail x)) (\<lambda>_. holds F D)
      (\<lambda>_. holds F (\<lambda>h st en. C h st en \<and> \<not> F)) H" for before :: store and x :: string
    by (auto simp: hoare_def prog_defs holds_def)
  define A1 where "A1 = (\<lambda>before h st en. C h before en \<and> st = before)"
  define A2 where "A2 = (\<lambda>before h st en. C h before en \<and>
     st = (if add_path_tombstone op then sql_add_tombstone (op_workspace op) (op_path op) else (\<lambda>st. st)) before)"
  define A3 where "A3 = (\<lambda>before h st en. C h before en \<and>
     st = (if drop_target_tombstones op then sql_remove_tombstones_under (sql_like e) (op_workspace op) (op_target op)
         else (\<lambda>st. st)) ((if add_path_tombstone op then sql_add_tombstone (op_workspace op) (op_path op) else (\<lambda>st. st)) before))"
  define A4 where "A4 = (\<lambda>before h st en. C h before en \<and> st = sql_finish (sql_like e) op before)"
  define B where "B = (\<lambda>before. \<lambda>_ :: string. holds F (\<lambda>h st en. C h before en \<and> \<not> F))"
  have s1: "hoare (holds F (A1 before)) (if add_path_tombstone op
        then execute_statement_without_rows e (sql_add_tombstone (op_workspace op) (op_path op)) else ret ())
        (\<lambda>_. holds F (A2 before)) (B before) H" for before
    by (rule hoare_if, rule hoare_conseq [OF execute_spec [where C = "A1 before" and D = "A2 before"]])
      (auto simp: A1_def A2_def B_def holds_def intro!: hoare_ret)
  have s2: "hoare (holds F (A2 before)) (if drop_target_tombstones op
        then execute_statement_without_rows e (sql_remove_tombstones_under (sql_like e) (op_workspace op) (op_target op)) else ret ())
        (\<lambda>_. holds F (A3 before)) (B before) H" for before
    by (rule hoare_if, rule hoare_conseq [OF execute_spec [where C = "A2 before" and D = "A3 before"]])
      (auto simp: A2_def A3_def B_def holds_def intro!: hoare_ret)
  have s3: "hoare (holds F (A3 before)) (execute_statement_without_rows e (sql_abandon_recovery_operation (op_id op)))
        (\<lambda>_. holds F (A4 before)) (B before) H" for before
    by (rule hoare_conseq [OF execute_spec [where C = "A3 before" and D = "A4 before"]])
      (auto simp: A3_def A4_def B_def holds_def sql_finish_def)
  have s4: "hoare (holds F (A4 before)) (sql_step e) (\<lambda>_. holds F D) (B before) H" for before
    by (rule hoare_conseq [OF sql_step_spec [of F "A4 before"]]) (auto simp: A4_def B_def holds_def D)
  have chain: "hoare (holds F (A1 before))
      (bnd (if add_path_tombstone op
            then execute_statement_without_rows e (sql_add_tombstone (op_workspace op) (op_path op)) else ret ()) (\<lambda>_.
       bnd (if drop_target_tombstones op
            then execute_statement_without_rows e
                   (sql_remove_tombstones_under (sql_like e) (op_workspace op) (op_target op)) else ret ()) (\<lambda>_.
       bnd (execute_statement_without_rows e (sql_abandon_recovery_operation (op_id op))) (\<lambda>_. sql_step e))))
      (\<lambda>_. holds F D) (B before) H" for before
    by (rule hoare_bnd [OF s1], rule hoare_bnd [OF s2], rule hoare_bnd [OF s3], rule s4)
  have caught: "hoare (\<lambda>s. holds F C s \<and> before = store s)
      (catch (bnd (if add_path_tombstone op
            then execute_statement_without_rows e (sql_add_tombstone (op_workspace op) (op_path op)) else ret ()) (\<lambda>_.
       bnd (if drop_target_tombstones op
            then execute_statement_without_rows e
                   (sql_remove_tombstones_under (sql_like e) (op_workspace op) (op_target op)) else ret ()) (\<lambda>_.
       bnd (execute_statement_without_rows e (sql_abandon_recovery_operation (op_id op))) (\<lambda>_. sql_step e))))
       (\<lambda>message. bnd (modify (\<lambda>s. s\<lparr>store := before\<rparr>)) (\<lambda>_. fail message)))
      (\<lambda>_. holds F D) (\<lambda>_. holds F (\<lambda>h st en. C h st en \<and> \<not> F)) H" for before
    by (rule hoare_catch [OF hoare_pre [OF chain [of before]]], simp add: A1_def holds_def,
        unfold B_def, rule rollback)
  show ?thesis
    unfolding finish_recovery_operation_def
    by (rule hoare_bnd [OF hoare_conseq [OF sql_step_spec [of F C]]], assumption, assumption, assumption,
        assumption, rule hoare_gets_bnd, rule caught)
qed

lemma begin_spec:
  assumes "\<And>h st en. C h st en \<Longrightarrow> D (operation_seq st + 1) h (sql_begin_recovery_operation op st) en"
  shows "hoare (holds F C) (begin_recovery_operation e op) (\<lambda>i. holds F (D i))
           (\<lambda>_. holds F (\<lambda>h st en. C h st en \<and> \<not> F)) H"
proof -
  have "hoare (holds F (\<lambda>h st en. D (operation_seq st) h st en)) (gets (\<lambda>s. operation_seq (store s)))
      (\<lambda>i. holds F (D i)) (\<lambda>_. holds F (\<lambda>h st en. C h st en \<and> \<not> F)) H"
    by (rule hoare_gets) (simp add: holds_def)
  moreover have "hoare (holds F C) (execute_statement_without_rows e (sql_begin_recovery_operation op))
      (\<lambda>_. holds F (\<lambda>h st en. D (operation_seq st) h st en)) (\<lambda>_. holds F (\<lambda>h st en. C h st en \<and> \<not> F)) H"
    by (rule execute_spec) (use assms in \<open>auto simp: sql_begin_recovery_operation_def\<close>)
  ultimately show ?thesis unfolding begin_recovery_operation_def by (intro hoare_bnd)
qed

lemma phase_spec:
  "(\<And>h st en. C h st en \<Longrightarrow> D h (sql_set_recovery_operation_phase i ph st) en) \<Longrightarrow>
   hoare (holds F C) (set_recovery_operation_phase e i ph) (\<lambda>_. holds F D)
     (\<lambda>_. holds F (\<lambda>h st en. C h st en \<and> \<not> F)) H"
  unfolding set_recovery_operation_phase_def by (rule execute_spec)

lemma abandon_spec:
  "(\<And>h st en. C h st en \<Longrightarrow> D h (sql_abandon_recovery_operation i st) en) \<Longrightarrow>
   hoare (holds F C) (abandon_recovery_operation e i) (\<lambda>_. holds F D)
     (\<lambda>_. holds F (\<lambda>h st en. C h st en \<and> \<not> F)) H"
  unfolding abandon_recovery_operation_def by (rule execute_spec)

lemma load_operations_spec:
  assumes "\<And>h st en. C h st en \<Longrightarrow> journal_ok st"
  shows "hoare (holds F C) (load_recovery_operations e) (\<lambda>ops. holds F (\<lambda>h st en. C h st en \<and> ops = pending st))
     (\<lambda>_. holds F (\<lambda>h st en. C h st en \<and> \<not> F)) H"
  unfolding load_recovery_operations_def
  by (rule hoare_bnd [OF sql_step_spec], rule hoare_gets_bnd)
    (auto simp: hoare_def prog_defs holds_def load_pending [OF assms] outcome_def split: option.splits)

lemma on_engine_spec:
  "(\<And>h st en. C h st en \<Longrightarrow> D h st (f en)) \<Longrightarrow>
   hoare (holds F C) (modify (\<lambda>s. s\<lparr>eng := f (eng s)\<rparr>)) (\<lambda>_. holds F D) E H"
  by (auto intro: hoare_modify simp: holds_def)

text \<open>A selected failpoint ends the process in the state it was reached in.\<close>

lemma failpoint_spec:
  "hoare (holds F C) (trigger_failpoint e name context)
     (\<lambda>_. holds F C) E (\<lambda>f. holds F (\<lambda>h st en. C h st en \<and> f = name \<and> tribios_failpoint e = Some name))"
  by (auto simp: hoare_def outcome_def trigger_failpoint_def prog_defs holds_def)

lemma failpoint_off_spec:
  "tribios_failpoint e = None \<Longrightarrow>
   hoare (holds F C) (trigger_failpoint e name context) (\<lambda>_. holds F C) E H"
  by (simp add: trigger_failpoint_def hoare_ret)

lemma inject_free: "tribios_io_fault e = None \<Longrightarrow> injected_io_error e boundary = 0"
  by (simp add: injected_io_error_def)

section \<open>Flushes\<close>

lemma flush_spec:
  "hoare (holds F C) (bnd kernel_call (\<lambda>_. bnd (from_host f) (\<lambda>_. kernel_call))) (\<lambda>_. holds F C)
     (\<lambda>x. holds F (\<lambda>h st en. C h st en \<and> (F \<longrightarrow> f h = Inl x))) H"
proof -
  let ?E = "\<lambda>x. holds F (\<lambda>h st en. C h st en \<and> (F \<longrightarrow> f h = Inl x))"
  have k: "hoare (holds F C) kernel_call (\<lambda>_. holds F C) ?E H"
    by (rule weaken_error [OF kernel_call_spec]) simp
  have "hoare (holds F C) (from_host f) (\<lambda>_. holds F C) ?E H"
    by (rule weaken_error [OF from_host_spec [where D = "\<lambda>_. C"]]) auto
  with k show ?thesis by (intro hoare_bnd)
qed

lemma sync_file_data_spec:
  "hoare (holds F C) (sync_file_data p) (\<lambda>_. holds F C)
     (\<lambda>x. holds F (\<lambda>h st en. C h st en \<and> (F \<longrightarrow> k_stat h p = Inl x))) H"
  unfolding sync_file_data_def by (rule flush_spec)

lemma sync_directory_spec:
  "hoare (holds F C) (sync_directory p) (\<lambda>_. holds F C)
     (\<lambda>x. holds F (\<lambda>h st en. C h st en \<and> (F \<longrightarrow> k_opendir h p = Inl x))) H"
  unfolding sync_directory_def by (rule flush_spec)

lemma sync_parent_spec:
  "hoare (holds F C) (sync_parent_directory p) (\<lambda>_. holds F C)
     (\<lambda>x. holds F (\<lambda>h st en. C h st en \<and> (F \<longrightarrow> k_opendir h (butlast p) = Inl x))) H"
  unfolding sync_parent_directory_def by (rule sync_directory_spec)

section \<open>Calls on a path whose parents are directories\<close>

lemma k_stat_dir:
  assumes "clean p" "dir_at h p"
  shows "\<exists>m cs. k_stat h p = Inr (Dir m cs) \<and> k_opendir h p = Inr cs"
proof -
  obtain m cs where g: "get h p = Some (Dir m cs)" using assms(2) by (rule dir_atE)
  have "resolve h p True = Inr p"
  proof (cases "p = []")
    case False
    then have "dir_at h (butlast p)"
      using g get_below_dir [of h "butlast p" "last p" "[]"] by simp
    with False g assms(1) show ?thesis by (simp add: resolve_follow_ok)
  qed simp
  with g show ?thesis by (simp add: k_opendir_def k_stat_def)
qed

lemma k_stat_absent:
  "clean p \<Longrightarrow> p \<noteq> [] \<Longrightarrow> dir_at h (butlast p) \<Longrightarrow> get h p = None \<Longrightarrow> k_stat h p = Inl ENOENT"
  by (simp add: k_stat_def resolve_follow_ok)

lemma create_directories_existing:
  assumes "\<And>h st en. C h st en \<Longrightarrow> clean (front @ xs) \<and> dir_at h (front @ xs)"
  shows "hoare (holds F C) (create_directories_from e front xs) (\<lambda>_. holds F C) (\<lambda>_ _. False) H"
  using assms
proof (induction xs arbitrary: front)
  case Nil
  then show ?case by (simp add: hoare_ret)
next
  case (Cons x xs)
  have dir: "\<exists>m cs. k_stat h (front @ [x]) = Inr (Dir m cs)" if "C h st en" for h st en
    using Cons.prems [OF that] dir_at_append_prefix [of h "front @ [x]" xs]
      k_stat_dir [of "front @ [x]" h] by auto
  have "hoare (holds F C) (create_directories_from e (front @ [x]) xs) (\<lambda>_. holds F C) (\<lambda>_ _. False) H"
    by (rule Cons.IH) (use Cons.prems in auto)
  moreover have "hoare (\<lambda>s. holds F C s \<and> r = k_stat (host s) (front @ [x]))
      (case r of Inr n \<Rightarrow> if is_dir n then ret () else fail ENOTDIR
       | Inl err \<Rightarrow> if err = ENOENT then sys_mkdir e (front @ [x]) 0x1FF else fail err)
      (\<lambda>_. holds F C) (\<lambda>_ _. False) H" for r
    by (rule hoare_const [where c = "\<exists>m cs. r = Inr (Dir m cs)"])
      (use dir in \<open>auto simp: holds_def intro!: hoare_ret\<close>)
  ultimately show ?case
    by (simp del: append_assoc) (intro hoare_gets_bnd hoare_bnd)
qed

lemma create_directories_append:
  "create_directories_from e front (xs @ ys) =
   bnd (create_directories_from e front xs) (\<lambda>_. create_directories_from e (front @ xs) ys)"
proof (induction xs arbitrary: front)
  case Nil
  then show ?case by (simp add: prog_defs fun_eq_iff)
next
  case (Cons x xs)
  then show ?case by (simp add: fun_eq_iff prog_defs split: prod.splits res.splits)
qed

text \<open>All parents exist and the last component is a directory or missing.\<close>

lemma fs_create_directories_spec:
  assumes pre: "\<And>h st en. C h st en \<Longrightarrow> clean p \<and> p \<noteq> [] \<and> dir_at h (butlast p) \<and> (get h p = None \<or> dir_at h p)"
    and same: "\<And>h st en. C h st en \<Longrightarrow> dir_at h p \<Longrightarrow> D h st en"
    and made: "\<And>h st en m. C h st en \<Longrightarrow> get h p = None \<Longrightarrow> D (put h p (Some (Dir m []))) st en"
  shows "hoare (holds F C) (fs_create_directories e p) (\<lambda>_. holds F D)
           (\<lambda>_. holds F (\<lambda>h st en. C h st en \<and> \<not> F)) H"
proof (rule hoare_const [where c = "clean p \<and> p \<noteq> []"])
  assume p: "clean p \<and> p \<noteq> []"
  have split: "create_directories_from e [] p =
      bnd (create_directories_from e [] (butlast p)) (\<lambda>_. create_directories_from e (butlast p) [last p])"
    using create_directories_append [of e "[]" "butlast p" "[last p]"] p by simp
  have front: "hoare (holds F C) (create_directories_from e [] (butlast p)) (\<lambda>_. holds F C)
      (\<lambda>_. holds F (\<lambda>h st en. C h st en \<and> \<not> F)) H"
    by (rule hoare_conseq [OF create_directories_existing [where C = C]]) (use pre in auto)
  have make: "hoare (holds F (\<lambda>h st en. C h st en \<and> get h p = None)) (sys_mkdir e p 0x1FF) (\<lambda>_. holds F D)
      (\<lambda>_. holds F (\<lambda>h st en. C h st en \<and> \<not> F)) H"
    unfolding sys_mkdir_def
    by (rule hoare_conseq [OF new_entry_spec [where C = "\<lambda>h st en. C h st en \<and> get h p = None" and D = D]])
      (use p pre made in \<open>auto simp: holds_def k_create_ok\<close>)
  have last: "hoare (\<lambda>s. holds F C s \<and> r = k_stat (host s) p)
      (case r of Inr n \<Rightarrow> if is_dir n then ret () else fail ENOTDIR
       | Inl err \<Rightarrow> if err = ENOENT then sys_mkdir e p 0x1FF else fail err) (\<lambda>_. holds F D)
      (\<lambda>_. holds F (\<lambda>h st en. C h st en \<and> \<not> F)) H" for r
  proof (cases r)
    case (Inl err)
    have "holds F C s \<and> Inl err = k_stat (host s) p \<Longrightarrow> err = ENOENT \<and> get (host s) p = None" for s
      using pre [of "host s" "store s" "eng s"] k_stat_dir [of p "host s"] k_stat_absent [of p "host s"]
      by (auto simp: holds_def)
    then show ?thesis
      unfolding Inl by (auto intro!: hoare_pre [OF make] hoare_const [where c = "err = ENOENT"] simp: holds_def)
  next
    case (Inr n)
    have "holds F C s \<and> Inr n = k_stat (host s) p \<Longrightarrow> is_dir n \<and> dir_at (host s) p" for s
      using pre [of "host s" "store s" "eng s"] k_stat_dir [of p "host s"] k_stat_absent [of p "host s"]
      by (auto simp: holds_def)
    then show ?thesis
      unfolding Inr by (auto intro!: hoare_ret hoare_const [where c = "is_dir n"] same simp: holds_def)
  qed
  have "hoare (holds F C) (create_directories_from e (butlast p) [last p]) (\<lambda>_. holds F D)
      (\<lambda>_. holds F (\<lambda>h st en. C h st en \<and> \<not> F)) H"
    unfolding create_directories_from.simps append_butlast_last_id [OF conjunct2 [OF p]]
    by (auto intro!: hoare_gets_bnd hoare_bnd [where R = "\<lambda>_. holds F D"] hoare_ret last)
  with front show ?thesis
    unfolding fs_create_directories_def split by (rule hoare_bnd)
qed (use pre in \<open>auto simp: holds_def\<close>)

section \<open>Removal\<close>

lemma put_missing: "p \<noteq> [] \<Longrightarrow> get h p = None \<Longrightarrow> put h p None = h"
  using put_get [of p h] by simp

lemma fs_remove_all_direct:
  assumes p: "clean p" "p \<noteq> []" "direct (host s) p" "is_dir (host s)"
  shows "(\<exists>fs. fs_remove_all p s = (Ok (), s\<lparr>host := put (host s) p None, faults := fs\<rparr>) \<and>
            (faults s = [] \<longrightarrow> fs = [])) \<or>
         (\<exists>x v fs. fs_remove_all p s = (Err x, s\<lparr>host := put (host s) p v, faults := fs\<rparr>) \<and> faults s \<noteq> [])"
proof (cases "dir_at (host s) (butlast p)")
  case False
  with resolve_blocked [OF p(1,3,4), of False] have "fs_remove_all p s = (Ok (), s)"
    by (auto simp: fs_remove_all_def)
  moreover have "put (host s) p None = host s" using False by (simp add: put_no_parent)
  ultimately have "fs_remove_all p s = (Ok (), s\<lparr>host := put (host s) p None, faults := faults s\<rparr>)" by simp
  then show ?thesis by blast
next
  case True
  then have r: "resolve (host s) p False = Inr p" using p by (simp add: resolve_ok)
  show ?thesis
  proof (cases "get (host s) p")
    case None
    with r put_missing [OF p(2) None]
    have "fs_remove_all p s = (Ok (), s\<lparr>host := put (host s) p None, faults := faults s\<rparr>)"
      by (simp add: fs_remove_all_def)
    then show ?thesis by blast
  next
    case (Some n)
    obtain x v fs where rm: "rm_tree n (faults s) = (x, v, fs)" by (cases "rm_tree n (faults s)")
    with Some r have run: "fs_remove_all p s =
        (if x \<noteq> 0 then Err x else Ok (), s\<lparr>host := put (host s) p v, faults := fs\<rparr>)"
      by (simp add: fs_remove_all_def)
    show ?thesis
    proof (cases "x = 0")
      case True
      then have "v = None" using rm_tree_none_iff [OF rm] by simp
      moreover have "faults s = [] \<longrightarrow> fs = []" using rm rm_tree_no_faults(1) [of "faults s" n] by auto
      ultimately show ?thesis using run True by auto
    next
      case False
      then have "faults s \<noteq> []" using rm rm_tree_no_faults(1) [of "faults s" n] by auto
      then show ?thesis using run False by auto
    qed
  qed
qed

lemma fs_remove_all_spec:
  assumes pre: "\<And>h st en. C h st en \<Longrightarrow> clean p \<and> p \<noteq> [] \<and> direct h p \<and> is_dir h"
    and D: "\<And>h st en. C h st en \<Longrightarrow> D (put h p None) st en"
    and E: "\<And>h st en v. C h st en \<Longrightarrow> \<not> F \<Longrightarrow> E (put h p v) st en"
  shows "hoare (holds F C) (fs_remove_all p) (\<lambda>_. holds F D) (\<lambda>_. holds F E) H"
proof (rule hoareI)
  fix s assume s: "holds F C s"
  then have "clean p" "p \<noteq> []" "direct (host s) p" "is_dir (host s)"
    using pre by (auto simp: holds_def)
  from fs_remove_all_direct [OF this] s
  show "outcome (\<lambda>_. holds F D) (\<lambda>_. holds F E) H (fs_remove_all p s)"
    by (auto simp: holds_def D E)
qed

text \<open>\<^verbatim>\<open>remove\<close> of something that is not a directory.\<close>

lemma fs_remove_spec:
  assumes pre: "\<And>h st en. C h st en \<Longrightarrow> clean p \<and> p \<noteq> [] \<and> direct h p \<and> is_dir h \<and> \<not> dir_at h p"
    and D: "\<And>h st en. C h st en \<Longrightarrow> D (put h p None) st en"
  shows "hoare (holds F C) (fs_remove p) (\<lambda>_. holds F D) (\<lambda>_. holds F (\<lambda>h st en. C h st en \<and> \<not> F)) H"
proof -
  have unlink: "hoare (holds F (\<lambda>h st en. C h st en \<and> get h p \<noteq> None)) (sys_unlink p) (\<lambda>_. holds F D)
      (\<lambda>_. holds F (\<lambda>h st en. C h st en \<and> \<not> F)) H"
    unfolding sys_unlink_def
  proof (rule weaken_error [OF sys_spec [where D = D]])
    fix h h' st en assume C: "C h st en \<and> get h p \<noteq> None" and k: "k_unlink h p = Inr h'"
    with pre [of h st en] have "k_unlink h p = Inr (put h p None)"
      by (auto simp: dir_at_def k_unlink_ok split: option.splits)
    with k D C show "D h' st en" by auto
  next
    fix x h st en
    assume C: "(C h st en \<and> get h p \<noteq> None) \<and> (F \<longrightarrow> k_unlink h p = Inl x)"
    with pre [of h st en] have "k_unlink h p = Inr (put h p None)"
      by (auto simp: dir_at_def k_unlink_ok split: option.splits)
    with C show "C h st en \<and> \<not> F" by auto
  qed
  have found: "hoare (\<lambda>s. holds F C s \<and> r = k_lstat (host s) p)
     (case r of Inl x \<Rightarrow> if x = ENOENT \<or> x = ENOTDIR then ret () else fail x
      | Inr n \<Rightarrow> if is_dir n then sys_rmdir p else sys_unlink p) (\<lambda>_. holds F D)
     (\<lambda>_. holds F (\<lambda>h st en. C h st en \<and> \<not> F)) H" for r
  proof (cases r)
    case (Inl x)
    have absent: "(x = ENOENT \<or> x = ENOTDIR) \<and> D (host s) (store s) (eng s)"
      if s: "holds F C s \<and> Inl x = k_lstat (host s) p" for s
    proof -
      have p: "clean p" "p \<noteq> []" "direct (host s) p" "is_dir (host s)" "C (host s) (store s) (eng s)"
        using s pre by (auto simp: holds_def)
      have none: "get (host s) p = None"
        using k_lstat_direct [OF p(1,3,4)] s by (cases "get (host s) p") (auto, metis sum.distinct(1))
      have "x = ENOENT \<or> x = ENOTDIR"
        using s resolve_blocked [OF p(1,3,4), of False] resolve_ok [OF p(1,2)] none
        by (cases "dir_at (host s) (butlast p)") (auto simp: k_lstat_def)
      with D [OF p(5)] put_missing [OF p(2) none] show ?thesis by simp
    qed
    show ?thesis
    proof (rule hoare_const [where c = "x = ENOENT \<or> x = ENOTDIR"])
      assume x: "x = ENOENT \<or> x = ENOTDIR"
      have "hoare (\<lambda>s. holds F C s \<and> Inl x = k_lstat (host s) p) (ret ()) (\<lambda>_. holds F D)
          (\<lambda>_. holds F (\<lambda>h st en. C h st en \<and> \<not> F)) H"
        by (rule hoare_ret) (metis absent holds_def)
      with x show "hoare (\<lambda>s. holds F C s \<and> r = k_lstat (host s) p)
          (case r of Inl x \<Rightarrow> if x = ENOENT \<or> x = ENOTDIR then ret () else fail x
           | Inr n \<Rightarrow> if is_dir n then sys_rmdir p else sys_unlink p) (\<lambda>_. holds F D)
          (\<lambda>_. holds F (\<lambda>h st en. C h st en \<and> \<not> F)) H"
        by (simp only: Inl sum.case if_True)
    next
      fix s assume "holds F C s \<and> r = k_lstat (host s) p"
      then have "holds F C s \<and> Inl x = k_lstat (host s) p" using Inl by simp
      from absent [OF this] show "x = ENOENT \<or> x = ENOTDIR" ..
    qed
  next
    case (Inr n)
    have present: "\<not> is_dir n \<and> get (host s) p \<noteq> None" if s: "holds F C s \<and> Inr n = k_lstat (host s) p" for s
    proof -
      have p: "clean p" "direct (host s) p" "is_dir (host s)" "\<not> dir_at (host s) p"
        using s pre by (auto simp: holds_def)
      with k_lstat_direct [OF p(1-3), of n] s show ?thesis by (auto simp: dir_at_def)
    qed
    show ?thesis
    proof (rule hoare_const [where c = "\<not> is_dir n"])
      assume n: "\<not> is_dir n"
      have "hoare (\<lambda>s. holds F C s \<and> Inr n = k_lstat (host s) p) (sys_unlink p) (\<lambda>_. holds F D)
          (\<lambda>_. holds F (\<lambda>h st en. C h st en \<and> \<not> F)) H"
      proof (rule hoare_pre [OF unlink])
        fix s assume s: "holds F C s \<and> Inr n = k_lstat (host s) p"
        from present [OF s] have "get (host s) p \<noteq> None" ..
        with s show "holds F (\<lambda>h st en. C h st en \<and> get h p \<noteq> None) s" by (simp add: holds_def)
      qed
      with n show "hoare (\<lambda>s. holds F C s \<and> r = k_lstat (host s) p)
          (case r of Inl x \<Rightarrow> if x = ENOENT \<or> x = ENOTDIR then ret () else fail x
           | Inr n \<Rightarrow> if is_dir n then sys_rmdir p else sys_unlink p) (\<lambda>_. holds F D)
          (\<lambda>_. holds F (\<lambda>h st en. C h st en \<and> \<not> F)) H"
        by (simp only: Inr sum.case if_False)
    next
      fix s assume "holds F C s \<and> r = k_lstat (host s) p"
      then have "holds F C s \<and> Inr n = k_lstat (host s) p" using Inr by simp
      from present [OF this] show "\<not> is_dir n" ..
    qed
  qed
  show ?thesis
    unfolding fs_remove_def by (rule hoare_gets_bnd, rule found)
qed

text \<open>A removal whose outcome is ignored.\<close>

lemma fs_remove_attempt_spec:
  assumes pre: "\<And>h st en. C h st en \<Longrightarrow> clean p \<and> p \<noteq> [] \<and> dir_at h (butlast p)"
    and put: "\<And>h st en. C h st en \<Longrightarrow> C (put h p None) st en"
  shows "hoare (holds F C) (attempt (fs_remove p)) (\<lambda>_. holds F C) E H"
proof -
  have res: "resolve h p False = Inr p" if "C h st en" for h st en
    using pre [OF that] by (simp add: resolve_ok)
  have rmdir: "hoare (holds F C) (sys_rmdir p) (\<lambda>_. holds F C) (\<lambda>_. holds F C) H"
    unfolding sys_rmdir_def
    by (rule weaken_error [OF sys_spec [where D = C]])
      (auto simp: k_rmdir_def res split: option.splits node.splits if_splits intro: put)
  have unlink: "hoare (holds F C) (sys_unlink p) (\<lambda>_. holds F C) (\<lambda>_. holds F C) H"
    unfolding sys_unlink_def
    by (rule weaken_error [OF sys_spec [where D = C]])
      (auto simp: k_unlink_def res split: option.splits node.splits if_splits intro: put)
  have "hoare (\<lambda>s. holds F C s \<and> r = k_lstat (host s) p)
     (case r of Inl x \<Rightarrow> if x = ENOENT \<or> x = ENOTDIR then ret () else fail x
      | Inr n \<Rightarrow> if is_dir n then sys_rmdir p else sys_unlink p) (\<lambda>_. holds F C) (\<lambda>_. holds F C) H" for r
    by (cases r) (auto intro!: hoare_ret hoare_fail hoare_pre [OF rmdir] hoare_pre [OF unlink])
  then show ?thesis
    unfolding fs_remove_def by (intro hoare_attempt hoare_gets_bnd)
qed

text \<open>The flush of a tree changes nothing.\<close>

lemma hoare_ignore: "hoare P m (\<lambda>_. P) (\<lambda>_. P) H \<Longrightarrow> hoare P (attempt m) (\<lambda>_. P) E H"
  by (rule hoare_attempt)

end
