(* ===== verification/Staging.thy ===== *)
theory Staging
  imports Overlay Machine_Specs
begin

text \<open>
  The publication protocol of the engine: journal, stage, flush, publish by a rename, finish. The
  locale \<open>preparing\<close> is the contract between \<open>publish_staged_operation\<close> and the closure it is given:
  the closure creates the staged entry and touches nothing else.
\<close>

section \<open>Small programs\<close>

lemma inject_spec:
  "hoare (holds F C) (inject e boundary) (\<lambda>_. holds F C)
     (\<lambda>_. holds F (\<lambda>h st en. C h st en \<and> (F \<longrightarrow> tribios_io_fault e \<noteq> None))) H"
  using inject_free [of e boundary]
  by (cases "tribios_io_fault e") (auto simp: inject_def Let_def holds_def intro!: hoare_ret hoare_fail)

lemma flush_tree_no_faults:
  "fs = [] \<Longrightarrow> flush_tree n fs = (0, [])"
  and flush_entries_no_faults:
  "fs = [] \<Longrightarrow> flush_entries cs fs = (0, [])"
  by (induction n fs and cs fs rule: flush_tree_flush_entries.induct) auto

lemma sync_entry_tree_spec:
  "hoare (holds F C) (sync_entry_tree p) (\<lambda>_. holds F C)
     (\<lambda>x. holds F (\<lambda>h st en. C h st en \<and> (F \<longrightarrow> k_lstat h p = Inl x))) H"
  by (auto simp: hoare_def sync_entry_tree_def holds_def flush_tree_no_faults split: sum.splits prod.splits)

definition same_engine :: "engine \<Rightarrow> engine \<Rightarrow> bool" where
  "same_engine a b \<longleftrightarrow> a\<lparr>directory_entries_cache := []\<rparr> = b\<lparr>directory_entries_cache := []\<rparr>"

lemma same_engine_refl [simp]: "same_engine a a"
  by (simp add: same_engine_def)

lemma same_engine_sym: "same_engine a b \<Longrightarrow> same_engine b a"
  by (simp add: same_engine_def)

lemma same_engine_trans: "same_engine a b \<Longrightarrow> same_engine b c \<Longrightarrow> same_engine a c"
  by (simp add: same_engine_def)

lemma same_engine_cache [simp]:
  "same_engine (a\<lparr>directory_entries_cache := c\<rparr>) b = same_engine a b"
  by (simp add: same_engine_def)

lemma same_engineD:
  assumes "same_engine a b"
  shows "upper_dir a = upper_dir b" "base_dir a = base_dir b" "tombstones a = tombstones b"
    "workspace a = workspace b" "handles a = handles b" "inode_salt a = inode_salt b"
    "workspace_dir a = workspace_dir b" "recovery_dir a = recovery_dir b"
  using assms by (cases a; cases b; simp add: same_engine_def workspace_dir_def recovery_dir_def)+

lemma same_engine_tombstones:
  "same_engine a b \<Longrightarrow> same_engine (a\<lparr>tombstones := f (tombstones a)\<rparr>) (b\<lparr>tombstones := f (tombstones b)\<rparr>)"
  by (cases a; cases b) (simp add: same_engine_def)

lemma forget_spec:
  assumes "\<And>h st en c. C h st en \<Longrightarrow> C h st (en\<lparr>directory_entries_cache := c\<rparr>)"
  shows "hoare (holds F C) (forget_cached_directory_entries rel) (\<lambda>_. holds F C) E H"
  unfolding forget_cached_directory_entries_def on_engine_def
  by (rule on_engine_spec) (rule assms)

section \<open>The contract of a closure\<close>

text \<open>An assertion that does not depend on what lies at or under \<open>stage\<close>.\<close>

definition free_below :: "path \<Rightarrow> (node \<Rightarrow> store \<Rightarrow> engine \<Rightarrow> bool) \<Rightarrow> bool" where
  "free_below stage K \<longleftrightarrow> (\<forall>h st en q v. K h st en \<longrightarrow> prefix stage q \<longrightarrow> K (put h q v) st en)"

locale preparing =
  fixes prepare :: "path \<Rightarrow> 'a io"
    and ready :: "node \<Rightarrow> engine \<Rightarrow> path \<Rightarrow> bool"
    and staged :: "node \<Rightarrow> bool"
    and returned :: 'a
  assumes prepare_stages:
    "(\<And>h st en. K h st en \<Longrightarrow> clean stage \<and> stage \<noteq> [] \<and> dir_at h (butlast stage) \<and> ready h en stage) \<Longrightarrow>
     free_below stage K \<Longrightarrow>
     hoare (holds F (\<lambda>h st en. K h st en \<and> get h stage = None)) (prepare stage)
       (\<lambda>a. holds F (\<lambda>h st en. K h st en \<and> a = returned \<and> (\<exists>n. get h stage = Some n \<and> staged n)))
       (\<lambda>_. holds F (\<lambda>h st en. K h st en \<and> \<not> F)) H"

section \<open>Closures that create a new entry\<close>

lemma new_entry_stages:
  assumes K: "\<And>h st en. K h st en \<Longrightarrow> clean stage \<and> stage \<noteq> [] \<and> dir_at h (butlast stage)"
    and free: "free_below stage K" and staged: "\<And>m. perm m = mode \<Longrightarrow> staged (mk m)"
  shows "hoare (holds F (\<lambda>h st en. K h st en \<and> get h stage = None)) (new_entry e stage mode mk)
       (\<lambda>_. holds F (\<lambda>h st en. K h st en \<and> (\<exists>n. get h stage = Some n \<and> staged n)))
       (\<lambda>_. holds F (\<lambda>h st en. K h st en \<and> \<not> F)) H"
proof (rule weaken_error [OF new_entry_spec])
  fix h h' st en m
  assume h: "K h st en \<and> get h stage = None" "perm m = mode" "k_create h stage (mk m) = Inr h'"
  with K have p: "clean stage" "stage \<noteq> []" "dir_at h (butlast stage)" by blast+
  with h have "h' = put h stage (Some (mk m))" by (simp add: k_create_ok)
  with p h free staged show "K h' st en \<and> (\<exists>n. get h' stage = Some n \<and> staged n)"
    by (auto simp: free_below_def get_put_same)
next
  fix x h st en
  assume h: "(K h st en \<and> get h stage = None) \<and> (F \<longrightarrow> (\<exists>m. k_create h stage (mk m) = Inl x))"
  with K [of h st en] have "k_create h stage (mk m) = Inr (put h stage (Some (mk m)))" for m
    by (simp add: k_create_ok)
  with h show "K h st en \<and> \<not> F" by auto
qed

interpretation create_stage:
  preparing "\<lambda>stage. sys_create_file e stage mode" "\<lambda>_ _ _. True"
    "\<lambda>n. \<exists>m. n = File m [] \<and> perm m = and mode (not (umask e))" "()" for e mode
  by unfold_locales (auto simp: sys_create_file_def intro!: new_entry_stages)

interpretation mkdir_stage:
  preparing "\<lambda>stage. sys_mkdir e stage mode" "\<lambda>_ _ _. True"
    "\<lambda>n. \<exists>m. n = Dir m [] \<and> perm m = and mode (not (umask e))" "()" for e mode
  by unfold_locales (auto simp: sys_mkdir_def intro!: new_entry_stages)

interpretation symlink_stage:
  preparing "\<lambda>stage. sys_symlink e target stage" "\<lambda>_ _ _. target \<noteq> []" "\<lambda>n. \<exists>m. n = Link m target" "()" for e target
proof
  fix K stage F H
  assume K: "\<And>h st en. K h st en \<Longrightarrow> clean stage \<and> stage \<noteq> [] \<and> dir_at h (butlast stage) \<and> target \<noteq> []"
    and free: "free_below stage K"
  show "hoare (holds F (\<lambda>h st en. K h st en \<and> get h stage = None)) (sys_symlink e target stage)
       (\<lambda>a. holds F (\<lambda>h st en. K h st en \<and> a = () \<and> (\<exists>n. get h stage = Some n \<and> (\<exists>m. n = Link m target))))
       (\<lambda>_. holds F (\<lambda>h st en. K h st en \<and> \<not> F)) H"
  proof (cases "target = []")
    case True
    with K show ?thesis by (intro hoare_false) (auto simp: holds_def)
  next
    case False
    with K free show ?thesis
      unfolding sys_symlink_def by (auto intro!: new_entry_stages)
  qed
qed

section \<open>Closures that copy a visible file and edit the copy\<close>

text \<open>The staged file and an assertion on its attributes and content.\<close>

definition file_staged ::
  "(node \<Rightarrow> store \<Rightarrow> engine \<Rightarrow> bool) \<Rightarrow> path \<Rightarrow> (meta \<Rightarrow> string \<Rightarrow> bool) \<Rightarrow> node \<Rightarrow> store \<Rightarrow> engine \<Rightarrow> bool"
where
  "file_staged K stage P h st en \<longleftrightarrow> K h st en \<and> (\<exists>m c. get h stage = Some (File m c) \<and> P m c)"

definition stage_ok :: "(node \<Rightarrow> store \<Rightarrow> engine \<Rightarrow> bool) \<Rightarrow> path \<Rightarrow> bool" where
  "stage_ok K stage \<longleftrightarrow>
     free_below stage K \<and> (\<forall>h st en. K h st en \<longrightarrow> clean stage \<and> stage \<noteq> [] \<and> dir_at h (butlast stage))"

lemma stage_okD:
  assumes "stage_ok K stage" "K h st en"
  shows "clean stage" "stage \<noteq> []" "dir_at h (butlast stage)" "K (put h stage v) st en"
    "get (put h stage v) stage = v"
  using assms unfolding stage_ok_def free_below_def by (blast, blast, blast, blast, metis get_put_same)

lemma file_staged_put:
  assumes "stage_ok K stage" "file_staged K stage P h st en" "Q m c"
  shows "file_staged K stage Q (put h stage (Some (File m c))) st en"
  using assms stage_okD [OF assms(1), of h st en] by (auto simp: file_staged_def)

lemma stage_edit:
  assumes ok: "stage_ok K stage" and PQ: "\<And>m c now. P m c \<Longrightarrow> Q (m\<lparr>mtime := now, ctime := now\<rparr>) (f c)"
  shows "hoare (holds F (file_staged K stage P)) (sys_edit stage f) (\<lambda>_. holds F (file_staged K stage Q))
     (\<lambda>_. holds F (\<lambda>h st en. K h st en \<and> \<not> F)) H"
proof -
  have run: "\<exists>m c. P m c \<and> k_edit h stage f now = Inr (put h stage (Some (File (m\<lparr>mtime := now, ctime := now\<rparr>) (f c))))"
    if "file_staged K stage P h st en" for h st en now
    using that stage_okD [OF ok, of h st en] unfolding file_staged_def by (metis k_edit_ok)
  show ?thesis
  proof (rule weaken_error [OF sys_edit_spec])
    fix h h' st en now assume h: "file_staged K stage P h st en" "k_edit h stage f now = Inr h'"
    with run [OF h(1), of now] show "file_staged K stage Q h' st en"
      by (auto intro: file_staged_put [OF ok h(1)] PQ)
  next
    fix x h st en
    assume a: "file_staged K stage P h st en \<and> (F \<longrightarrow> (\<exists>now. k_edit h stage f now = Inl x))"
    have "\<not> F"
    proof
      assume F
      with a obtain now where "k_edit h stage f now = Inl x" by blast
      with a run [of h st en now] show False by auto
    qed
    with a show "K h st en \<and> \<not> F" by (auto simp: file_staged_def)
  qed
qed

lemma stage_set_meta:
  assumes ok: "stage_ok K stage" and PQ: "\<And>m c. P m c \<Longrightarrow> Q (f m) c"
  shows "hoare (holds F (file_staged K stage P)) (sys (\<lambda>r. k_set_meta r stage f))
     (\<lambda>_. holds F (file_staged K stage Q)) (\<lambda>_. holds F (\<lambda>h st en. K h st en \<and> \<not> F)) H"
proof -
  have run: "\<exists>m c. P m c \<and> k_set_meta h stage f = Inr (put h stage (Some (File (f m) c)))"
    if staged: "file_staged K stage P h st en" for h st en
  proof -
    from staged obtain m c where g: "get h stage = Some (File m c)" "P m c" "K h st en"
      by (auto simp: file_staged_def)
    with stage_okD [OF ok g(3)] show ?thesis by (auto simp: k_set_meta_ok)
  qed
  show ?thesis
  proof (rule weaken_error [OF sys_spec])
    fix h h' st en assume h: "file_staged K stage P h st en" "k_set_meta h stage f = Inr h'"
    with run [OF h(1)] show "file_staged K stage Q h' st en"
      by (auto intro: file_staged_put [OF ok h(1)] PQ)
  next
    fix x h st en
    assume a: "file_staged K stage P h st en \<and> (F \<longrightarrow> k_set_meta h stage f = Inl x)"
    then have "F \<Longrightarrow> False" using run [of h st en] by auto
    with a show "K h st en \<and> \<not> F" by (auto simp: file_staged_def)
  qed
qed

lemmas stage_chmod = stage_set_meta [where f = "\<lambda>m. m\<lparr>perm := mode\<rparr>" for mode, folded sys_chmod_def]
lemmas stage_utimes =
  stage_set_meta [where f = "\<lambda>x. x\<lparr>atime := a, mtime := m, mtime_ns := 0\<rparr>" for a m, folded sys_utimes_def]

text \<open>The layer where a closure finds the entry it copies.\<close>

definition entry_at :: "engine \<Rightarrow> path \<Rightarrow> layer \<Rightarrow> node \<Rightarrow> engine \<Rightarrow> path \<Rightarrow> bool" where
  "entry_at en0 p L h en stage \<longleftrightarrow>
     same_engine en en0 \<and> layout en h \<and> plain en h p \<and> clean p \<and> layer_at en h p = L"

lemma layer_path_same: "same_engine en en0 \<Longrightarrow> layer_path en rel L = layer_path en0 rel L"
  by (cases L) (simp_all add: upper_path_def base_path_def same_engineD)

lemma k_stat_present:
  assumes "clean q" "get h q = Some n" "\<not> is_link n"
  shows "k_stat h q = Inr n"
proof (cases "q = []")
  case False
  then have "dir_at h (butlast q)"
    using assms(2) get_below_dir [of h "butlast q" "last q" "[]"] by simp
  with assms False show ?thesis by (simp add: k_stat_def resolve_follow_ok)
qed (use assms in \<open>simp add: k_stat_def\<close>)

lemma entry_at_stat:
  assumes "entry_at en0 p L h en stage" "layer_node L = Some n" "\<not> is_link n"
  shows "k_stat h (layer_path en0 (unsegs p) L) = Inr n"
proof -
  from assms(1) have e: "layout en h" "clean p" "layer_at en h p = L" "same_engine en en0"
    by (auto simp: entry_at_def)
  have "k_stat h (layer_path en (unsegs p) L) = Inr n"
    using e(2,3) assms(2,3) k_stat_present layout_clean [OF e(1)]
    by (cases L) (auto simp: layer_at_def upper_path_def base_path_def split: option.splits if_splits)
  then show ?thesis by (simp only: layer_path_same [OF e(4)])
qed

lemma entry_at_find:
  assumes "entry_at en0 p L (host s) (eng s) stage"
  shows "find_visible_entry_layer (unsegs p) s = L"
  using assms find_layer [of s p] by (auto simp: entry_at_def)

lemma copy_file_stages:
  assumes ok: "stage_ok K stage" and source_file: "\<And>h st en. K h st en \<Longrightarrow> k_stat h source = Inr (File sm c)"
  shows "hoare (holds F (\<lambda>h st en. K h st en \<and> get h stage = None)) (fs_copy_file e source stage False)
    (\<lambda>_. holds F (file_staged K stage (\<lambda>m c'. c' = c)))
    (\<lambda>_. holds F (\<lambda>h st en. K h st en \<and> \<not> F)) H"
proof -
  let ?A = "\<lambda>h st en. K h st en \<and> get h stage = None"
  let ?E = "\<lambda>_. holds F (\<lambda>h st en. K h st en \<and> \<not> F)"
  have new: "hoare (holds F ?A) (new_entry e stage mode (\<lambda>m. File m [])) (\<lambda>_. holds F (file_staged K stage (\<lambda>m c. c = [])))
      ?E H" for mode
    by (rule hoare_post [OF new_entry_stages [where staged = "\<lambda>n. \<exists>m. n = File m []"]])
      (use ok in \<open>auto simp: stage_ok_def holds_def file_staged_def\<close>)
  have create: "hoare (\<lambda>s. holds F ?A s \<and> old = k_stat (host s) stage)
      (case old of Inl _ \<Rightarrow> new_entry e stage (perm sm) (\<lambda>m. File m [])
       | Inr _ \<Rightarrow> if False then bnd (sys_edit stage (\<lambda>_. [])) (\<lambda>_. sys_chmod stage (perm sm)) else fail EEXIST)
      (\<lambda>_. holds F (file_staged K stage (\<lambda>m c. c = []))) ?E H" for old
  proof (rule hoare_const [where c = "old = Inl ENOENT"])
    fix s assume s: "holds F ?A s \<and> old = k_stat (host s) stage"
    then show "old = Inl ENOENT"
      using stage_okD [OF ok, of "host s" "store s" "eng s"] k_stat_absent [of stage "host s"]
      by (auto simp: holds_def)
  next
    assume "old = Inl ENOENT"
    then show "hoare (\<lambda>s. holds F ?A s \<and> old = k_stat (host s) stage)
      (case old of Inl _ \<Rightarrow> new_entry e stage (perm sm) (\<lambda>m. File m [])
       | Inr _ \<Rightarrow> if False then bnd (sys_edit stage (\<lambda>_. [])) (\<lambda>_. sys_chmod stage (perm sm)) else fail EEXIST)
      (\<lambda>_. holds F (file_staged K stage (\<lambda>m c. c = []))) ?E H"
      by (auto intro!: hoare_pre [OF new])
  qed
  have source: "hoare (holds F ?A) (from_host (\<lambda>r. k_stat r source))
      (\<lambda>n. holds F (\<lambda>h st en. ?A h st en \<and> n = File sm c)) ?E H"
    by (rule weaken_error [OF from_host_spec]) (auto dest!: source_file)
  have copy: "hoare (holds F (\<lambda>h st en. ?A h st en \<and> n = File sm c))
     (case n of
         File sm content \<Rightarrow>
           bnd (gets (\<lambda>s. k_stat (host s) stage)) (\<lambda>old.
           bnd (case old of
                  Inl _ \<Rightarrow> new_entry e stage (perm sm) (\<lambda>m. File m [])
                | Inr _ \<Rightarrow>
                    if False
                    then bnd (sys_edit stage (\<lambda>_. [])) (\<lambda>_. sys_chmod stage (perm sm))
                    else fail EEXIST) (\<lambda>_.
           sys_edit stage (\<lambda>_. content)))
       | _ \<Rightarrow> fail EINVAL) (\<lambda>_. holds F (file_staged K stage (\<lambda>m c'. c' = c))) ?E H" for n
  proof (rule hoare_const [where c = "n = File sm c"])
    assume n: "n = File sm c"
    have "hoare (holds F ?A)
      (bnd (gets (\<lambda>s. k_stat (host s) stage)) (\<lambda>old.
           bnd (case old of
                  Inl _ \<Rightarrow> new_entry e stage (perm sm) (\<lambda>m. File m [])
                | Inr _ \<Rightarrow>
                    if False
                    then bnd (sys_edit stage (\<lambda>_. [])) (\<lambda>_. sys_chmod stage (perm sm))
                    else fail EEXIST) (\<lambda>_.
           sys_edit stage (\<lambda>_. c)))) (\<lambda>_. holds F (file_staged K stage (\<lambda>m c'. c' = c))) ?E H"
      by (rule hoare_gets_bnd, rule hoare_bnd [OF create], rule stage_edit [OF ok]) simp
    with n show ?thesis by (auto elim!: hoare_pre simp: holds_def)
  qed (auto simp: holds_def)
  have opened: "hoare (holds F ?A) (kernel_call :: unit io) (\<lambda>_. holds F ?A) ?E H"
    by (rule weaken_error [OF kernel_call_spec]) simp
  show ?thesis
    unfolding fs_copy_file_def by (rule hoare_bnd [OF opened hoare_bnd [OF source copy]])
qed

lemma materialize_stages:
  assumes ok: "stage_ok K stage" and at: "\<And>h st en. K h st en \<Longrightarrow> entry_at en0 p L h en stage"
    and L: "layer_node L = Some (File sm c)"
  shows "hoare (holds F (\<lambda>h st en. K h st en \<and> get h stage = None)) (materialize_visible_entry_at e (unsegs p) stage)
    (\<lambda>_. holds F (file_staged K stage (\<lambda>m c'. perm m = perm sm \<and> c' = c)))
    (\<lambda>_. holds F (\<lambda>h st en. K h st en \<and> \<not> F)) H"
proof -
  let ?A = "\<lambda>h st en. K h st en \<and> get h stage = None"
  let ?E = "\<lambda>_. holds F (\<lambda>h st en. K h st en \<and> \<not> F)"
  let ?Q = "\<lambda>_. holds F (file_staged K stage (\<lambda>m c'. perm m = perm sm \<and> c' = c))"
  let ?source = "layer_path en0 (unsegs p) L"
  have "hoare (holds F ?A)
      (bnd (catch (fs_copy_file e ?source stage False) (\<lambda>_. fail EIO)) (\<lambda>_.
       bnd (sys_chmod stage (perm sm)) (\<lambda>_. sys_utimes stage (atime sm) (mtime sm)))) ?Q ?E H"
  proof (rule hoare_bnd [OF hoare_catch [OF copy_file_stages [OF ok] hoare_fail]])
    show "k_stat h ?source = Inr (File sm c)" if "K h st en" for h st en
      using entry_at_stat [OF at [OF that] L] by simp
    show "hoare (holds F (file_staged K stage (\<lambda>m c'. c' = c)))
      (bnd (sys_chmod stage (perm sm)) (\<lambda>_. sys_utimes stage (atime sm) (mtime sm))) ?Q ?E H"
      by (rule hoare_bnd [OF stage_chmod [OF ok, where Q = "\<lambda>m c'. perm m = perm sm \<and> c' = c"] stage_utimes [OF ok]])
        auto
  qed
  moreover have "materialize (Suc fuel) e (unsegs p) stage s =
      (bnd (catch (fs_copy_file e ?source stage False) (\<lambda>_. fail EIO)) (\<lambda>_.
       bnd (sys_chmod stage (perm sm)) (\<lambda>_. sys_utimes stage (atime sm) (mtime sm)))) s"
    if s: "holds F ?A s" for fuel s
  proof -
    have e: "entry_at en0 p L (host s) (eng s) stage" using s at by (auto simp: holds_def)
    then have "layer_path (eng s) (unsegs p) L = ?source"
      by (intro layer_path_same) (simp add: entry_at_def)
    with entry_at_find [OF e] L show ?thesis by (simp add: run_bnd [of "gets _"] run_gets)
  qed
  ultimately show ?thesis
    unfolding materialize_visible_entry_at_def hoare_def by (simp add: run_bnd [of "gets _"] run_gets)
qed

lemma stage_okI:
  "(\<And>h st en. K h st en \<Longrightarrow> clean stage \<and> stage \<noteq> [] \<and> dir_at h (butlast stage) \<and> R h en stage) \<Longrightarrow>
   free_below stage K \<Longrightarrow> stage_ok K stage"
  unfolding stage_ok_def by blast

lemma file_staged_final:
  assumes "\<And>m c. P m c \<Longrightarrow> S (File m c)"
  shows "holds F (file_staged K stage P) s \<Longrightarrow>
         holds F (\<lambda>h st en. K h st en \<and> (\<exists>n. get h stage = Some n \<and> S n)) s"
  using assms by (auto simp: holds_def file_staged_def)

section \<open>The closures of the engine on regular files\<close>

definition resized :: "nat \<Rightarrow> string \<Rightarrow> string" where
  "resized n c = take n c @ replicate (n - length c) (CHR 0x00)"

definition file_at :: "engine \<Rightarrow> path \<Rightarrow> layer \<Rightarrow> perm \<Rightarrow> string \<Rightarrow> node \<Rightarrow> engine \<Rightarrow> path \<Rightarrow> bool" where
  "file_at en0 p L pm c h en stage \<longleftrightarrow>
     entry_at en0 p L h en stage \<and> (\<exists>sm. layer_node L = Some (File sm c) \<and> perm sm = pm)"

lemma edit_closure:
  assumes K: "\<And>h st en. K h st en \<Longrightarrow> clean stage \<and> stage \<noteq> [] \<and> dir_at h (butlast stage) \<and> file_at en0 p L pm c h en stage"
    and free: "free_below stage K"
    and edit: "\<And>P. P = (\<lambda>m c'. perm m = pm \<and> c' = c) \<Longrightarrow> stage_ok K stage \<Longrightarrow>
      hoare (holds F (file_staged K stage P)) edit (\<lambda>a. holds F (\<lambda>h st en. file_staged K stage Q h st en \<and> a = r))
        (\<lambda>_. holds F (\<lambda>h st en. K h st en \<and> \<not> F)) H"
    and final: "\<And>m c. Q m c \<Longrightarrow> S (File m c)"
  shows "hoare (holds F (\<lambda>h st en. K h st en \<and> get h stage = None))
      (bnd (materialize_visible_entry_at e (unsegs p) stage) (\<lambda>_. edit))
      (\<lambda>a. holds F (\<lambda>h st en. K h st en \<and> a = r \<and> (\<exists>n. get h stage = Some n \<and> S n)))
      (\<lambda>_. holds F (\<lambda>h st en. K h st en \<and> \<not> F)) H"
proof (cases "\<exists>sm. layer_node L = Some (File sm c) \<and> perm sm = pm")
  case True
  then obtain sm where L: "layer_node L = Some (File sm c)" "perm sm = pm" by blast
  have ok: "stage_ok K stage" using K free by (rule stage_okI)
  have at: "\<And>h st en. K h st en \<Longrightarrow> entry_at en0 p L h en stage" using K unfolding file_at_def by blast
  have "hoare (holds F (\<lambda>h st en. K h st en \<and> get h stage = None))
      (bnd (materialize_visible_entry_at e (unsegs p) stage) (\<lambda>_. edit))
      (\<lambda>a. holds F (\<lambda>h st en. file_staged K stage Q h st en \<and> a = r))
      (\<lambda>_. holds F (\<lambda>h st en. K h st en \<and> \<not> F)) H"
    by (rule hoare_bnd [OF materialize_stages [OF ok at L(1)] edit [OF _ ok]]) (simp_all add: L(2))
  then show ?thesis
    by (rule hoare_post) (auto simp: holds_def file_staged_def intro: final)
next
  case False
  with K show ?thesis by (intro hoare_false) (auto simp: holds_def file_at_def)
qed

lemma unit_result: "hoare P m (\<lambda>_. holds F C) E H \<Longrightarrow> hoare P m (\<lambda>a. holds F (\<lambda>h st en. C h st en \<and> a = ())) E H"
  by (erule hoare_post) (simp add: holds_def)

interpretation chmod_stage:
  preparing "\<lambda>stage. bnd (materialize_visible_entry_at e (unsegs p) stage) (\<lambda>_. sys_chmod stage mode)"
    "file_at en0 p L pm c" "\<lambda>n. \<exists>m. n = File m c \<and> perm m = mode" "()"
  for e p en0 L pm c mode
  by (unfold_locales, rule edit_closure [where Q = "\<lambda>m c'. perm m = mode \<and> c' = c"], blast, assumption,
      rule unit_result, rule stage_chmod, assumption, simp_all)

interpretation utimens_stage:
  preparing "\<lambda>stage. bnd (materialize_visible_entry_at e (unsegs p) stage) (\<lambda>_. sys_utimes stage a t)"
    "file_at en0 p L pm c" "\<lambda>n. \<exists>m. n = File m c \<and> perm m = pm \<and> atime m = a \<and> mtime m = t" "()"
  for e p en0 L pm c a t
  by (unfold_locales,
      rule edit_closure [where Q = "\<lambda>m c'. perm m = pm \<and> c' = c \<and> atime m = a \<and> mtime m = t"],
      blast, assumption, rule unit_result, rule stage_utimes, assumption, simp_all)

lemma sys_truncate_resized:
  "0 \<le> sint new_size \<Longrightarrow> sys_truncate p new_size = sys_edit p (resized (unat new_size))"
  by (simp add: sys_truncate_def resized_def [abs_def])

text \<open>Without its precondition a closure has no assertion to start from.\<close>

lemma preparing_trivial: "(\<And>h en stage. \<not> ready h en stage) \<Longrightarrow> preparing prepare ready staged r"
  by (unfold_locales, rule hoare_false, unfold holds_def, blast)

lemma truncate_closure:
  "preparing (\<lambda>stage. bnd (materialize_visible_entry_at e (unsegs p) stage) (\<lambda>_. sys_truncate stage new_size))
    (\<lambda>h en stage. file_at en0 p L pm c h en stage \<and> 0 \<le> sint new_size)
    (\<lambda>n. \<exists>m. n = File m (resized (unat new_size) c) \<and> perm m = pm) ()"
proof (cases "0 \<le> sint new_size")
  case True
  show ?thesis
    unfolding sys_truncate_resized [OF True]
    by (unfold_locales,
        rule edit_closure [where Q = "\<lambda>m c'. perm m = pm \<and> c' = resized (unat new_size) c"], blast, assumption,
        rule unit_result, rule stage_edit, assumption, simp_all)
qed (simp add: preparing_trivial)

interpretation truncate_stage:
  preparing "\<lambda>stage. bnd (materialize_visible_entry_at e (unsegs p) stage) (\<lambda>_. sys_truncate stage new_size)"
    "\<lambda>h en stage. file_at en0 p L pm c h en stage \<and> 0 \<le> sint new_size"
    "\<lambda>n. \<exists>m. n = File m (resized (unat new_size) c) \<and> perm m = pm" "()"
  for e p en0 L pm c new_size
  by (rule truncate_closure)

lemma stage_pwrite:
  assumes ok: "stage_ok K stage" and off: "0 \<le> sint offset"
  shows "hoare (holds F (file_staged K stage (\<lambda>m c'. perm m = pm \<and> c' = c))) (sys_pwrite stage data offset)
    (\<lambda>a. holds F (\<lambda>h st en. file_staged K stage (\<lambda>m c'. perm m = pm \<and> c' = pwrite_bytes (unat offset) data c) h st en
           \<and> a = length data))
    (\<lambda>_. holds F (\<lambda>h st en. K h st en \<and> \<not> F)) H"
proof -
  let ?P = "file_staged K stage (\<lambda>m c'. perm m = pm \<and> c' = c)"
  let ?Q = "file_staged K stage (\<lambda>m c'. perm m = pm \<and> c' = pwrite_bytes (unat offset) data c)"
  let ?E = "\<lambda>_. holds F (\<lambda>h st en. K h st en \<and> \<not> F)"
  have stat: "\<exists>m. k_stat h stage = Inr (File m c) \<and> K h st en" if "?P h st en" for h st en
    using that stage_okD [OF ok] by (auto simp: file_staged_def intro!: k_stat_present)
  have k: "hoare (holds F ?P) (kernel_call :: unit io) (\<lambda>_. holds F ?P) ?E H"
    by (rule weaken_error [OF kernel_call_spec]) (auto simp: file_staged_def)
  have f: "hoare (holds F ?P) (from_host (\<lambda>r. k_stat r stage)) (\<lambda>n. holds F (\<lambda>h st en. ?P h st en \<and> \<not> is_dir n)) ?E H"
    by (rule weaken_error [OF from_host_spec]) (auto dest!: stat)
  have r: "hoare (holds F (\<lambda>h st en. ?P h st en \<and> \<not> is_dir n))
      (if is_dir n \<and> and O_WRONLY O_ACCMODE \<noteq> O_RDONLY then fail EISDIR else ret n) (\<lambda>_. holds F ?P) ?E H" for n :: node
    by (auto simp: hoare_def prog_defs holds_def)
  have opened: "hoare (holds F ?P) (sys_open stage O_WRONLY) (\<lambda>_. holds F ?P) ?E H"
    unfolding sys_open_def by (rule hoare_bnd [OF k hoare_bnd [OF f r]])
  have written: "hoare (holds F ?P) (bnd (sys_edit stage (pwrite_bytes (unat offset) data)) (\<lambda>_. ret (length data)))
      (\<lambda>a. holds F (\<lambda>h st en. ?Q h st en \<and> a = length data)) ?E H"
    by (rule hoare_bnd [OF stage_edit [OF ok, where Q = "\<lambda>m c'. perm m = pm \<and> c' = pwrite_bytes (unat offset) data c"] hoare_ret])
      (auto simp: holds_def)
  show ?thesis
    unfolding sys_pwrite_def using off hoare_bnd [OF opened written] by simp
qed

lemma write_closure:
  "preparing (\<lambda>stage. bnd (materialize_visible_entry_at e (unsegs p) stage) (\<lambda>_. sys_pwrite stage data offset))
    (\<lambda>h en stage. file_at en0 p L pm c h en stage \<and> 0 \<le> sint offset)
    (\<lambda>n. \<exists>m. n = File m (pwrite_bytes (unat offset) data c) \<and> perm m = pm) (length data)"
proof (cases "0 \<le> sint offset")
  case True
  show ?thesis
    by (unfold_locales,
        rule edit_closure [where Q = "\<lambda>m c'. perm m = pm \<and> c' = pwrite_bytes (unat offset) data c"], blast, assumption,
        simp only:, rule stage_pwrite, assumption, rule True, simp)
qed (simp add: preparing_trivial)

interpretation write_stage:
  preparing "\<lambda>stage. bnd (materialize_visible_entry_at e (unsegs p) stage) (\<lambda>_. sys_pwrite stage data offset)"
    "\<lambda>h en stage. file_at en0 p L pm c h en stage \<and> 0 \<le> sint offset"
    "\<lambda>n. \<exists>m. n = File m (pwrite_bytes (unat offset) data c) \<and> perm m = pm" "length data"
  for e p en0 L pm c data offset
  by (rule write_closure)

text \<open>\<^verbatim>\<open>rename\<close> stages the copy itself.\<close>

lemma copy_closure:
  "preparing (materialize_visible_entry_at e (unsegs p)) (file_at en0 p L pm c)
    (\<lambda>n. \<exists>m. n = File m c \<and> perm m = pm) ()"
proof
  fix K stage F H
  assume K: "\<And>h st en. K h st en \<Longrightarrow> clean stage \<and> stage \<noteq> [] \<and> dir_at h (butlast stage) \<and> file_at en0 p L pm c h en stage"
    and free: "free_below stage K"
  have "hoare (holds F (\<lambda>h st en. K h st en \<and> get h stage = None))
      (bnd (materialize_visible_entry_at e (unsegs p) stage) (\<lambda>_. ret ()))
      (\<lambda>a. holds F (\<lambda>h st en. K h st en \<and> a = () \<and> (\<exists>n. get h stage = Some n \<and> (\<exists>m. n = File m c \<and> perm m = pm))))
      (\<lambda>_. holds F (\<lambda>h st en. K h st en \<and> \<not> F)) H"
    by (rule edit_closure [OF K free, where Q = "\<lambda>m c'. perm m = pm \<and> c' = c"])
      (auto intro!: hoare_ret simp: holds_def)
  moreover have "bnd m (\<lambda>_. ret ()) = m" for m :: "unit io"
    by (auto simp: fun_eq_iff bnd_def ret_def split: prod.splits res.splits)
  ultimately show "hoare (holds F (\<lambda>h st en. K h st en \<and> get h stage = None)) (materialize_visible_entry_at e (unsegs p) stage)
      (\<lambda>a. holds F (\<lambda>h st en. K h st en \<and> a = () \<and> (\<exists>n. get h stage = Some n \<and> (\<exists>m. n = File m c \<and> perm m = pm))))
      (\<lambda>_. holds F (\<lambda>h st en. K h st en \<and> \<not> F)) H" by simp
qed

interpretation copy_stage:
  preparing "materialize_visible_entry_at e (unsegs p)" "file_at en0 p L pm c"
    "\<lambda>n. \<exists>m. n = File m c \<and> perm m = pm" "()"
  for e p en0 L pm c
  by (rule copy_closure)

end
