(* ===== verification/Publication.thy ===== *)
theory Publication
  imports Staging
begin

text \<open>
  \<open>publish_staged_operation\<close> as one transition: what it leaves when it returns, when it fails, and
  when the process ends at a failpoint in between.
\<close>

section \<open>Stage names\<close>

lemma show_nat_chars: "c \<in> set (show_nat n) \<Longrightarrow> digit_of c \<noteq> None"
  using show_nat_digits [of n] by (auto simp: list_all_iff)

lemma clean_show_int [simp]: "clean_segment (show_int i)"
proof -
  have d: "c \<noteq> CHR ''/'' \<and> c \<noteq> CHR ''.''" if "digit_of c \<noteq> None" for c
    using that by (auto simp: digit_of_def)
  obtain n where i: "show_int i = show_nat n \<or> show_int i = CHR ''-'' # show_nat n"
    unfolding show_int_def by metis
  have "CHR ''/'' \<notin> set (show_nat n)" "CHR ''.'' \<notin> set (show_nat n)"
    using show_nat_chars d by blast+
  with i have "CHR ''/'' \<notin> set (show_int i)" "CHR ''.'' \<notin> set (show_int i)" "show_int i \<noteq> []"
    by (elim disjE; simp)+
  then show ?thesis by (auto simp: clean_segment_def)
qed

section \<open>What a publication needs\<close>

definition dest_of :: "recovery_operation \<Rightarrow> string" where
  "dest_of op = (if op_kind op = ''rename'' then op_target op else op_path op)"

definition stage_of :: "engine \<Rightarrow> store \<Rightarrow> path" where
  "stage_of en st = stage_path en (operation_seq st + 1)"

text \<open>
  The place of the result is clean and its parent exists in the upper tree; for a rename the source
  lies apart from it. The stage is a new name.
\<close>

definition publishable :: "recovery_operation \<Rightarrow> node \<Rightarrow> store \<Rightarrow> engine \<Rightarrow> path \<Rightarrow> path \<Rightarrow> bool" where
  "publishable op h st en d p \<longleftrightarrow>
     layout en h \<and> clean d \<and> d \<noteq> [] \<and> dest_of op = unsegs d \<and> dir_at h (upper_dir en @ butlast d) \<and>
     get h (stage_of en st) = None \<and>
     (op_kind op = ''rename'' \<longrightarrow>
        op_path op = unsegs p \<and> clean p \<and> p \<noteq> [] \<and> \<not> prefix p d \<and> \<not> prefix d p \<and>
        direct h (upper_dir en @ p))"

definition recovery_ok :: "engine \<Rightarrow> node \<Rightarrow> bool" where
  "recovery_ok en h \<longleftrightarrow> get h (recovery_dir en) = None \<or> dir_at h (recovery_dir en)"

text \<open>The stages of a publication that started in \<open>h0\<close>, each with the state of the journal.\<close>

definition untouched :: "node \<Rightarrow> engine \<Rightarrow> node \<Rightarrow> bool" where
  "untouched h0 en0 h \<longleftrightarrow> outside {recovery_dir en0} h0 h \<and> recovery_ok en0 h"

text \<open>No stage but the given one has been added to the recovery directory.\<close>

definition one_stage :: "node \<Rightarrow> engine \<Rightarrow> path \<Rightarrow> node \<Rightarrow> bool" where
  "one_stage h0 en0 stage h \<longleftrightarrow>
     (\<forall>x. recovery_dir en0 @ [x] \<noteq> stage \<longrightarrow> get h0 (recovery_dir en0 @ [x]) = None \<longrightarrow>
          get h (recovery_dir en0 @ [x]) = None)"

definition stage_filled :: "node \<Rightarrow> engine \<Rightarrow> path \<Rightarrow> node \<Rightarrow> node \<Rightarrow> bool" where
  "stage_filled h0 en0 stage n h \<longleftrightarrow>
     outside {recovery_dir en0} h0 h \<and> dir_at h (recovery_dir en0) \<and> get h stage = Some n \<and>
     one_stage h0 en0 stage h"

definition entry_published :: "node \<Rightarrow> engine \<Rightarrow> path \<Rightarrow> path \<Rightarrow> node \<Rightarrow> node \<Rightarrow> bool" where
  "entry_published h0 en0 stage d n h \<longleftrightarrow>
     outside {recovery_dir en0, upper_dir en0 @ d} h0 h \<and> recovery_ok en0 h \<and> get h stage = None \<and>
     get h (upper_dir en0 @ d) = Some n \<and> one_stage h0 en0 stage h"

definition source_removed :: "node \<Rightarrow> engine \<Rightarrow> path \<Rightarrow> path \<Rightarrow> path \<Rightarrow> node \<Rightarrow> node \<Rightarrow> bool" where
  "source_removed h0 en0 stage d p n h \<longleftrightarrow>
     outside {recovery_dir en0, upper_dir en0 @ d, upper_dir en0 @ p} h0 h \<and> recovery_ok en0 h \<and>
     get h stage = None \<and> get h (upper_dir en0 @ d) = Some n \<and> get h (upper_dir en0 @ p) = None \<and>
     one_stage h0 en0 stage h"

definition publication_done ::
  "recovery_operation \<Rightarrow> node \<Rightarrow> engine \<Rightarrow> path \<Rightarrow> path \<Rightarrow> path \<Rightarrow> node \<Rightarrow> node \<Rightarrow> bool"
where
  "publication_done op h0 en0 stage d p n h \<longleftrightarrow>
     (if op_kind op = ''rename'' then source_removed h0 en0 stage d p n h
      else entry_published h0 en0 stage d n h)"

text \<open>The removal of the source has begun.\<close>

definition source_in_removal :: "node \<Rightarrow> engine \<Rightarrow> path \<Rightarrow> path \<Rightarrow> node \<Rightarrow> node \<Rightarrow> bool" where
  "source_in_removal h0 en0 d p n h \<longleftrightarrow>
     outside {recovery_dir en0, upper_dir en0 @ d, upper_dir en0 @ p} h0 h \<and> recovery_ok en0 h \<and>
     get h (upper_dir en0 @ d) = Some n"

section \<open>Apartness of the stage, the result and the source\<close>

lemma publishable_paths:
  assumes "publishable op h st en d p"
  shows "clean (stage_of en st)" "stage_of en st \<noteq> []" "butlast (stage_of en st) = recovery_dir en"
    "prefix (recovery_dir en) (stage_of en st)"
    "clean (upper_dir en @ d)" "upper_dir en @ d \<noteq> []" "butlast (upper_dir en @ d) = upper_dir en @ butlast d"
    "\<not> prefix (stage_of en st) (upper_dir en @ q)" "\<not> prefix (upper_dir en @ q) (stage_of en st)"
    "\<not> prefix (recovery_dir en) (upper_dir en @ q)" "\<not> prefix (upper_dir en @ q) (recovery_dir en)"
proof -
  have lay: "layout en h" and d: "clean d" "d \<noteq> []" using assms by (auto simp: publishable_def)
  show "clean (stage_of en st)" "stage_of en st \<noteq> []" "butlast (stage_of en st) = recovery_dir en"
    "prefix (recovery_dir en) (stage_of en st)"
    using layout_clean [OF lay] by (auto simp: stage_of_def stage_path_def)
  show "clean (upper_dir en @ d)" "upper_dir en @ d \<noteq> []" "butlast (upper_dir en @ d) = upper_dir en @ butlast d"
    using d layout_clean [OF lay] by (auto simp: butlast_append)
  show a: "\<not> prefix (recovery_dir en) (upper_dir en @ q)"
    using layout_apart [OF lay] by blast
  show b: "\<not> prefix (upper_dir en @ q) (recovery_dir en)"
    using layout_apart(2) [OF lay, of "[]"] by (auto dest: append_prefixD)
  show "\<not> prefix (stage_of en st) (upper_dir en @ q)"
    using a by (auto simp: stage_of_def stage_path_def dest: append_prefixD)
  show "\<not> prefix (upper_dir en @ q) (stage_of en st)"
  proof
    assume "prefix (upper_dir en @ q) (stage_of en st)"
    then have "prefix (upper_dir en) (stage_of en st)" by (rule append_prefixD)
    with layout_apart(2) [OF lay, of "[show_int (operation_seq st + 1)]"] show False
      by (simp add: stage_of_def stage_path_def del: prefix_snoc)
  qed
qed

lemma replaceable_outside:
  assumes "outside S h0 h" "\<And>r. r \<in> S \<Longrightarrow> \<not> prefix r q" "\<And>r x. r \<in> S \<Longrightarrow> \<not> prefix r (q @ [x])"
  shows "replaceable n (get h q) = replaceable n (get h0 q)"
proof -
  have s: "same_entry (get h0 q) (get h q)" using assms(1,2) by (rule outside_same)
  then show ?thesis
  proof (rule same_entry_cases)
    fix m cs cs' assume g: "get h0 q = Some (Dir m cs)" "get h q = Some (Dir m cs')"
    have "map_of cs x = None \<longleftrightarrow> map_of cs' x = None" for x
    proof -
      have "same_entry (get h0 (q @ [x])) (get h (q @ [x]))"
        using assms(1) assms(3) by (rule outside_same)
      then show ?thesis
        using g by (auto simp: get_append dest!: same_entry_none split: option.splits)
    qed
    moreover have "l = [] \<longleftrightarrow> (\<forall>x. map_of l x = None)" for l :: "(string \<times> node) list"
      by (cases l) auto
    ultimately have "cs = [] \<longleftrightarrow> cs' = []" by metis
    then show ?thesis using g by (simp add: replaceable_def)
  qed (auto simp: replaceable_def)
qed

lemma replaceable_stage:
  assumes "publishable op h0 st en d p" "outside {recovery_dir en} h0 h"
  shows "replaceable n (get h (upper_dir en @ d)) = replaceable n (get h0 (upper_dir en @ d))"
  using replaceable_outside [OF assms(2), of "upper_dir en @ d" n] publishable_paths(10) [OF assms(1)]
  by (metis append.assoc singletonD)

lemma one_stage_refl: "one_stage h0 en0 stage h0"
  by (simp add: one_stage_def)

lemma one_stage_kept:
  assumes "one_stage h0 en0 stage h"
    and "\<And>x. recovery_dir en0 @ [x] \<noteq> stage \<Longrightarrow> get h (recovery_dir en0 @ [x]) = None \<Longrightarrow> get h' (recovery_dir en0 @ [x]) = None"
  shows "one_stage h0 en0 stage h'"
  using assms by (simp add: one_stage_def)

text \<open>Changes of the stage itself, away from the recovery directory, and of the directory as a whole.\<close>

lemma one_stage_put:
  assumes "one_stage h0 en0 stage h" "stage = recovery_dir en0 @ [y]"
    and "prefix stage q \<or> \<not> prefix (recovery_dir en0) q \<and> \<not> prefix q (recovery_dir en0) \<or>
      q = recovery_dir en0 \<and> (v = None \<or> v = Some (Dir m []))"
  shows "one_stage h0 en0 stage (put h q v)"
proof (rule one_stage_kept [OF assms(1)])
  fix x assume x: "recovery_dir en0 @ [x] \<noteq> stage" "get h (recovery_dir en0 @ [x]) = None"
  consider "prefix stage q" | "\<not> prefix (recovery_dir en0) q" "\<not> prefix q (recovery_dir en0)"
    | "q = recovery_dir en0" "v = None \<or> v = Some (Dir m [])"
    using assms(3) by blast
  then show "get (put h q v) (recovery_dir en0 @ [x]) = None"
  proof cases
    case 1
    then have "\<not> prefix q (recovery_dir en0 @ [x])" "\<not> prefix (recovery_dir en0 @ [x]) q"
      using x(1) assms(2) by (auto simp: prefix_def)
    then show ?thesis using x(2) get_put_other by metis
  next
    case 2
    then have "\<not> prefix q (recovery_dir en0 @ [x])" "\<not> prefix (recovery_dir en0 @ [x]) q"
      by (auto dest: append_prefixD simp: prefix_snoc)
    then show ?thesis using x(2) get_put_other by metis
  next
    case q: 3
    show ?thesis
    proof (cases "dir_at h (butlast q)")
      case True
      then show ?thesis using get_put_below [of q h v "[x]"] q by (auto simp: recovery_dir_def)
    next
      case False
      with x(2) show ?thesis by (simp add: put_no_parent)
    qed
  qed
qed

section \<open>Assertions that changes under the recovery directory keep\<close>

lemma recovery_ok_put:
  assumes "recovery_ok en h" "strict_prefix (recovery_dir en) q"
  shows "recovery_ok en (put h q v)"
proof (cases "dir_at h (recovery_dir en)")
  case True
  then show ?thesis using dir_at_put_above [OF assms(2)] by (simp add: recovery_ok_def)
next
  case False
  then have "get h (recovery_dir en) = None" using assms(1) by (simp add: recovery_ok_def)
  then show ?thesis
    using get_put_above_nondir [OF assms(2) False, of v] by (simp add: recovery_ok_def)
qed

lemma layout_recovery:
  assumes "layout en h0" "outside S h0 h" "\<And>r. r \<in> S \<Longrightarrow> \<not> prefix r (workspace_dir en)" "recovery_ok en h"
  shows "dir_at h (workspace_dir en)" "is_dir h" "direct h (recovery_dir en @ [x])"
proof -
  show w: "dir_at h (workspace_dir en)"
    using outside_dir [OF assms(2,3)] layout_dirs [OF assms(1)] by simp
  then have "dir_at h ([] @ workspace_dir en)" by simp
  then have "dir_at h []" by (rule dir_at_append_prefix)
  then show "is_dir h" by (simp add: dir_at_def)
  have "direct h (workspace_dir en @ [''recovery'', x])"
  proof (rule direct_under [OF w])
    fix q assume "strict_prefix q [''recovery'', x]"
    then have "q = [] \<or> q = [''recovery'']"
      by (cases q) (auto simp: strict_prefix_def prefix_Cons)
    then show "no_link (get h (workspace_dir en @ q))"
      using w assms(4)
      by (auto simp: no_link_def recovery_ok_def recovery_dir_def dir_at_def split: option.splits elim!: is_dirE)
  qed
  then show "direct h (recovery_dir en @ [x])" by (simp add: recovery_dir_def)
qed

lemma not_prefix_workspace:
  "layout en h \<Longrightarrow> \<not> prefix (recovery_dir en) (workspace_dir en)"
  "layout en h \<Longrightarrow> \<not> prefix (upper_dir en @ q) (workspace_dir en)"
  by (auto simp: recovery_dir_def layout_upper [of en h] dest: prefix_length_le)

lemma untouched_put:
  assumes "untouched h0 en0 h" "strict_prefix (recovery_dir en0) q"
  shows "untouched h0 en0 (put h q v)"
  using assms unfolding untouched_def
  by (auto intro: recovery_ok_put outside_put [of "{recovery_dir en0}"] simp: strict_prefix_def)

text \<open>What an error before the publication leaves.\<close>

definition rolled_back :: "node \<Rightarrow> store \<Rightarrow> engine \<Rightarrow> node \<Rightarrow> store \<Rightarrow> engine \<Rightarrow> bool" where
  "rolled_back h0 st0 en0 h st en \<longleftrightarrow>
     untouched h0 en0 h \<and> same_engine en en0 \<and> tombstone_rows st = tombstone_rows st0"

lemma rolled_back_spec:
  assumes lay: "layout en0 h0" and stage: "stage = recovery_dir en0 @ [x]" "clean stage"
  shows "hoare (holds F (\<lambda>h st en. \<not> F \<and> rolled_back h0 st0 en0 h st en)) (abandon_staged e stage i fault) Q
     (\<lambda>_. holds F (\<lambda>h st en. \<not> F \<and> rolled_back h0 st0 en0 h st en)) H"
proof -
  let ?A = "\<lambda>h st en. \<not> F \<and> rolled_back h0 st0 en0 h st en"
  have sp: "strict_prefix (recovery_dir en0) stage" using stage by (simp add: strict_prefix_def)
  have d: "clean stage \<and> stage \<noteq> [] \<and> direct h stage \<and> is_dir h" if "?A h st en" for h st en
    using that layout_recovery [OF lay, where S = "{recovery_dir en0}" and h = h] not_prefix_workspace [OF lay] stage
    by (auto simp: rolled_back_def untouched_def)
  have rm: "hoare (holds F ?A) (fs_remove_all stage) (\<lambda>_. holds F ?A) (\<lambda>_. holds F ?A) H"
    by (rule fs_remove_all_spec [OF d]) (auto simp: rolled_back_def intro: untouched_put [OF _ sp])
  have ab: "hoare (holds F ?A) (abandon_recovery_operation e i) (\<lambda>_. holds F ?A) (\<lambda>_. holds F ?A) H"
    by (rule weaken_error [OF abandon_spec [where D = ?A]])
      (auto simp: rolled_back_def sql_abandon_recovery_operation_def)
  show ?thesis
    unfolding abandon_staged_def
    by (intro hoare_bnd [OF hoare_ignore [OF rm]] hoare_bnd [OF hoare_ignore [OF ab]] hoare_fail)
qed

context preparing
begin

lemma prepare_stage_spec:
  assumes lay: "layout en0 h0" and stage: "stage = recovery_dir en0 @ [x]" "clean stage" "get h0 stage = None"
    and en: "same_engine en1 en0" and op_id: "op_id op = i"
    and ready: "\<And>h en. outside {recovery_dir en0} h0 h \<Longrightarrow> dir_at h (recovery_dir en0) \<Longrightarrow>
      same_engine en en0 \<Longrightarrow> ready h en stage"
    and free: "F \<Longrightarrow> tribios_io_fault e = None" and rows: "tombstone_rows st1 = tombstone_rows st0"
  shows "hoare (holds F (\<lambda>h st en. h = h0 \<and> st = st1 \<and> same_engine en en0)) (prepare_stage e en1 op stage prepare)
    (\<lambda>a. holds F (\<lambda>h st en. a = returned \<and> (\<exists>n. staged n \<and> stage_filled h0 en0 stage n h) \<and> st = st1 \<and> same_engine en en0))
    (\<lambda>_. holds F (\<lambda>h st en. \<not> F \<and> rolled_back h0 st0 en0 h st en)) H"
proof -
  let ?R = "recovery_dir en0"
  let ?E = "\<lambda>_. holds F (\<lambda>h st en. \<not> F \<and> rolled_back h0 st0 en0 h st en)"
  define K where "K = (\<lambda>h st en. outside {?R} h0 h \<and> dir_at h ?R \<and> one_stage h0 en0 stage h \<and> st = st1 \<and> same_engine en en0)"
  let ?S = "\<lambda>h st en. K h st en \<and> (\<exists>n. get h stage = Some n \<and> staged n)"
  have R: "recovery_dir en1 = ?R" using en by (simp add: same_engineD)
  have K_back: "rolled_back h0 st0 en0 h st en" if "K h st en" for h st en
    using that rows by (auto simp: K_def rolled_back_def untouched_def recovery_ok_def)
  have sp: "strict_prefix ?R stage" using stage by (simp add: strict_prefix_def)
  have K_stage: "clean stage \<and> stage \<noteq> [] \<and> dir_at h (butlast stage) \<and> ready h en stage" if "K h st en" for h st en
    using that ready stage by (auto simp: K_def)
  have K_put: "K (put h q v) st en" if "K h st en" "prefix stage q" for h st en q v
  proof -
    have "strict_prefix ?R q" using sp that(2) by (rule prefix_order.less_le_trans)
    then show ?thesis
      using that outside_put [of "{?R}" h0 h ?R q v] dir_at_put_above [of ?R q h v] one_stage_put [OF _ stage(1)]
      by (auto simp: K_def strict_prefix_def)
  qed
  have K_free: "free_below stage K" using K_put by (simp add: free_below_def)
  have W: "dir_at h0 (workspace_dir en0)" "butlast ?R = workspace_dir en0" "?R \<noteq> []" "clean ?R"
    using layout_dirs [OF lay] layout_clean [OF lay] by (auto simp: recovery_dir_def)
  have lay_R: "get h0 ?R = None \<or> dir_at h0 ?R" using lay by (simp add: layout_def)
  let ?A0 = "\<lambda>h st en. h = h0 \<and> st = st1 \<and> same_engine en en0"
  let ?A1 = "\<lambda>h st en. K h st en \<and> get h stage = None"
  have made: "?A1 h' st en" if "?A0 h st en" "h' = h0 \<and> dir_at h0 ?R \<or> get h0 ?R = None \<and> h' = put h0 ?R (Some (Dir m []))"
    for h h' st en m
  proof -
    have "dir_at h' ?R" "get h' stage = None"
      using that(2) get_put_same [of ?R h0] get_put_below [of ?R h0 _ "[x]"] W stage
      by (auto simp: dir_at_def)
    moreover have "outside {?R} h0 h'" using that(2) by (auto intro: outside_put [of "{?R}"])
    moreover have "one_stage h0 en0 stage h'"
      using that(2) one_stage_put [OF one_stage_refl stage(1), where q = ?R and v = "Some (Dir m [])"] one_stage_refl by auto
    ultimately show ?thesis using that(1) by (simp add: K_def)
  qed
  have dirs: "hoare (holds F ?A0) (fs_create_directories e ?R) (\<lambda>_. holds F ?A1)
      (\<lambda>_. holds F (\<lambda>h st en. \<not> F \<and> rolled_back h0 st0 en0 h st en)) H"
  proof (rule weaken_error [OF fs_create_directories_spec [where C = ?A0]])
    fix x h st en assume "?A0 h st en \<and> \<not> F"
    then show "\<not> F \<and> rolled_back h0 st0 en0 h st en"
      using rows lay_R by (auto simp: rolled_back_def untouched_def recovery_ok_def)
  next
    fix h st en m assume A0: "?A0 h st en"
    { assume "dir_at h ?R" with A0 made [OF A0, of h] show "?A1 h st en" by auto }
    { assume "get h ?R = None" with A0 made [OF A0, of "put h ?R (Some (Dir m []))" m]
      show "?A1 (put h ?R (Some (Dir m []))) st en" by auto }
  qed (use W lay_R in auto)
  have par: "hoare (holds F ?A1) (sync_parent_directory ?R) (\<lambda>_. holds F ?A1) ?E H"
  proof (rule weaken_error [OF sync_parent_spec])
    fix x h st en assume a: "?A1 h st en \<and> (F \<longrightarrow> k_opendir h (butlast ?R) = Inl x)"
    then have "dir_at h (workspace_dir en0)"
      using layout_recovery(1) [OF lay, where S = "{?R}" and h = h] not_prefix_workspace [OF lay]
      by (auto simp: K_def recovery_ok_def)
    then have "k_opendir h (butlast ?R) \<noteq> Inl x"
      using k_stat_dir [of "workspace_dir en0" h] layout_clean [OF lay] W by auto
    with a K_back show "\<not> F \<and> rolled_back h0 st0 en0 h st en" by blast
  qed
  have ab: "hoare (holds F (\<lambda>h st en. \<not> F \<and> rolled_back h0 st0 en0 h st en))
      (bnd (attempt (abandon_recovery_operation e i)) (\<lambda>_. fail err)) (\<lambda>_. holds F ?A1) ?E H" for err
    by (rule hoare_bnd [OF hoare_ignore [OF weaken_error [OF abandon_spec]] hoare_fail])
      (auto simp: rolled_back_def sql_abandon_recovery_operation_def)
  have first: "hoare (holds F ?A0)
      (catch (bnd (catch (fs_create_directories e ?R) (\<lambda>_. fail EIO)) (\<lambda>_. sync_parent_directory ?R))
         (\<lambda>err. bnd (attempt (abandon_recovery_operation e i)) (\<lambda>_. fail err))) (\<lambda>_. holds F ?A1) ?E H"
    by (rule hoare_catch [OF hoare_bnd [OF hoare_catch [OF dirs hoare_fail] par] ab])
  have fill: "hoare (holds F ?A1) (catch (prepare stage) (abandon_staged e stage i))
      (\<lambda>a. holds F (\<lambda>h st en. ?S h st en \<and> a = returned)) ?E H"
    by (rule hoare_catch [OF hoare_conseq [OF prepare_stages [OF K_stage K_free]]
          rolled_back_spec [OF lay stage(1,2)]]) (auto simp: holds_def intro: K_back)
  have inj: "hoare (holds F ?S) (catch (inject e b) (abandon_staged e stage i)) (\<lambda>_. holds F ?S) ?E H" for b
    by (rule hoare_catch [OF weaken_error [OF inject_spec] rolled_back_spec [OF lay stage(1,2)]])
      (use free in \<open>auto intro: K_back\<close>)
  have tree: "hoare (holds F ?S) (sync_entry_tree stage) (\<lambda>_. holds F ?S) ?E H"
  proof (rule weaken_error [OF sync_entry_tree_spec])
    fix y h st en assume a: "?S h st en \<and> (F \<longrightarrow> k_lstat h stage = Inl y)"
    then have "k_lstat h stage \<noteq> Inl y"
      using K_stage [of h st en] by (auto simp: k_lstat_through_dirs)
    with a K_back show "\<not> F \<and> rolled_back h0 st0 en0 h st en" by blast
  qed
  have dir: "hoare (holds F ?S) (sync_directory ?R) (\<lambda>_. holds F ?S) ?E H"
  proof (rule weaken_error [OF sync_directory_spec])
    fix y h st en assume a: "?S h st en \<and> (F \<longrightarrow> k_opendir h ?R = Inl y)"
    then have "k_opendir h ?R \<noteq> Inl y" using k_stat_dir [OF W(4), of h] by (auto simp: K_def)
    with a K_back show "\<not> F \<and> rolled_back h0 st0 en0 h st en" by blast
  qed
  have sync: "hoare (holds F ?S)
      (catch (bnd (sync_entry_tree stage) (\<lambda>_. catch (sync_directory ?R) (\<lambda>_. fail EIO))) (abandon_staged e stage i))
      (\<lambda>_. holds F ?S) ?E H"
    by (rule hoare_catch [OF hoare_bnd [OF tree hoare_catch [OF dir hoare_fail]] rolled_back_spec [OF lay stage(1,2)]])
  have rest: "hoare (holds F (\<lambda>h st en. ?S h st en \<and> a = returned))
      (bnd (catch (inject e ''stage.flush'') (abandon_staged e stage i)) (\<lambda>_.
       bnd (catch (bnd (sync_entry_tree stage) (\<lambda>_. catch (sync_directory ?R) (\<lambda>_. fail EIO))) (abandon_staged e stage i)) (\<lambda>_.
       ret a)))
      (\<lambda>a. holds F (\<lambda>h st en. a = returned \<and> (\<exists>n. staged n \<and> stage_filled h0 en0 stage n h) \<and> st = st1 \<and> same_engine en en0)) ?E H" for a
  proof (rule hoare_const [where c = "a = returned"])
    assume a: "a = returned"
    have "hoare (holds F ?S) (ret a)
      (\<lambda>a. holds F (\<lambda>h st en. a = returned \<and> (\<exists>n. staged n \<and> stage_filled h0 en0 stage n h) \<and> st = st1 \<and> same_engine en en0)) ?E H"
      by (rule hoare_ret) (auto simp: a holds_def K_def stage_filled_def)
    from hoare_bnd [OF inj hoare_bnd [OF sync this]] show ?thesis
      by (rule hoare_pre) (auto simp: holds_def)
  qed (auto simp: holds_def)
  show ?thesis
    unfolding prepare_stage_def R op_id by (rule hoare_bnd [OF first hoare_bnd [OF fill rest]])
qed

end

section \<open>The publishing rename\<close>

lemma rename_published:
  assumes pub: "publishable op h0 st0 en0 d p" and filled: "stage_filled h0 en0 (stage_of en0 st0) n h"
    and ren: "k_rename h (stage_of en0 st0) (upper_dir en0 @ d) = Inr h'"
  shows "entry_published h0 en0 (stage_of en0 st0) d n h'"
proof -
  let ?R = "recovery_dir en0" and ?st = "stage_of en0 st0" and ?D = "upper_dir en0 @ d"
  note paths = publishable_paths [OF pub]
  have out: "outside {?R} h0 h" and R: "dir_at h ?R" and n: "get h ?st = Some n" and one: "one_stage h0 en0 ?st h"
    using filled by (auto simp: stage_filled_def)
  have stage: "?st = ?R @ [show_int (operation_seq st0 + 1)]" by (simp add: stage_of_def stage_path_def)
  have up: "dir_at h (upper_dir en0 @ butlast d)"
    using outside_dir [OF out] paths(10) pub by (auto simp: publishable_def)
  have "h' = put (put h ?st None) ?D (Some n)"
    using ren n paths R up
    by (auto simp: k_rename_def resolve_ok split: option.splits node.splits if_splits)
  moreover have "outside {?R, ?D} h0 (put (put h ?st None) ?D (Some n))"
    using out paths(4)
    by (intro outside_put [where r = ?D] outside_put [where r = ?R])
      (auto intro: outside_mono [of "{?R}"])
  moreover have "dir_at (put h ?st None) (upper_dir en0 @ butlast d)"
    using up get_put_other [of ?st "upper_dir en0 @ butlast d" h None] paths(8,9) by (simp add: dir_at_def)
  then have "get (put (put h ?st None) ?D (Some n)) ?D = Some n"
    using get_put_same [of ?D] paths(6,7) by simp
  moreover have "get (put (put h ?st None) ?D (Some n)) ?st = None"
    using get_put_other [of ?D ?st] get_put_same [of ?st h None] paths R by simp
  moreover have "recovery_ok en0 (put (put h ?st None) ?D (Some n))"
  proof -
    have "strict_prefix ?R ?st" using paths(3,4) by (auto simp: strict_prefix_def stage_of_def stage_path_def)
    then have "dir_at (put h ?st None) ?R" using R dir_at_put_above by blast
    then show ?thesis
      using get_put_other [of ?D ?R] paths(10,11) by (simp add: recovery_ok_def dir_at_def)
  qed
  moreover have "one_stage h0 en0 ?st (put (put h ?st None) ?D (Some n))"
    by (intro one_stage_put [OF _ stage] one) (use paths(10,11) in auto)
  ultimately show ?thesis by (simp add: entry_published_def)
qed

lemma rename_succeeds:
  assumes pub: "publishable op h0 st0 en0 d p" and filled: "stage_filled h0 en0 (stage_of en0 st0) n h"
    and rep: "replaceable n (get h0 (upper_dir en0 @ d))"
  shows "\<exists>h'. k_rename h (stage_of en0 st0) (upper_dir en0 @ d) = Inr h'"
proof -
  note paths = publishable_paths [OF pub]
  have out: "outside {recovery_dir en0} h0 h" and n: "get h (stage_of en0 st0) = Some n"
    using filled by (auto simp: stage_filled_def)
  have "dir_at h (upper_dir en0 @ butlast d)"
    using outside_dir [OF out] paths(10) pub by (auto simp: publishable_def)
  moreover have "replaceable n (get h (upper_dir en0 @ d))"
    using replaceable_stage [OF pub out] rep by simp
  ultimately show ?thesis
    using k_rename_ok [of "stage_of en0 st0" "upper_dir en0 @ d" h n] paths n by simp
qed

lemma publish_stage_spec:
  assumes pub: "publishable op0 h0 st0 en0 d p" and en: "same_engine en1 en0" and dest: "dest_of op = unsegs d"
    and no_fault: "F \<Longrightarrow> tribios_io_fault e = None" and rows: "tombstone_rows st2 = tombstone_rows st0"
    and rep: "\<And>n. F \<Longrightarrow> staged n \<Longrightarrow> replaceable n (get h0 (upper_dir en0 @ d))"
  shows "hoare (holds F (\<lambda>h st en. (\<exists>n. staged n \<and> stage_filled h0 en0 (stage_of en0 st0) n h) \<and> st = st2 \<and> same_engine en en0))
    (publish_stage e en1 op (stage_of en0 st0))
    (\<lambda>_. holds F (\<lambda>h st en. (\<exists>n. staged n \<and> entry_published h0 en0 (stage_of en0 st0) d n h) \<and> st = st2 \<and> same_engine en en0))
    (\<lambda>_. holds F (\<lambda>h st en. \<not> F \<and> rolled_back h0 st0 en0 h st en)) H"
proof -
  let ?st = "stage_of en0 st0" and ?D = "upper_dir en0 @ d"
  let ?A = "\<lambda>h st en. (\<exists>n. staged n \<and> stage_filled h0 en0 ?st n h) \<and> st = st2 \<and> same_engine en en0"
  let ?E = "\<lambda>_. holds F (\<lambda>h st en. \<not> F \<and> rolled_back h0 st0 en0 h st en)"
  note paths = publishable_paths [OF pub]
  have lay: "layout en0 h0" using pub by (simp add: publishable_def)
  have D: "upper_path en1 (if op_kind op = ''rename'' then op_target op else op_path op) = ?D"
    using dest pub same_engineD [OF en] by (simp add: upper_path_def dest_of_def [symmetric] publishable_def)
  have undone: "rolled_back h0 st0 en0 h st en" if "?A h st en" for h st en
    using that rows by (auto simp: rolled_back_def untouched_def stage_filled_def recovery_ok_def)
  have inj: "hoare (holds F ?A) (inject e b) (\<lambda>_. holds F ?A) ?E H" for b
    by (rule weaken_error [OF inject_spec]) (use no_fault in \<open>auto intro: undone\<close>)
  have ren: "hoare (holds F ?A) (sys_rename ?st ?D)
     (\<lambda>_. holds F (\<lambda>h st en. (\<exists>n. staged n \<and> entry_published h0 en0 ?st d n h) \<and> st = st2 \<and> same_engine en en0)) ?E H"
    unfolding sys_rename_def
  proof (rule weaken_error [OF sys_spec])
    fix h h' st en assume "?A h st en" "k_rename h ?st ?D = Inr h'"
    then show "(\<exists>n. staged n \<and> entry_published h0 en0 ?st d n h') \<and> st = st2 \<and> same_engine en en0"
      using rename_published [OF pub] by blast
  next
    fix x h st en assume a: "?A h st en \<and> (F \<longrightarrow> k_rename h ?st ?D = Inl x)"
    then obtain n where "staged n" "stage_filled h0 en0 ?st n h" by blast
    then have "\<not> F" using a rename_succeeds [OF pub _ rep] by fastforce
    with a undone show "\<not> F \<and> rolled_back h0 st0 en0 h st en" by blast
  qed
  have stage: "?st = recovery_dir en0 @ [show_int (operation_seq st0 + 1)]"
    by (simp add: stage_of_def stage_path_def)
  show ?thesis
    unfolding publish_stage_def D Let_def
    by (rule hoare_catch [OF hoare_bnd [OF inj hoare_bnd [OF inj hoare_bnd [OF inj ren]]]
          rolled_back_spec [OF lay stage paths(1)]])
qed

section \<open>After the rename\<close>

lemma entry_published_dirs:
  assumes pub: "publishable op h0 st0 en0 d p" and e: "entry_published h0 en0 stage d n h"
  shows "dir_at h (upper_dir en0 @ butlast d)" "dir_at h (workspace_dir en0)" "is_dir h"
    "op_kind op = ''rename'' \<Longrightarrow> direct h (upper_dir en0 @ p)"
proof -
  let ?R = "recovery_dir en0" and ?D = "upper_dir en0 @ d"
  have out: "outside {?R, ?D} h0 h" using e by (simp add: entry_published_def)
  have lay: "layout en0 h0" and d: "d \<noteq> []" using pub by (auto simp: publishable_def)
  note paths = publishable_paths [OF pub]
  have "\<not> prefix d (butlast d)" using d by (rule not_prefix_butlast)
  then have "dir_at h (upper_dir en0 @ butlast d) = dir_at h0 (upper_dir en0 @ butlast d)"
    using paths(10) by (intro outside_dir [OF out]) auto
  then show "dir_at h (upper_dir en0 @ butlast d)" using pub by (simp add: publishable_def)
  show "dir_at h (workspace_dir en0)" "is_dir h"
    using layout_recovery(1,2) [OF lay out] not_prefix_workspace [OF lay] e
    by (auto simp: entry_published_def)
  show "direct h (upper_dir en0 @ p)" if "op_kind op = ''rename''"
    unfolding direct_def
  proof (intro allI impI)
    fix q assume q: "strict_prefix q (upper_dir en0 @ p)"
    have "direct h0 (upper_dir en0 @ p)" "\<not> prefix d p" using pub that by (auto simp: publishable_def)
    moreover have "\<not> prefix ?R q"
      using q paths(10) [of p] by (meson prefix_order.trans strict_prefix_def)
    moreover have "\<not> prefix ?D q"
    proof
      assume "prefix ?D q"
      with q have "prefix ?D (upper_dir en0 @ p)" by (meson prefix_order.trans strict_prefix_def)
      with \<open>\<not> prefix d p\<close> show False by simp
    qed
    ultimately show "case get h q of Some n \<Rightarrow> \<not> is_link n | None \<Rightarrow> True"
      using q outside_same [OF out, of q] same_entry_link [of "get h0 q" "get h q"]
      by (auto simp: direct_def)
  qed
qed

lemma source_removed_put:
  assumes pub: "publishable op h0 st0 en0 d p" and e: "entry_published h0 en0 (stage_of en0 st0) d n h"
    and ren: "op_kind op = ''rename''"
  shows "source_in_removal h0 en0 d p n (put h (upper_dir en0 @ p) v)"
    and "source_removed h0 en0 (stage_of en0 st0) d p n (put h (upper_dir en0 @ p) None)"
proof -
  let ?R = "recovery_dir en0" and ?D = "upper_dir en0 @ d" and ?S = "upper_dir en0 @ p"
  note paths = publishable_paths [OF pub]
  have out: "outside {?R, ?D} h0 h" and R: "recovery_ok en0 h" and st: "get h (stage_of en0 st0) = None"
    and n: "get h ?D = Some n" and one: "one_stage h0 en0 (stage_of en0 st0) h" using e by (auto simp: entry_published_def)
  have one: "one_stage h0 en0 (stage_of en0 st0) (put h ?S v)" for v
    by (rule one_stage_put [OF one stage_of_def [unfolded stage_path_def]]) (use paths(10,11) in auto)
  have apart: "\<not> prefix p d" "\<not> prefix d p" "p \<noteq> []" using pub ren by (auto simp: publishable_def)
  have o: "outside {?R, ?D, ?S} h0 (put h ?S v)" for v
    by (rule outside_put [OF outside_mono [OF out], where r = ?S]) auto
  have r: "recovery_ok en0 (put h ?S v)" for v
    using R get_put_other [of ?S ?R] paths(10,11) by (simp add: recovery_ok_def dir_at_def)
  have g: "get (put h ?S v) ?D = Some n" for v using get_put_other [of ?S ?D] apart n by simp
  have s: "get (put h ?S v) (stage_of en0 st0) = None" for v
    using get_put_other [of ?S "stage_of en0 st0"] paths(8,9) st by simp
  have "get (put h ?S None) ?S = None"
  proof (cases "dir_at h (butlast ?S)")
    case True
    then show ?thesis using get_put_same [of ?S h None] apart(3) by simp
  next
    case False
    then have "get h ?S = None"
      using get_parent_dir [of h ?S] apart(3) by (cases "get h ?S") auto
    then show ?thesis by (simp add: put_no_parent [OF False])
  qed
  with o r g s one show "source_in_removal h0 en0 d p n (put h ?S v)"
    "source_removed h0 en0 (stage_of en0 st0) d p n (put h ?S None)"
    by (auto simp: source_in_removal_def source_removed_def)
qed

lemma publication_done_cleanup:
  assumes pub: "publishable op h0 st0 en0 d p" and fin: "publication_done op h0 en0 (stage_of en0 st0) d p n h"
  shows "publication_done op h0 en0 (stage_of en0 st0) d p n (put h (recovery_dir en0) None)"
    and "dir_at h (workspace_dir en0)"
proof -
  let ?R = "recovery_dir en0" and ?D = "upper_dir en0 @ d"
  note paths = publishable_paths [OF pub]
  have lay: "layout en0 h0" using pub by (simp add: publishable_def)
  have W: "butlast ?R = workspace_dir en0" "?R \<noteq> []" by (simp_all add: recovery_dir_def)
  obtain S where S: "outside S h0 h" "?R \<in> S" "S \<subseteq> {?R, ?D, upper_dir en0 @ p}" "recovery_ok en0 h"
    "one_stage h0 en0 (stage_of en0 st0) h"
    using fin by (cases "op_kind op = ''rename''")
      (auto simp: publication_done_def source_removed_def entry_published_def)
  show dir: "dir_at h (workspace_dir en0)"
    using layout_recovery(1) [OF lay S(1) _ S(4)] S(3) not_prefix_workspace [OF lay] by auto
  have g: "get (put h ?R None) (upper_dir en0 @ q) = get h (upper_dir en0 @ q)" for q
    using get_put_other [of ?R "upper_dir en0 @ q"] paths(10,11) by simp
  have R: "recovery_ok en0 (put h ?R None)"
    using get_put_same [of ?R h None] dir W by (simp add: recovery_ok_def)
  have st: "get (put h ?R None) (stage_of en0 st0) = None"
    using get_put_below [of ?R h None "[show_int (operation_seq st0 + 1)]"] dir W
    by (simp add: stage_of_def stage_path_def)
  have "one_stage h0 en0 (stage_of en0 st0) (put h ?R None)"
    by (rule one_stage_put [OF S(5) stage_of_def [unfolded stage_path_def]]) simp
  then show "publication_done op h0 en0 (stage_of en0 st0) d p n (put h ?R None)"
    using fin g R st
    by (auto simp: publication_done_def source_removed_def entry_published_def
        intro: outside_put [where r = ?R])
qed

text \<open>The states a process exit after the rename can leave, and the states an error there leaves.\<close>

definition published_image ::
  "recovery_operation \<Rightarrow> node \<Rightarrow> engine \<Rightarrow> path \<Rightarrow> path \<Rightarrow> path \<Rightarrow> node \<Rightarrow> store \<Rightarrow> store \<Rightarrow> node \<Rightarrow> store \<Rightarrow> bool"
where
  "published_image op h0 en0 stage d p n st2 st3 h st \<longleftrightarrow>
     entry_published h0 en0 stage d n h \<and> st = st2 \<or>
     op_kind op = ''rename'' \<and> source_removed h0 en0 stage d p n h \<and> st = st2 \<or>
     publication_done op h0 en0 stage d p n h \<and> st = st3"

definition half_published ::
  "node \<Rightarrow> store \<Rightarrow> engine \<Rightarrow> path \<Rightarrow> path \<Rightarrow> path \<Rightarrow> bool \<Rightarrow> node \<Rightarrow> node \<Rightarrow> store \<Rightarrow> engine \<Rightarrow> bool"
where
  "half_published h0 st0 en0 stage d p moving n h st en \<longleftrightarrow>
     (entry_published h0 en0 stage d n h \<or> moving \<and> source_in_removal h0 en0 d p n h) \<and>
     same_engine en en0 \<and> tombstone_rows st = tombstone_rows st0"

lemma remove_rename_source_spec:
  assumes pub: "publishable op0 h0 st0 en0 d p" and en: "same_engine en1 en0"
    and op: "op_kind op = ''rename''" "op_path op = op_path op0" "op_kind op0 = ''rename''"
    and rows: "tombstone_rows st2 = tombstone_rows st0"
  defines "stage \<equiv> stage_of en0 st0"
  shows "hoare (holds F (\<lambda>h st en. entry_published h0 en0 stage d n h \<and> st = st2 \<and> same_engine en en0))
    (remove_rename_source e en1 op)
    (\<lambda>_. holds F (\<lambda>h st en. source_removed h0 en0 stage d p n h \<and> st = st2 \<and> same_engine en en0))
    (\<lambda>_. holds F (\<lambda>h st en. \<not> F \<and> half_published h0 st0 en0 stage d p True n h st en))
    (\<lambda>_. holds F (\<lambda>h st en. tribios_failpoint e \<noteq> None \<and> source_removed h0 en0 stage d p n h \<and> st = st2))"
proof -
  let ?S = "upper_dir en0 @ p"
  let ?A = "\<lambda>h st en. entry_published h0 en0 stage d n h \<and> st = st2 \<and> same_engine en en0"
  let ?B = "\<lambda>h st en. source_removed h0 en0 stage d p n h \<and> st = st2 \<and> same_engine en en0"
  let ?E = "\<lambda>_. holds F (\<lambda>h st en. \<not> F \<and> half_published h0 st0 en0 stage d p True n h st en)"
  let ?H = "\<lambda>_. holds F (\<lambda>h st en. tribios_failpoint e \<noteq> None \<and> source_removed h0 en0 stage d p n h \<and> st = st2)"
  have lay: "layout en0 h0" and p: "clean p" "p \<noteq> []" and path: "op_path op = unsegs p"
    using pub op by (auto simp: publishable_def)
  have S: "upper_path en1 (op_path op) = ?S"
    using path p same_engineD [OF en] by (simp add: upper_path_def)
  have cl: "clean ?S" "?S \<noteq> []" using p layout_clean [OF lay] by auto
  have B_half: "half_published h0 st0 en0 stage d p True n h st en" if "?B h st en" for h st en
    using that rows by (auto simp: half_published_def source_removed_def source_in_removal_def)
  define A' where "A' = (\<lambda>mat h st en. ?A h st en \<and> mat = lstat_ok h ?S)"
  define B' where "B' = (\<lambda>mat h st en. ?B h st en \<and> (mat \<longrightarrow> dir_at h (butlast ?S)))"
  have rm: "hoare (holds F (A' mat)) (fs_remove_all ?S) (\<lambda>_. holds F (B' mat)) ?E ?H" for mat
  proof (rule fs_remove_all_spec)
    fix h st en v assume a: "A' mat h st en"
    then have e: "entry_published h0 en0 (stage_of en0 st0) d n h" by (simp add: A'_def stage_def)
    note dirs = entry_published_dirs [OF pub e]
    show "clean ?S \<and> ?S \<noteq> [] \<and> direct h ?S \<and> is_dir h" using cl dirs op(3) by simp
    have "dir_at h (butlast ?S)" if mat
    proof -
      have "get h ?S \<noteq> None"
        using that a lstat_ok_direct [OF cl(1) dirs(4) dirs(3)] op(3) by (simp add: A'_def)
      then show ?thesis using get_parent_dir cl(2) by blast
    qed
    moreover have "dir_at (put h ?S None) (butlast ?S) = dir_at h (butlast ?S)"
      by (rule dir_at_put_above) (metis append_butlast_last_id cl(2) prefixI strict_prefix_def not_prefix_butlast)
    ultimately show "B' mat (put h ?S None) st en"
      using a source_removed_put(2) [OF pub e op(3)] by (simp add: A'_def B'_def stage_def)
    show "\<not> F \<and> half_published h0 st0 en0 stage d p True n (put h ?S v) st en" if "\<not> F"
      using that a rows source_removed_put(1) [OF pub e op(3)] by (simp add: A'_def half_published_def)
  qed
  have sync: "hoare (holds F (B' True)) (sync_parent_directory ?S) (\<lambda>_. holds F (B' True)) ?E ?H"
  proof (rule weaken_error [OF sync_parent_spec])
    fix x h st en assume a: "B' True h st en \<and> (F \<longrightarrow> k_opendir h (butlast ?S) = Inl x)"
    then have "k_opendir h (butlast ?S) \<noteq> Inl x"
      using k_stat_dir [of "butlast ?S" h] cl by (auto simp: B'_def)
    with a B_half show "\<not> F \<and> half_published h0 st0 en0 stage d p True n h st en"
      unfolding B'_def by blast
  qed
  have maybe: "hoare (holds F (B' mat)) (if mat then sync_parent_directory ?S else ret ()) (\<lambda>_. holds F ?B) ?E ?H" for mat
  proof (cases mat)
    case True
    have "hoare (holds F (B' True)) (sync_parent_directory ?S) (\<lambda>_. holds F ?B) ?E ?H"
      by (rule hoare_post [OF sync]) (auto simp: B'_def holds_def)
    with True show ?thesis by simp
  next
    case False
    then show ?thesis by (auto intro!: hoare_ret simp: B'_def holds_def)
  qed
  have fp: "hoare (holds F ?B) (trigger_failpoint e name ctxt) (\<lambda>_. holds F ?B) ?E ?H" for name ctxt
    by (rule hoare_conseq [OF failpoint_spec [where C = ?B]]) (auto simp: holds_def)
  have steps: "hoare (holds F (A' mat))
      (bnd (catch (bnd (fs_remove_all ?S) (\<lambda>_. if mat then sync_parent_directory ?S else ret ())) (\<lambda>_. fail EIO)) (\<lambda>_.
       trigger_failpoint e name ctxt)) (\<lambda>_. holds F ?B) ?E ?H" for mat name ctxt
    by (rule hoare_bnd [OF hoare_catch [OF hoare_bnd [OF rm maybe] hoare_fail] fp])
  show ?thesis
    unfolding remove_rename_source_def Let_def S
    by (rule hoare_gets_bnd, rule hoare_pre [OF steps]) (auto simp: A'_def holds_def)
qed

definition finished_store :: "env \<Rightarrow> recovery_operation \<Rightarrow> store \<Rightarrow> store" where
  "finished_store e op st = sql_finish (sql_like e) op st"

lemma complete_publication_spec:
  assumes pub: "publishable op0 h0 st0 en0 d p" and en: "same_engine en1 en0"
    and op: "op_kind op = op_kind op0" "op_path op = op_path op0" "op_target op = op_target op0"
    and rows: "tombstone_rows st2 = tombstone_rows st0"
  defines "stage \<equiv> stage_of en0 st0"
  shows "hoare (holds F (\<lambda>h st en. entry_published h0 en0 stage d n h \<and> st = st2 \<and> same_engine en en0))
    (complete_publication e en1 op)
    (\<lambda>_. holds F (\<lambda>h st en. publication_done op0 h0 en0 stage d p n h \<and> st = finished_store e op st2 \<and>
       same_engine en (en0\<lparr>tombstones := apply_tombstones op (tombstones en0)\<rparr>)))
    (\<lambda>_. holds F (\<lambda>h st en. \<not> F \<and> half_published h0 st0 en0 stage d p (op_kind op0 = ''rename'') n h st en))
    (\<lambda>_. holds F (\<lambda>h st en. tribios_failpoint e \<noteq> None \<and>
       published_image op0 h0 en0 stage d p n st2 (finished_store e op st2) h st))"
proof -
  let ?D = "upper_dir en0 @ d" and ?R = "recovery_dir en0"
  let ?A = "\<lambda>h st en. entry_published h0 en0 stage d n h \<and> st = st2 \<and> same_engine en en0"
  let ?B = "\<lambda>h st en. publication_done op0 h0 en0 stage d p n h \<and> st = st2 \<and> same_engine en en0"
  let ?C = "\<lambda>h st en. publication_done op0 h0 en0 stage d p n h \<and> st = finished_store e op st2 \<and> same_engine en en0"
  let ?G = "\<lambda>h st en. publication_done op0 h0 en0 stage d p n h \<and> st = finished_store e op st2 \<and>
       same_engine en (en0\<lparr>tombstones := apply_tombstones op (tombstones en0)\<rparr>)"
  let ?E = "\<lambda>_. holds F (\<lambda>h st en. \<not> F \<and> half_published h0 st0 en0 stage d p (op_kind op0 = ''rename'') n h st en)"
  let ?H = "\<lambda>_. holds F (\<lambda>h st en. tribios_failpoint e \<noteq> None \<and>
       published_image op0 h0 en0 stage d p n st2 (finished_store e op st2) h st)"
  have lay: "layout en0 h0" and dest: "dest_of op0 = unsegs d" using pub by (auto simp: publishable_def)
  note paths = publishable_paths [OF pub]
  have D: "upper_path en1 (if op_kind op = ''rename'' then op_target op else op_path op) = ?D"
    using dest pub op same_engineD [OF en]
    by (auto simp: upper_path_def dest_of_def publishable_def split: if_splits)
  have R: "recovery_dir en1 = ?R" using en by (simp add: same_engineD)
  have A_half: "half_published h0 st0 en0 stage d p m n h st en" if "?A h st en" for h st en m
    using that rows by (auto simp: half_published_def)
  have B_half: "half_published h0 st0 en0 stage d p (op_kind op0 = ''rename'') n h st en" if "?B h st en" for h st en
    using that rows
    by (auto simp: half_published_def publication_done_def source_removed_def source_in_removal_def split: if_splits)
  have fpA: "hoare (holds F ?A) (trigger_failpoint e name ctxt) (\<lambda>_. holds F ?A) ?E ?H" for name ctxt
    by (rule hoare_conseq [OF failpoint_spec [where C = ?A]]) (auto simp: holds_def published_image_def)
  have fpG: "hoare (holds F ?G) (trigger_failpoint e name ctxt) (\<lambda>_. holds F ?G) ?E ?H" for name ctxt
    by (rule hoare_conseq [OF failpoint_spec [where C = ?G]]) (auto simp: holds_def published_image_def)
  have sync: "hoare (holds F ?A) (sync_parent_directory ?D) (\<lambda>_. holds F ?A) ?E ?H"
  proof (rule weaken_error [OF sync_parent_spec])
    fix x h st en assume a: "?A h st en \<and> (F \<longrightarrow> k_opendir h (butlast ?D) = Inl x)"
    then have "dir_at h (butlast ?D)" using entry_published_dirs(1) [OF pub] paths(7) by auto
    then have "k_opendir h (butlast ?D) \<noteq> Inl x" using k_stat_dir [of "butlast ?D" h] paths(5) by auto
    with a A_half show "\<not> F \<and> half_published h0 st0 en0 stage d p (op_kind op0 = ''rename'') n h st en" by blast
  qed
  have source: "hoare (holds F ?A) (if op_kind op = ''rename'' then remove_rename_source e en1 op else ret ())
      (\<lambda>_. holds F ?B) ?E ?H"
  proof (cases "op_kind op0 = ''rename''")
    case True
    have "hoare (holds F ?A) (remove_rename_source e en1 op) (\<lambda>_. holds F ?B) ?E ?H"
      by (rule hoare_conseq [OF remove_rename_source_spec
            [OF pub en _ op(2) True rows, of F n e, folded stage_def]])
        (use True op in \<open>auto simp: publication_done_def published_image_def holds_def\<close>)
    with True op show ?thesis by simp
  next
    case False
    with op show ?thesis by (auto intro!: hoare_ret simp: publication_done_def holds_def)
  qed
  have finish: "hoare (holds F ?B) (catch (finish_recovery_operation e op) (\<lambda>_. fail EIO)) (\<lambda>_. holds F ?C) ?E ?H"
    by (rule hoare_catch [OF weaken_error [OF finish_spec [where D = ?C]] hoare_fail])
      (auto simp: finished_store_def intro: B_half)
  have memory: "hoare (holds F ?C) (on_engine (\<lambda>en. en\<lparr>tombstones := apply_tombstones op (tombstones en)\<rparr>)) (\<lambda>_. holds F ?G) ?E ?H"
    unfolding on_engine_def
    by (rule on_engine_spec) (auto intro: same_engine_tombstones)
  have clean_up: "hoare (holds F ?G) (attempt (fs_remove ?R)) (\<lambda>_. holds F ?G) ?E ?H"
  proof (rule fs_remove_attempt_spec)
    fix h st en assume g: "?G h st en"
    then have fin: "publication_done op0 h0 en0 (stage_of en0 st0) d p n h" by (simp add: stage_def)
    from publication_done_cleanup [OF pub fin] g
    show "?G (put h ?R None) st en" by (simp add: stage_def)
    from publication_done_cleanup(2) [OF pub fin] layout_clean [OF lay]
    show "clean ?R \<and> ?R \<noteq> [] \<and> dir_at h (butlast ?R)" by (simp add: recovery_dir_def)
  qed
  have last: "hoare (holds F ?G) (ret ()) (\<lambda>_. holds F ?G) ?E ?H" by (rule hoare_ret)
  show ?thesis
    unfolding complete_publication_def Let_def D R
    by (rule hoare_bnd [OF fpA hoare_bnd [OF hoare_catch [OF sync hoare_fail] hoare_bnd [OF source
          hoare_bnd [OF finish hoare_bnd [OF memory hoare_bnd [OF fpG hoare_bnd [OF clean_up last]]]]]]])
qed

section \<open>The whole publication\<close>

definition journaled :: "recovery_operation \<Rightarrow> store \<Rightarrow> store" where
  "journaled op st = sql_begin_recovery_operation op st"

definition journaled_publishing :: "recovery_operation \<Rightarrow> store \<Rightarrow> store" where
  "journaled_publishing op st =
     sql_set_recovery_operation_phase (operation_seq st + 1) Publishing (journaled op st)"

definition as_published :: "recovery_operation \<Rightarrow> store \<Rightarrow> recovery_operation" where
  "as_published op st = op\<lparr>op_id := operation_seq st + 1, op_phase := Publishing\<rparr>"

text \<open>
  The file system and the database that a process exit during the publication can leave: before the
  rename the row is there and only the recovery directory has changed; after it the entry is in place.
\<close>

definition crash_image ::
  "env \<Rightarrow> recovery_operation \<Rightarrow> node \<Rightarrow> store \<Rightarrow> engine \<Rightarrow> path \<Rightarrow> path \<Rightarrow> (node \<Rightarrow> bool) \<Rightarrow> node \<Rightarrow> store \<Rightarrow> bool"
where
  "crash_image e op h0 st0 en0 d p staged h st \<longleftrightarrow>
     untouched h0 en0 h \<and> st = journaled op st0 \<or>
     (\<exists>n. staged n \<and> stage_filled h0 en0 (stage_of en0 st0) n h \<and> st = journaled_publishing op st0) \<or>
     (\<exists>n. staged n \<and> published_image op h0 en0 (stage_of en0 st0) d p n (journaled_publishing op st0)
        (finished_store e (as_published op st0) (journaled_publishing op st0)) h st)"

lemma apply_tombstones_row [simp]:
  "apply_tombstones (op\<lparr>op_id := i, op_phase := ph\<rparr>) T = apply_tombstones op T"
  by (cases op) (simp add: apply_tombstones_def)

context preparing
begin

lemma publish_spec:
  assumes pub: "publishable op0 h0 st0 en0 d p"
    and ready: "\<And>h en. outside {recovery_dir en0} h0 h \<Longrightarrow> dir_at h (recovery_dir en0) \<Longrightarrow>
      same_engine en en0 \<Longrightarrow> ready h en (stage_of en0 st0)"
    and no_fault: "F \<Longrightarrow> tribios_io_fault e = None"
    and rep: "\<And>n. F \<Longrightarrow> staged n \<Longrightarrow> replaceable n (get h0 (upper_dir en0 @ d))"
  shows "hoare (holds F (\<lambda>h st en. h = h0 \<and> st = st0 \<and> same_engine en en0)) (publish_staged_operation e op0 prepare)
    (\<lambda>a. holds F (\<lambda>h st en. a = returned \<and>
       (\<exists>n. staged n \<and> publication_done op0 h0 en0 (stage_of en0 st0) d p n h) \<and>
       st = finished_store e (as_published op0 st0) (journaled_publishing op0 st0) \<and>
       same_engine en (en0\<lparr>tombstones := apply_tombstones op0 (tombstones en0)\<rparr>)))
    (\<lambda>_. holds F (\<lambda>h st en. \<not> F \<and>
       (rolled_back h0 st0 en0 h st en \<or>
        (\<exists>n. staged n \<and> half_published h0 st0 en0 (stage_of en0 st0) d p (op_kind op0 = ''rename'') n h st en))))
    (\<lambda>_. holds F (\<lambda>h st en. tribios_failpoint e \<noteq> None \<and> crash_image e op0 h0 st0 en0 d p staged h st))"
    (is "hoare (holds F ?A0) _ ?Q ?E ?H")
proof -
  let ?R = "recovery_dir en0" and ?stage = "stage_of en0 st0" and ?i = "operation_seq st0 + 1"
  define st1 where "st1 = journaled op0 st0"
  define st2 where "st2 = journaled_publishing op0 st0"
  let ?A1 = "\<lambda>h st en. h = h0 \<and> st = st1 \<and> same_engine en en0"
  let ?F1 = "\<lambda>h st en. (\<exists>n. staged n \<and> stage_filled h0 en0 ?stage n h) \<and> st = st1 \<and> same_engine en en0"
  let ?F2 = "\<lambda>h st en. (\<exists>n. staged n \<and> stage_filled h0 en0 ?stage n h) \<and> st = st2 \<and> same_engine en en0"
  let ?P2 = "\<lambda>h st en. (\<exists>n. staged n \<and> entry_published h0 en0 ?stage d n h) \<and> st = st2 \<and> same_engine en en0"
  note paths = publishable_paths [OF pub]
  have lay: "layout en0 h0" and fresh: "get h0 ?stage = None" using pub by (auto simp: publishable_def)
  have stage: "?stage = ?R @ [show_int ?i]" by (simp add: stage_of_def stage_path_def)
  have R0: "recovery_ok en0 h0" using lay by (simp add: layout_def recovery_ok_def)
  have rows: "tombstone_rows st1 = tombstone_rows st0" "tombstone_rows st2 = tombstone_rows st0"
    by (simp_all add: st1_def st2_def journaled_def journaled_publishing_def
        sql_begin_recovery_operation_def sql_set_recovery_operation_phase_def)
  have A0_back: "rolled_back h0 st0 en0 h st en" if "?A0 h st en" for h st en
    using that R0 by (auto simp: rolled_back_def untouched_def)
  have F_back: "rolled_back h0 st0 en0 h st en" if "?F1 h st en \<or> ?F2 h st en" for h st en
    using that rows by (auto simp: rolled_back_def untouched_def stage_filled_def recovery_ok_def)
  have inj0: "hoare (holds F ?A0) (inject e b) (\<lambda>_. holds F ?A0) ?E ?H" for b
    by (rule weaken_error [OF inject_spec]) (use no_fault in \<open>auto intro: A0_back\<close>)
  have fg: "hoare (holds F ?A0) (forget_cached_directory_entries rel) (\<lambda>_. holds F ?A0) ?E ?H" for rel
    by (rule forget_spec) simp
  have fg2: "hoare (holds F ?A0)
      (if op_kind op0 = ''rename'' then forget_cached_directory_entries (op_target op0) else ret ())
      (\<lambda>_. holds F ?A0) ?E ?H"
    by (rule hoare_if, rule fg, rule hoare_ret)
  have begin_op: "hoare (holds F ?A0) (catch (begin_recovery_operation e op0) (\<lambda>_. fail EIO))
      (\<lambda>i. holds F (\<lambda>h st en. ?A1 h st en \<and> i = ?i)) ?E ?H"
    by (rule hoare_catch [OF weaken_error [OF begin_spec [where D = "\<lambda>i h st en. ?A1 h st en \<and> i = ?i"]] hoare_fail])
      (auto simp: st1_def journaled_def intro: A0_back)
  have fp1: "hoare (holds F ?A1) (trigger_failpoint e name ctxt) (\<lambda>_. holds F ?A1) ?E ?H" for name ctxt
    by (rule hoare_conseq [OF failpoint_spec [where C = ?A1]])
      (use R0 in \<open>auto simp: holds_def crash_image_def st1_def untouched_def\<close>)
  have prep: "hoare (holds F ?A1) (prepare_stage e en1 (op0\<lparr>op_id := ?i\<rparr>) ?stage prepare)
      (\<lambda>a. holds F (\<lambda>h st en. ?F1 h st en \<and> a = returned)) ?E ?H" if "same_engine en1 en0" for en1
    by (rule hoare_conseq [OF prepare_stage_spec
          [OF lay stage paths(1) fresh that _ ready no_fault rows(1)]]) (auto simp: holds_def)
  have fp2: "hoare (holds F ?F1) (trigger_failpoint e name ctxt) (\<lambda>_. holds F ?F1) ?E ?H" for name ctxt
    by (rule hoare_conseq [OF failpoint_spec [where C = ?F1]])
      (auto simp: holds_def crash_image_def st1_def untouched_def stage_filled_def recovery_ok_def)
  have ab: "hoare (holds F (\<lambda>h st en. \<not> F \<and> rolled_back h0 st0 en0 h st en)) (abandon_staged e ?stage ?i err) Q ?E ?H" for err and Q :: "'c \<Rightarrow> _"
    by (rule hoare_conseq [OF rolled_back_spec [OF lay stage paths(1)]]) (auto simp: holds_def)
  have inj1: "hoare (holds F ?F1) (catch (inject e b) (abandon_staged e ?stage ?i)) (\<lambda>_. holds F ?F1) ?E ?H" for b
    by (rule hoare_catch [OF weaken_error [OF inject_spec] ab]) (use no_fault in \<open>auto intro: F_back\<close>)
  have phase: "hoare (holds F ?F1)
      (catch (set_recovery_operation_phase e ?i Publishing) (\<lambda>_. abandon_staged e ?stage ?i EIO)) (\<lambda>_. holds F ?F2) ?E ?H"
    by (rule hoare_catch [OF weaken_error [OF phase_spec [where D = ?F2]] ab])
      (auto simp: st1_def st2_def journaled_publishing_def intro: F_back)
  have fp3: "hoare (holds F ?F2) (trigger_failpoint e name ctxt) (\<lambda>_. holds F ?F2) ?E ?H" for name ctxt
    by (rule hoare_conseq [OF failpoint_spec [where C = ?F2]])
      (auto simp: holds_def crash_image_def st2_def)
  have ren: "hoare (holds F ?F2) (publish_stage e en1 (op0\<lparr>op_id := ?i\<rparr>) ?stage) (\<lambda>_. holds F ?P2) ?E ?H"
    if "same_engine en1 en0" for en1
    by (rule hoare_conseq [OF publish_stage_spec [OF pub that _ no_fault rows(2) rep]])
      (use pub in \<open>auto simp: holds_def publishable_def dest_of_def\<close>)
  have fin: "hoare (holds F ?P2) (complete_publication e en1 (op0\<lparr>op_id := ?i, op_phase := Publishing\<rparr>))
      (\<lambda>_. holds F (\<lambda>h st en. (\<exists>n. staged n \<and> publication_done op0 h0 en0 ?stage d p n h) \<and>
       st = finished_store e (as_published op0 st0) st2 \<and>
       same_engine en (en0\<lparr>tombstones := apply_tombstones op0 (tombstones en0)\<rparr>))) ?E ?H"
    if en1: "same_engine en1 en0" for en1
  proof -
    have one: "hoare (holds F (\<lambda>h st en. staged n \<and> entry_published h0 en0 ?stage d n h \<and> st = st2 \<and> same_engine en en0))
      (complete_publication e en1 (op0\<lparr>op_id := ?i, op_phase := Publishing\<rparr>))
      (\<lambda>_. holds F (\<lambda>h st en. (\<exists>n. staged n \<and> publication_done op0 h0 en0 ?stage d p n h) \<and>
       st = finished_store e (as_published op0 st0) st2 \<and>
       same_engine en (en0\<lparr>tombstones := apply_tombstones op0 (tombstones en0)\<rparr>))) ?E ?H" for n
    proof (rule hoare_const [where c = "staged n"])
      assume n: "staged n"
      show "hoare (holds F (\<lambda>h st en. staged n \<and> entry_published h0 en0 ?stage d n h \<and> st = st2 \<and> same_engine en en0))
        (complete_publication e en1 (op0\<lparr>op_id := ?i, op_phase := Publishing\<rparr>))
        (\<lambda>_. holds F (\<lambda>h st en. (\<exists>n. staged n \<and> publication_done op0 h0 en0 ?stage d p n h) \<and>
         st = finished_store e (as_published op0 st0) st2 \<and>
         same_engine en (en0\<lparr>tombstones := apply_tombstones op0 (tombstones en0)\<rparr>))) ?E ?H"
        by (rule hoare_conseq [OF complete_publication_spec
              [OF pub en1 _ _ _ rows(2), where op = "op0\<lparr>op_id := ?i, op_phase := Publishing\<rparr>" and n = n]])
          (use n in \<open>auto simp: holds_def as_published_def crash_image_def st2_def\<close>)
    qed (auto simp: holds_def)
    show ?thesis
      by (rule hoare_pre [OF hoare_ex [OF one]]) (auto simp: holds_def)
  qed
  have tail: "hoare (holds F (\<lambda>h st en. ?F1 h st en \<and> a = returned))
      (bnd (trigger_failpoint e n1 c1) (\<lambda>_.
       bnd (catch (inject e b) (abandon_staged e ?stage ?i)) (\<lambda>_.
       bnd (catch (set_recovery_operation_phase e ?i Publishing) (\<lambda>_. abandon_staged e ?stage ?i EIO)) (\<lambda>_.
       bnd (trigger_failpoint e n2 c2) (\<lambda>_.
       bnd (publish_stage e en1 (op0\<lparr>op_id := ?i\<rparr>) ?stage) (\<lambda>_.
       bnd (complete_publication e en1 (op0\<lparr>op_id := ?i, op_phase := Publishing\<rparr>)) (\<lambda>_.
       ret a)))))) ) ?Q ?E ?H" if "same_engine en1 en0" for a en1 n1 c1 b n2 c2
  proof (rule hoare_const [where c = "a = returned"])
    assume a: "a = returned"
    have "hoare (holds F (\<lambda>h st en. (\<exists>n. staged n \<and> publication_done op0 h0 en0 ?stage d p n h) \<and>
       st = finished_store e (as_published op0 st0) st2 \<and>
       same_engine en (en0\<lparr>tombstones := apply_tombstones op0 (tombstones en0)\<rparr>))) (ret a) ?Q ?E ?H"
      by (rule hoare_ret) (auto simp: a holds_def st2_def)
    from hoare_bnd [OF fp2 hoare_bnd [OF inj1 hoare_bnd [OF phase hoare_bnd [OF fp3
          hoare_bnd [OF ren [OF that] hoare_bnd [OF fin [OF that] this]]]]]]
    show ?thesis by (rule hoare_pre) (auto simp: holds_def)
  qed (auto simp: holds_def)
  have named: "hoare (\<lambda>s. holds F ?A1 s \<and> en1 = eng s)
      (let op = op0\<lparr>op_id := ?i\<rparr>; stage = stage_path en1 ?i;
           failpoint = (\<lambda>suffix. trigger_failpoint e (op_kind op @ ''.'' @ suffix)
                                   (operation_context en1 ?i (op_path op)))
       in
       bnd (failpoint ''after_journal'') (\<lambda>_.
       bnd (prepare_stage e en1 op stage prepare) (\<lambda>a.
       bnd (failpoint ''after_stage_flush'') (\<lambda>_.
       bnd (catch (inject e ''journal.phase'') (abandon_staged e stage ?i)) (\<lambda>_.
       bnd (catch (set_recovery_operation_phase e ?i Publishing) (\<lambda>_. abandon_staged e stage ?i EIO)) (\<lambda>_.
       bnd (failpoint ''before_publish'') (\<lambda>_.
       bnd (publish_stage e en1 op stage) (\<lambda>_.
       bnd (complete_publication e en1 (op\<lparr>op_phase := Publishing\<rparr>)) (\<lambda>_.
       ret a))))))))) ?Q ?E ?H" for en1
  proof (rule hoare_const [where c = "same_engine en1 en0"])
    assume en1: "same_engine en1 en0"
    have st: "stage_path en1 ?i = ?stage"
      using same_engineD [OF en1] by (simp add: stage_of_def stage_path_def)
    show "hoare (\<lambda>s. holds F ?A1 s \<and> en1 = eng s)
      (let op = op0\<lparr>op_id := ?i\<rparr>; stage = stage_path en1 ?i;
           failpoint = (\<lambda>suffix. trigger_failpoint e (op_kind op @ ''.'' @ suffix)
                                   (operation_context en1 ?i (op_path op)))
       in
       bnd (failpoint ''after_journal'') (\<lambda>_.
       bnd (prepare_stage e en1 op stage prepare) (\<lambda>a.
       bnd (failpoint ''after_stage_flush'') (\<lambda>_.
       bnd (catch (inject e ''journal.phase'') (abandon_staged e stage ?i)) (\<lambda>_.
       bnd (catch (set_recovery_operation_phase e ?i Publishing) (\<lambda>_. abandon_staged e stage ?i EIO)) (\<lambda>_.
       bnd (failpoint ''before_publish'') (\<lambda>_.
       bnd (publish_stage e en1 op stage) (\<lambda>_.
       bnd (complete_publication e en1 (op\<lparr>op_phase := Publishing\<rparr>)) (\<lambda>_.
       ret a))))))))) ?Q ?E ?H"
      unfolding Let_def st
      by (rule hoare_pre, rule hoare_bnd [OF fp1], rule hoare_bnd [OF prep [OF en1]], rule tail [OF en1]) simp
  qed (auto simp: holds_def)
  have counted: "hoare (holds F (\<lambda>h st en. ?A1 h st en \<and> i = ?i))
      (bnd (gets eng) (\<lambda>en1.
       let op = op0\<lparr>op_id := i\<rparr>; stage = stage_path en1 i;
           failpoint = (\<lambda>suffix. trigger_failpoint e (op_kind op @ ''.'' @ suffix)
                                   (operation_context en1 i (op_path op)))
       in
       bnd (failpoint ''after_journal'') (\<lambda>_.
       bnd (prepare_stage e en1 op stage prepare) (\<lambda>a.
       bnd (failpoint ''after_stage_flush'') (\<lambda>_.
       bnd (catch (inject e ''journal.phase'') (abandon_staged e stage i)) (\<lambda>_.
       bnd (catch (set_recovery_operation_phase e i Publishing) (\<lambda>_. abandon_staged e stage i EIO)) (\<lambda>_.
       bnd (failpoint ''before_publish'') (\<lambda>_.
       bnd (publish_stage e en1 op stage) (\<lambda>_.
       bnd (complete_publication e en1 (op\<lparr>op_phase := Publishing\<rparr>)) (\<lambda>_.
       ret a)))))))))) ?Q ?E ?H" for i
  proof (rule hoare_const [where c = "i = ?i"])
    assume i: "i = ?i"
    show "hoare (holds F (\<lambda>h st en. ?A1 h st en \<and> i = ?i))
      (bnd (gets eng) (\<lambda>en1.
       let op = op0\<lparr>op_id := i\<rparr>; stage = stage_path en1 i;
           failpoint = (\<lambda>suffix. trigger_failpoint e (op_kind op @ ''.'' @ suffix)
                                   (operation_context en1 i (op_path op)))
       in
       bnd (failpoint ''after_journal'') (\<lambda>_.
       bnd (prepare_stage e en1 op stage prepare) (\<lambda>a.
       bnd (failpoint ''after_stage_flush'') (\<lambda>_.
       bnd (catch (inject e ''journal.phase'') (abandon_staged e stage i)) (\<lambda>_.
       bnd (catch (set_recovery_operation_phase e i Publishing) (\<lambda>_. abandon_staged e stage i EIO)) (\<lambda>_.
       bnd (failpoint ''before_publish'') (\<lambda>_.
       bnd (publish_stage e en1 op stage) (\<lambda>_.
       bnd (complete_publication e en1 (op\<lparr>op_phase := Publishing\<rparr>)) (\<lambda>_.
       ret a)))))))))) ?Q ?E ?H"
      unfolding i by (rule hoare_gets_bnd, rule hoare_pre [OF named]) (auto simp: holds_def)
  qed (auto simp: holds_def)
  show ?thesis
    unfolding publish_staged_operation_def
    by (rule hoare_bnd [OF inj0 hoare_bnd [OF fg hoare_bnd [OF fg2 hoare_bnd [OF begin_op counted]]]])
qed

end

end
