(* ===== verification/Sha1.thy ===== *)
theory Sha1
  imports Prelude
begin

text \<open>
  The checksum that seals a Git index (\<^verbatim>\<open>core/sha1.cpp\<close>), on 32-bit words, and its agreement with the
  textbook form: pad the whole message, then compress it block by block.
\<close>

unbundle bit_operations_syntax

section \<open>Definitions\<close>

type_synonym u32 = "32 word"
type_synonym sha1_state = "u32 \<times> u32 \<times> u32 \<times> u32 \<times> u32"

definition byte_word :: "char \<Rightarrow> u32" where
  "byte_word c = word_of_nat (of_char c)"

definition block_word :: "string \<Rightarrow> nat \<Rightarrow> u32" where
  "block_word block i =
     push_bit 24 (byte_word (block ! (i * 4))) OR push_bit 16 (byte_word (block ! (i * 4 + 1))) OR
     push_bit 8 (byte_word (block ! (i * 4 + 2))) OR byte_word (block ! (i * 4 + 3))"

definition extend_words :: "u32 list \<Rightarrow> nat \<Rightarrow> u32 list" where
  "extend_words words i =
     words @ [word_rotl 1 (words ! (i - 3) XOR words ! (i - 8) XOR words ! (i - 14) XOR words ! (i - 16))]"

definition message_schedule :: "string \<Rightarrow> u32 list" where
  "message_schedule block = foldl extend_words (map (block_word block) [0..<16]) [16..<80]"

definition sha1_round :: "u32 list \<Rightarrow> sha1_state \<Rightarrow> nat \<Rightarrow> sha1_state" where
  "sha1_round words s i =
     (case s of (a, b, c, d, e) \<Rightarrow>
        let (mixed, constant) =
              (if i < 20 then ((b AND c) OR (NOT b AND d), 0x5a827999)
               else if i < 40 then (b XOR c XOR d, 0x6ed9eba1)
               else if i < 60 then ((b AND c) OR (b AND d) OR (c AND d), 0x8f1bbcdc)
               else (b XOR c XOR d, 0xca62c1d6));
            next_word = word_rotl 5 a + mixed + e + constant + words ! i
        in (next_word, a, word_rotl 30 b, c, d))"

definition compress_sha1_block :: "sha1_state \<Rightarrow> string \<Rightarrow> sha1_state" where
  "compress_sha1_block state block =
     (case (state, foldl (sha1_round (message_schedule block)) state [0..<80]) of
        ((h0, h1, h2, h3, h4), (a, b, c, d, e)) \<Rightarrow> (h0 + a, h1 + b, h2 + c, h3 + d, h4 + e))"

definition sha1_initial :: sha1_state where
  "sha1_initial = (0x67452301, 0xefcdab89, 0x98badcfe, 0x10325476, 0xc3d2e1f0)"

lemma mod_Suc_64: "Suc n mod 64 = (if n mod 64 = 63 then 0 else Suc (n mod 64))" for n :: nat
  by (simp add: mod_Suc)

lemma mod_64_cases:
  fixes k r :: nat
  assumes "r < 64" "64 \<le> k" "k < 128"
  shows "(k - r) mod 64 = (if r \<le> k - 64 then k - 64 - r else k - r)"
proof (cases "r \<le> k - 64")
  case True
  then have "k - r = 64 + (k - 64 - r)" using assms by linarith
  then have "(k - r) mod 64 = (k - 64 - r) mod 64" by (simp only: mod_add_self1)
  then show ?thesis using True assms by auto
next
  case False
  then show ?thesis using assms by auto
qed

lemma pad_step:
  fixes n :: nat
  assumes "n mod 64 \<noteq> 56"
  shows "(120 - n mod 64) mod 64 = Suc ((120 - Suc n mod 64) mod 64)"
proof -
  define r where "r = n mod 64"
  have r: "r < 64" "r \<noteq> 56" using assms by (auto simp: r_def)
  have s: "Suc n mod 64 = (if r = 63 then 0 else Suc r)" by (simp add: mod_Suc_64 r_def)
  show ?thesis
    using r unfolding s r_def[symmetric]
    by (cases "r = 63") (auto simp: mod_64_cases[of r 120] mod_64_cases[of r 119])
qed

function pad_zeros :: "string \<Rightarrow> string" where
  "pad_zeros tail = (if length tail mod 64 \<noteq> 56 then pad_zeros (tail @ [CHR 0x00]) else tail)"
  by pat_completeness auto
termination
proof (relation "measure (\<lambda>tail. (120 - length tail mod 64) mod 64)")
  fix tail :: string
  assume "length tail mod 64 \<noteq> 56"
  then show "(tail @ [CHR 0x00], tail) \<in> measure (\<lambda>tail. (120 - length tail mod 64) mod 64)"
    by (simp add: pad_step)
qed simp

declare pad_zeros.simps [simp del]

definition length_byte :: "64 word \<Rightarrow> nat \<Rightarrow> char" where
  "length_byte bit_length shift = char_of (unat (drop_bit shift bit_length AND 0xff))"

definition sha1_tail :: "string \<Rightarrow> nat \<Rightarrow> string" where
  "sha1_tail rest message_size =
     (let bit_length = word_of_nat message_size * 8
      in pad_zeros (rest @ [CHR 0x80]) @ map (length_byte bit_length) [56, 48, 40, 32, 24, 16, 8, 0])"

definition word_bytes :: "u32 \<Rightarrow> string" where
  "word_bytes w =
     map (\<lambda>shift. char_of (unat (drop_bit shift w AND 0xff))) [24, 16, 8, 0]"

fun sha1_output :: "sha1_state \<Rightarrow> string" where
  "sha1_output (a, b, c, d, e) = word_bytes a @ word_bytes b @ word_bytes c @ word_bytes d @ word_bytes e"

definition sha1_digest :: "string \<Rightarrow> string" where
  "sha1_digest data =
     (let whole_blocks = length data div 64;
          state = foldl (\<lambda>st i. compress_sha1_block st (take 64 (drop (i * 64) data))) sha1_initial
                    [0..<whole_blocks];
          tail = sha1_tail (drop (whole_blocks * 64) data) (length data)
      in sha1_output
           (foldl (\<lambda>st i. compress_sha1_block st (take 64 (drop (i * 64) tail))) state
              [0..<(length tail + 63) div 64]))"

section \<open>The message, padded\<close>

fun blocks :: "nat \<Rightarrow> string \<Rightarrow> string list" where
  "blocks 0 s = []"
| "blocks (Suc n) s = take 64 s # blocks n (drop 64 s)"

definition padded :: "string \<Rightarrow> string" where
  "padded data =
     data @ [CHR 0x80] @ replicate ((119 - length data mod 64) mod 64) (CHR 0x00) @
     map (length_byte (word_of_nat (length data) * 8)) [56, 48, 40, 32, 24, 16, 8, 0]"

definition sha1_spec :: "string \<Rightarrow> string" where
  "sha1_spec data =
     sha1_output (foldl compress_sha1_block sha1_initial (blocks (length (padded data) div 64) (padded data)))"

lemma length_word_bytes [simp]: "length (word_bytes w) = 4"
  by (simp add: word_bytes_def)

lemma length_sha1_digest [simp]: "length (sha1_digest data) = 20"
proof -
  have "length (sha1_output st) = 20" for st by (cases st) simp
  then show ?thesis by (simp add: sha1_digest_def Let_def)
qed

lemma pad_zeros_eq: "pad_zeros t = t @ replicate ((120 - length t mod 64) mod 64) (CHR 0x00)"
proof (induction t rule: pad_zeros.induct)
  case (1 t)
  show ?case
  proof (cases "length t mod 64 = 56")
    case True
    then show ?thesis by (subst pad_zeros.simps) simp
  next
    case False
    from False 1 show ?thesis
      by (subst pad_zeros.simps) (simp add: pad_step[OF False])
  qed
qed

lemma blocks_append:
  "length xs = 64 * m \<Longrightarrow> blocks (m + n) (xs @ ys) = blocks m xs @ blocks n ys"
proof (induction m arbitrary: xs)
  case (Suc m)
  then show ?case by simp
qed simp

lemma foldl_blocks:
  "foldl (\<lambda>st i. f st (take 64 (drop (i * 64) s))) st [0..<n] = foldl f st (blocks n s)"
proof -
  have "map (\<lambda>i. take 64 (drop (i * 64) s)) [0..<n] = blocks n s" for n
  proof (induction n arbitrary: s)
    case (Suc n)
    have "[0..<Suc n] = 0 # map Suc [0..<n]" by (simp add: map_Suc_upt upt_conv_Cons del: upt_Suc)
    then have "map (\<lambda>i. take 64 (drop (i * 64) s)) [0..<Suc n] =
        take 64 s # map (\<lambda>i. take 64 (drop (i * 64) (drop 64 s))) [0..<n]"
      by (simp add: add.commute del: upt_Suc)
    also have "\<dots> = blocks (Suc n) s" by (simp only: Suc blocks.simps)
    finally show ?case .
  qed simp
  then show ?thesis by (metis foldl_map)
qed

lemma sha1_tail_eq:
  "sha1_tail (drop (64 * n) data) (length data) = drop (64 * n) (padded data)"
  if "n = length data div 64"
proof -
  have len: "length data - 64 * n = length data mod 64"
    using that by (simp add: minus_div_mult_eq_mod minus_mult_div_eq_mod)
  have le: "64 * n \<le> length data" using that by simp
  have "(120 - Suc (length data mod 64) mod 64) mod 64 = (119 - length data mod 64) mod 64"
  proof -
    have "length data mod 64 < 64" by simp
    then show ?thesis by (cases "length data mod 64 = 63") auto
  qed
  then show ?thesis
    using le len by (simp add: sha1_tail_def padded_def pad_zeros_eq Let_def)
qed

lemma length_padded: "length (padded data) mod 64 = 0"
proof -
  have "length (padded data) = length data + 9 + (119 - length data mod 64) mod 64"
    by (simp add: padded_def)
  moreover have "(length data + 9 + (119 - length data mod 64) mod 64) mod 64 =
      (length data mod 64 + 9 + (119 - length data mod 64) mod 64) mod 64"
    by (metis mod_add_left_eq add.assoc)
  moreover have "r < 64 \<Longrightarrow> (r + 9 + (119 - r) mod 64) mod 64 = 0" for r :: nat
    by (cases "r \<le> 55") (simp_all add: mod_64_cases)
  ultimately show ?thesis by simp
qed

lemma sha1_digest_meets: "sha1_digest data = sha1_spec data"
proof -
  define m where "m = length data div 64"
  define tail where "tail = drop (64 * m) (padded data)"
  have le: "64 * m \<le> length data" by (simp add: m_def)
  have front: "take (64 * m) (padded data) = take (64 * m) data" using le by (simp add: padded_def)
  have "64 * m \<le> length (padded data)" using le by (simp add: padded_def)
  then have total: "length (padded data) = 64 * m + length tail" by (simp add: tail_def)
  then have "length tail mod 64 = 0" using length_padded[of data] by simp
  then obtain k where k: "length tail = 64 * k" by (auto simp: mod_eq_0_iff_dvd)
  have count: "length (padded data) div 64 = m + k" "(length tail + 63) div 64 = k"
    using total k by auto
  have "blocks (m + k) (padded data) = blocks m (take (64 * m) data) @ blocks k tail"
    using blocks_append[of "take (64 * m) data" m k tail] le front
    by (metis append_take_drop_id length_take min.absorb2 tail_def)
  moreover have "blocks m (take (64 * m) data) = blocks m data"
    using blocks_append[of "take (64 * m) data" m 0 "drop (64 * m) data"] le by simp
  moreover have "sha1_tail (drop (m * 64) data) (length data) = tail"
    using sha1_tail_eq[OF m_def] by (simp add: tail_def mult.commute)
  ultimately show ?thesis
    by (simp add: sha1_digest_def sha1_spec_def Let_def m_def[symmetric] count foldl_blocks)
qed

text \<open>C7: the streaming digest (whole blocks first, then the padded tail) is SHA-1 of the padded
  message cut into 64-byte blocks, and it has 20 bytes.\<close>
theorem sha1_digest_meets_spec: "sha1_digest data = sha1_spec data \<and> length (sha1_digest data) = 20"
  using sha1_digest_meets length_sha1_digest by blast

end
