(* ===== verification/Git_Index.thy ===== *)
theory Git_Index
  imports Sha1 Fault_Injection
begin

text \<open>
  The Git index reader (\<^verbatim>\<open>core/git_index.cpp\<close>): entries of format versions 2 to 4 located in the
  bytes of the file, their cached stat data read and rewritten in place, and the trailing checksum.
  Offsets are \<^typ>\<open>nat\<close> (a string is shorter than \<open>2 ^ 63\<close>); the extension sizes are 32-bit words,
  whose sum with 8 the source computes in 32 bits.
\<close>

unbundle bit_operations_syntax

section \<open>Definitions\<close>

definition kHeaderSize :: nat where "kHeaderSize = 12"
definition kChecksumSize :: nat where "kChecksumSize = 20"
definition kModeOffset :: nat where "kModeOffset = 24"
definition kFlagsOffset :: nat where "kFlagsOffset = 60"
definition kPathOffset :: nat where "kPathOffset = 62"
definition kExtendedFlag :: u32 where "kExtendedFlag = 0x4000"

record git_index_stat =
  ctime_seconds :: u32
  ctime_nanoseconds :: u32
  mtime_seconds :: u32
  mtime_nanoseconds :: u32
  device :: u32
  inode :: u32
  uid :: u32
  gid :: u32
  size_field :: u32

definition empty_stat :: git_index_stat where
  "empty_stat =
     \<lparr>ctime_seconds = 0, ctime_nanoseconds = 0, mtime_seconds = 0, mtime_nanoseconds = 0,
      device = 0, inode = 0, uid = 0, gid = 0, size_field = 0\<rparr>"

record git_index_entry =
  ge_path :: string
  ge_mode :: u32
  ge_offset :: nat

record git_index_file =
  gi_bytes :: string
  gi_entries :: "git_index_entry list"

definition read_be32 :: "string \<Rightarrow> nat \<Rightarrow> u32" where
  "read_be32 bytes offset =
     foldl (\<lambda>value i. push_bit 8 value OR byte_word (bytes ! (offset + i))) 0 [0, 1, 2, 3]"

definition write_be32 :: "string \<Rightarrow> nat \<Rightarrow> u32 \<Rightarrow> string" where
  "write_be32 bytes offset value =
     foldl (\<lambda>bs i. bs[offset + i := char_of (unat (drop_bit (24 - 8 * i) value AND 0xff))]) bytes [0, 1, 2, 3]"

function strip_length_loop ::
  "string \<Rightarrow> nat \<Rightarrow> 64 word \<Rightarrow> 8 word \<Rightarrow> nat \<Rightarrow> (64 word \<times> nat) option"
where
  "strip_length_loop bytes end value byte cursor =
     (if byte AND 0x80 \<noteq> 0
      then
        if cursor \<ge> end \<or> value \<ge> drop_bit 7 (- 1) then None
        else
          let byte' = word_of_nat (of_char (bytes ! cursor))
          in strip_length_loop bytes end (push_bit 7 (value + 1) OR ucast (byte' AND 0x7f)) byte' (cursor + 1)
      else Some (value, cursor))"
  by pat_completeness auto
termination
  by (relation "measure (\<lambda>(_, end, _, _, cursor). end - cursor)") auto

declare strip_length_loop.simps [simp del]

definition read_path_strip_length :: "string \<Rightarrow> nat \<Rightarrow> nat \<Rightarrow> (64 word \<times> nat) option" where
  "read_path_strip_length bytes cursor end =
     (if cursor \<ge> end then None
      else
        let byte = word_of_nat (of_char (bytes ! cursor))
        in strip_length_loop bytes end (ucast (byte AND 0x7f)) byte (cursor + 1))"

definition entry_flags :: "string \<Rightarrow> nat \<Rightarrow> u32" where
  "entry_flags bytes offset =
     push_bit 8 (byte_word (bytes ! (offset + kFlagsOffset))) OR
     byte_word (bytes ! (offset + kFlagsOffset + 1))"

text \<open>The path of a version 4 entry, and the path of an older one, each with where the next entry starts.\<close>

definition prefixed_path :: "string \<Rightarrow> nat \<Rightarrow> nat \<Rightarrow> string \<Rightarrow> string + string \<times> nat" where
  "prefixed_path bytes end path_start previous_path =
     (case read_path_strip_length bytes path_start end of
        None \<Rightarrow> Inl ''corrupt Git index path prefix''
      | Some (strip, cursor) \<Rightarrow>
          if unat strip > length previous_path then Inl ''corrupt Git index path prefix''
          else
            (case find_char_from (CHR 0x00) bytes cursor of
               None \<Rightarrow> Inl ''unterminated Git index path''
             | Some terminator \<Rightarrow>
                 if terminator \<ge> end then Inl ''unterminated Git index path''
                 else Inr (take (length previous_path - unat strip) previous_path @
                             take (terminator - cursor) (drop cursor bytes),
                           terminator + 1)))"

definition padded_path :: "string \<Rightarrow> nat \<Rightarrow> nat \<Rightarrow> nat \<Rightarrow> string + string \<times> nat" where
  "padded_path bytes end offset path_start =
     (case find_char_from (CHR 0x00) bytes path_start of
        None \<Rightarrow> Inl ''unterminated Git index path''
      | Some terminator \<Rightarrow>
          if terminator \<ge> end then Inl ''unterminated Git index path''
          else
            let path = take (terminator - path_start) (drop path_start bytes);
                next_entry = offset + (path_start - offset + length path + 8) div 8 * 8
            in if next_entry > end then Inl ''truncated Git index entry'' else Inr (path, next_entry))"

text \<open>The body of the entry loop: the entry and where the next one starts.\<close>

definition parse_entry ::
  "string \<Rightarrow> nat \<Rightarrow> u32 \<Rightarrow> nat \<Rightarrow> string \<Rightarrow> string + git_index_entry \<times> nat"
where
  "parse_entry bytes end version offset previous_path =
     (if offset + kPathOffset > end then Inl ''truncated Git index entry''
      else
        let extended = (entry_flags bytes offset AND kExtendedFlag \<noteq> 0);
            path_start = offset + kPathOffset + (if extended then 2 else 0)
        in
        if extended \<and> version < 3 then Inl ''extended Git index flags in a version 2 index''
        else
          (case (if version = 4 then prefixed_path bytes end path_start previous_path
                 else padded_path bytes end offset path_start) of
             Inl e \<Rightarrow> Inl e
           | Inr (path, next_entry) \<Rightarrow>
               Inr (\<lparr>ge_path = path, ge_mode = read_be32 bytes (offset + kModeOffset),
                      ge_offset = offset\<rparr>, next_entry)))"

fun parse_entries ::
  "string \<Rightarrow> nat \<Rightarrow> u32 \<Rightarrow> nat \<Rightarrow> nat \<Rightarrow> string \<Rightarrow> string + git_index_entry list \<times> nat"
where
  "parse_entries bytes end version 0 offset previous_path = Inr ([], offset)"
| "parse_entries bytes end version (Suc n) offset previous_path =
     (case parse_entry bytes end version offset previous_path of
        Inl e \<Rightarrow> Inl e
      | Inr (entry, next_entry) \<Rightarrow>
          (case parse_entries bytes end version n next_entry (ge_path entry) of
             Inl e \<Rightarrow> Inl e
           | Inr (entries, offset') \<Rightarrow> Inr (entry # entries, offset')))"

partial_function (option) scan_extensions :: "string \<Rightarrow> nat \<Rightarrow> nat \<Rightarrow> (string + nat) option" where
  "scan_extensions bytes end offset =
     (if offset + 8 \<le> end
      then
        (let signature = take 4 (drop offset bytes);
             size = read_be32 bytes (offset + 4)
         in
         if signature = ''link'' then Some (Inl ''split Git indexes are not supported'')
         else if unat size > end - offset - 8
              then Some (Inl (''truncated Git index extension '' @ signature))
         else scan_extensions bytes end (offset + unat (8 + size)))
      else Some (Inr offset))"

definition parse_git_index :: "string \<Rightarrow> (string + git_index_file) option" where
  "parse_git_index bytes =
     (if length bytes < kHeaderSize + kChecksumSize \<or> take 4 bytes \<noteq> ''DIRC''
      then Some (Inl ''not a Git index file'')
      else
        let version = read_be32 bytes 4;
            entry_count = read_be32 bytes 8;
            end = length bytes - kChecksumSize
        in
        if version < 2 \<or> version > 4
        then Some (Inl (''unsupported Git index version '' @ show_nat (unat version)))
        else
          (case parse_entries bytes end version (unat entry_count) kHeaderSize [] of
             Inl e \<Rightarrow> Some (Inl e)
           | Inr (entries, offset) \<Rightarrow>
               (case scan_extensions bytes end offset of
                  None \<Rightarrow> None
                | Some (Inl e) \<Rightarrow> Some (Inl e)
                | Some (Inr offset') \<Rightarrow>
                    if offset' \<noteq> end then Some (Inl ''trailing bytes after the Git index extensions'')
                    else Some (Inr \<lparr>gi_bytes = bytes, gi_entries = entries\<rparr>))))"

definition read_git_index_stat :: "git_index_file \<Rightarrow> git_index_entry \<Rightarrow> git_index_stat" where
  "read_git_index_stat index entry =
     (let bytes = gi_bytes index; at = ge_offset entry
      in \<lparr>ctime_seconds = read_be32 bytes at, ctime_nanoseconds = read_be32 bytes (at + 4),
          mtime_seconds = read_be32 bytes (at + 8), mtime_nanoseconds = read_be32 bytes (at + 12),
          device = read_be32 bytes (at + 16), inode = read_be32 bytes (at + 20),
          uid = read_be32 bytes (at + 28), gid = read_be32 bytes (at + 32),
          size_field = read_be32 bytes (at + 36)\<rparr>)"

definition write_git_index_stat ::
  "git_index_file \<Rightarrow> git_index_entry \<Rightarrow> git_index_stat \<Rightarrow> git_index_file"
where
  "write_git_index_stat index entry stat =
     (let at = ge_offset entry;
          b0 = write_be32 (gi_bytes index) at (ctime_seconds stat);
          b1 = write_be32 b0 (at + 4) (ctime_nanoseconds stat);
          b2 = write_be32 b1 (at + 8) (mtime_seconds stat);
          b3 = write_be32 b2 (at + 12) (mtime_nanoseconds stat);
          b4 = write_be32 b3 (at + 16) (device stat);
          b5 = write_be32 b4 (at + 20) (inode stat);
          b6 = write_be32 b5 (at + 28) (uid stat);
          b7 = write_be32 b6 (at + 32) (gid stat);
          b8 = write_be32 b7 (at + 36) (size_field stat)
      in index\<lparr>gi_bytes := b8\<rparr>)"

definition seal_git_index :: "git_index_file \<Rightarrow> git_index_file" where
  "seal_git_index index =
     (let content_size = length (gi_bytes index) - kChecksumSize;
          content = take content_size (gi_bytes index)
      in index\<lparr>gi_bytes := content @ sha1_digest content @ drop (content_size + kChecksumSize) (gi_bytes index)\<rparr>)"

section \<open>Big-endian words\<close>

lemma length_write_be32 [simp]: "length (write_be32 bytes offset v) = length bytes"
  by (simp add: write_be32_def)

lemma nth_write_be32:
  assumes "p < length bytes"
  shows "write_be32 bytes offset v ! p =
     (if offset \<le> p \<and> p < offset + 4
      then char_of (unat (drop_bit (24 - 8 * (p - offset)) v AND 0xff)) else bytes ! p)"
proof (cases "offset \<le> p \<and> p < offset + 4")
  case True
  then have "p = offset \<or> p = offset + 1 \<or> p = offset + 2 \<or> p = offset + 3" by arith
  then show ?thesis using assms by (elim disjE) (simp_all add: write_be32_def nth_list_update)
next
  case False
  then show ?thesis by (auto simp: write_be32_def nth_list_update)
qed

lemma and_ff: "w AND 0xff = take_bit 8 w" for w :: u32
  by (simp add: take_bit_eq_mask mask_eq_exp_minus_1)

lemma byte_word_char_of [simp]: "byte_word (char_of (unat (take_bit 8 w :: u32))) = take_bit 8 w"
proof -
  have "unat (take_bit 8 w) < 256"
    using take_bit_nat_less_exp [of 8 "unat w"] by (simp add: unsigned_take_bit_eq)
  then show ?thesis by (simp add: byte_word_def of_char_of)
qed

lemma read_write_be32:
  assumes "offset + 4 \<le> length bytes"
  shows "read_be32 (write_be32 bytes offset v) offset = v"
proof -
  have "read_be32 (write_be32 bytes offset v) offset =
    push_bit 24 (take_bit 8 (drop_bit 24 v)) OR push_bit 16 (take_bit 8 (drop_bit 16 v)) OR
      push_bit 8 (take_bit 8 (drop_bit 8 v)) OR take_bit 8 v"
    using assms by (simp add: read_be32_def nth_write_be32 and_ff or.assoc)
  also have "\<dots> = v"
  proof (rule bit_eqI)
    fix n assume "possible_bit TYPE(32 word) n"
    then have "n < 32" by simp
    then show "bit (push_bit 24 (take_bit 8 (drop_bit 24 v)) OR push_bit 16 (take_bit 8 (drop_bit 16 v)) OR
      push_bit 8 (take_bit 8 (drop_bit 8 v)) OR take_bit 8 v) n = bit v n"
      by (cases "n < 8"; cases "n < 16"; cases "n < 24")
        (auto simp: bit_or_iff bit_push_bit_iff bit_take_bit_iff bit_drop_bit_eq)
  qed
  finally show ?thesis .
qed

lemma read_be32_cong:
  assumes "\<And>i. i < 4 \<Longrightarrow> bytes' ! (offset + i) = bytes ! (offset + i)"
  shows "read_be32 bytes' offset = read_be32 bytes offset"
  using assms [of 0] assms [of 1] assms [of 2] assms [of 3] by (simp add: read_be32_def)

lemma read_write_be32_other:
  "offset + 4 \<le> length bytes \<Longrightarrow> at + 4 \<le> offset \<or> offset + 4 \<le> at \<Longrightarrow>
   read_be32 (write_be32 bytes at v) offset = read_be32 bytes offset"
  by (rule read_be32_cong) (auto simp: nth_write_be32)

section \<open>Where the entries lie\<close>

text \<open>The bytes of one entry that a stat rewrite changes.\<close>

definition stat_byte :: "nat \<Rightarrow> nat \<Rightarrow> bool" where
  "stat_byte at p \<longleftrightarrow> at \<le> p \<and> p < at + 24 \<or> at + 28 \<le> p \<and> p < at + 40"

lemma find_char_from_Some:
  "find_char_from c s from = Some i \<Longrightarrow>
   from \<le> i \<and> i < length s \<and> s ! i = c \<and> (\<forall>p. from \<le> p \<longrightarrow> p < i \<longrightarrow> s ! p \<noteq> c)"
proof -
  assume "find_char_from c s from = Some i"
  then obtain k where k: "find_char c (drop from s) = Some k" "i = from + k"
    by (auto simp: find_char_from_def)
  have "s ! p \<noteq> c" if p: "from \<le> p" "p < i" for p
  proof
    assume c: "s ! p = c"
    have len: "k < length (drop from s)" using find_char_Some [OF k(1)] by simp
    have "take k (drop from s) ! (p - from) = c" using p k(2) c len by (simp add: nth_drop)
    moreover have "p - from < length (take k (drop from s))" using p k(2) len by simp
    ultimately have "c \<in> set (take k (drop from s))" by (metis nth_mem)
    then show False using find_char_Some [OF k(1)] by simp
  qed
  with find_char_Some [OF k(1)] k(2) show ?thesis by auto
qed

lemma find_char_from_eq:
  assumes "from \<le> i" "i < length s" "s ! i = c" "\<forall>p. from \<le> p \<longrightarrow> p < i \<longrightarrow> s ! p \<noteq> c"
  shows "find_char_from c s from = Some i"
proof -
  define k where "k = i - from"
  have "drop from s = take k (drop from s) @ c # drop (Suc k) (drop from s)"
    using id_take_nth_drop [of k "drop from s"] assms by (simp add: k_def)
  moreover have "c \<notin> set (take k (drop from s))"
    using assms by (auto simp: in_set_conv_nth k_def)
  ultimately have "find_char c (drop from s) = Some (length (take k (drop from s)))"
    by (metis find_char_append)
  then show ?thesis using assms by (simp add: find_char_from_def k_def)
qed

text \<open>\<open>agree b b' lo hi\<close>: the two files have the same bytes from \<open>lo\<close> up to \<open>hi\<close>.\<close>

definition agree :: "string \<Rightarrow> string \<Rightarrow> nat \<Rightarrow> nat \<Rightarrow> bool" where
  "agree b b' lo hi \<longleftrightarrow> length b' = length b \<and> (\<forall>p. lo \<le> p \<longrightarrow> p < hi \<longrightarrow> b' ! p = b ! p)"

lemma agree_find_char_from:
  "find_char_from c b from = Some i \<Longrightarrow> agree b b' from (Suc i) \<Longrightarrow>
   find_char_from c b' from = Some i"
  by (drule find_char_from_Some) (auto simp: agree_def intro!: find_char_from_eq)

lemma agree_segment: "agree b b' lo hi \<Longrightarrow> hi \<le> length b \<Longrightarrow> take (hi - lo) (drop lo b') = take (hi - lo) (drop lo b)"
  by (rule nth_equalityI) (auto simp: agree_def)

lemma strip_length_loop_step:
  assumes "strip_length_loop b end v y c = Some r" "y AND 0x80 \<noteq> 0"
  shows "c < end" "\<not> v \<ge> drop_bit 7 (- 1)"
    "strip_length_loop b end
       (push_bit 7 (v + 1) OR ucast ((word_of_nat (of_char (b ! c)) :: 8 word) AND 0x7f))
       (word_of_nat (of_char (b ! c))) (c + 1) = Some r"
  using assms by (simp_all add: strip_length_loop.simps [of b "end" v y c] Let_def split: if_splits)

lemma strip_length_loop_done:
  "y AND 0x80 = 0 \<Longrightarrow> strip_length_loop b end v y c = Some (v, c)"
  by (simp add: strip_length_loop.simps)

lemma strip_length_loop_range:
  "strip_length_loop b end v y c = Some (v', c') \<Longrightarrow> c \<le> c' \<and> (c' \<le> end \<or> c' = c)"
proof (induction b "end" v y c rule: strip_length_loop.induct)
  case (1 b "end" v y c)
  show ?case
  proof (cases "y AND 0x80 = 0")
    case True
    with 1(2) show ?thesis by (simp add: strip_length_loop_done)
  next
    case False
    note step = strip_length_loop_step [OF 1(2) False]
    from 1(1) [OF False _ refl step(3)] step(1,2) have "c + 1 \<le> c' \<and> (c' \<le> end \<or> c' = c + 1)"
      by simp
    with step(1) show ?thesis by auto
  qed
qed

lemma strip_length_loop_agree:
  "strip_length_loop b end v y c = Some (v', c') \<Longrightarrow> agree b b' c c' \<Longrightarrow>
   strip_length_loop b' end v y c = Some (v', c')"
proof (induction b "end" v y c rule: strip_length_loop.induct)
  case (1 b "end" v y c)
  show ?case
  proof (cases "y AND 0x80 = 0")
    case True
    with 1(2) show ?thesis by (simp add: strip_length_loop_done)
  next
    case False
    note step = strip_length_loop_step [OF 1(2) False]
    have "c < c'" using strip_length_loop_range [OF step(3)] by simp
    with 1(3) have same: "b' ! c = b ! c" "agree b b' (c + 1) c'" by (auto simp: agree_def)
    from 1(1) [OF False _ refl step(3) same(2)] step(1,2) same(1) False show ?thesis
      by (simp add: strip_length_loop.simps [of b' "end" v y c] Let_def)
  qed
qed

lemma read_path_strip_length_range:
  "read_path_strip_length b c end = Some (v, c') \<Longrightarrow> c < c' \<and> c' \<le> end"
  by (auto simp: read_path_strip_length_def Let_def split: if_splits dest!: strip_length_loop_range)

lemma read_path_strip_length_agree:
  assumes "read_path_strip_length b c end = Some (v, c')" "agree b b' c c'"
  shows "read_path_strip_length b' c end = Some (v, c')"
proof -
  have "c < c'" using read_path_strip_length_range [OF assms(1)] by simp
  with assms(2) have "b' ! c = b ! c" "agree b b' (c + 1) c'" by (auto simp: agree_def)
  with assms(1) show ?thesis
    by (auto simp: read_path_strip_length_def Let_def split: if_splits
        intro: strip_length_loop_agree)
qed

lemmas offset_defs = kHeaderSize_def kChecksumSize_def kModeOffset_def kFlagsOffset_def kPathOffset_def

lemma round_up: "(x :: nat) < (x + 8) div 8 * 8"
  using div_mult_mod_eq [of "x + 8" 8] mod_less_divisor [of 8 "x + 8"] by linarith

lemma prefixed_path_range:
  "prefixed_path b end start prev = Inr (path, nx) \<Longrightarrow> start < nx \<and> nx \<le> end"
  by (fastforce simp: prefixed_path_def split: if_splits option.splits
      dest!: read_path_strip_length_range find_char_from_Some)

lemma prefixed_path_agree:
  assumes "prefixed_path b end start prev = Inr (path, nx)" "agree b b' start nx" "end \<le> length b"
  shows "prefixed_path b' end start prev = Inr (path, nx)"
proof -
  from assms(1) obtain strip cur t where
    s: "read_path_strip_length b start end = Some (strip, cur)" and
    t: "find_char_from (CHR 0x00) b cur = Some t" "t < end" "nx = t + 1"
    by (auto simp: prefixed_path_def split: if_splits option.splits)
  have cur: "start < cur" "cur \<le> t"
    using read_path_strip_length_range [OF s] find_char_from_Some [OF t(1)] by auto
  have sub: "agree b b' lo hi" if "start \<le> lo" "hi \<le> nx" for lo hi
    using assms(2) that by (auto simp: agree_def)
  have "read_path_strip_length b' start end = Some (strip, cur)"
    using read_path_strip_length_agree [OF s] sub [of start cur] cur t(3) by simp
  moreover have "find_char_from (CHR 0x00) b' cur = Some t"
    using agree_find_char_from [OF t(1)] sub [of cur "Suc t"] cur t(3) by simp
  moreover have "take (t - cur) (drop cur b') = take (t - cur) (drop cur b)"
    using agree_segment [of b b' cur t] sub [of cur t] cur t assms(3) by simp
  ultimately show ?thesis
    using assms(1) s t by (auto simp: prefixed_path_def split: if_splits)
qed

lemma padded_path_range:
  "padded_path b end off start = Inr (path, nx) \<Longrightarrow> off \<le> start \<Longrightarrow> start < nx \<and> nx \<le> end"
proof -
  assume p: "padded_path b end off start = Inr (path, nx)" and off: "off \<le> start"
  from p have "nx = off + (start - off + length path + 8) div 8 * 8" "nx \<le> end"
    by (auto simp: padded_path_def Let_def split: if_splits option.splits)
  with off round_up [of "start - off + length path"] show "start < nx \<and> nx \<le> end" by linarith
qed

lemma padded_path_agree:
  assumes "padded_path b end off start = Inr (path, nx)" "agree b b' start nx" "end \<le> length b"
    and "off \<le> start"
  shows "padded_path b' end off start = Inr (path, nx)"
proof -
  from assms(1) obtain t where
    t: "find_char_from (CHR 0x00) b start = Some t" "t < end" and
    nx: "nx = off + (start - off + length (take (t - start) (drop start b)) + 8) div 8 * 8"
    by (auto simp: padded_path_def Let_def split: if_splits option.splits)
  have "start \<le> t" "t < length b" using find_char_from_Some [OF t(1)] by auto
  then have "t < nx" using nx round_up [of "t - off"] assms(4) by simp
  have sub: "agree b b' lo hi" if "start \<le> lo" "hi \<le> nx" for lo hi
    using assms(2) that by (auto simp: agree_def)
  have "find_char_from (CHR 0x00) b' start = Some t"
    using agree_find_char_from [OF t(1)] sub [of start "Suc t"] \<open>t < nx\<close> by simp
  moreover have "take (t - start) (drop start b') = take (t - start) (drop start b)"
    using agree_segment [of b b' start t] sub [of start t] \<open>start \<le> t\<close> \<open>t < nx\<close> t(2) assms(3) by simp
  ultimately show ?thesis
    using assms(1) t by (simp add: padded_path_def)
qed

lemma parse_entry_range:
  "parse_entry b end v off prev = Inr (en, nx) \<Longrightarrow>
   ge_offset en = off \<and> off + 62 < nx \<and> nx \<le> end"
  by (fastforce simp: parse_entry_def Let_def kPathOffset_def
      split: if_splits sum.splits dest: prefixed_path_range padded_path_range)

lemma parse_entry_agree:
  assumes parse: "parse_entry b end v off prev = Inr (en, nx)" and "end": "end \<le> length b"
    and len: "length b' = length b"
    and same: "\<And>p. off \<le> p \<Longrightarrow> p < nx \<Longrightarrow> \<not> stat_byte off p \<Longrightarrow> b' ! p = b ! p"
  shows "parse_entry b' end v off prev = Inr (en, nx)"
proof -
  note range = parse_entry_range [OF parse]
  have "b' ! (off + 60) = b ! (off + 60)" "b' ! (off + 60 + 1) = b ! (off + 60 + 1)"
    using range by (auto intro!: same simp: stat_byte_def)
  then have flags: "entry_flags b' off = entry_flags b off"
    by (simp add: entry_flags_def kFlagsOffset_def)
  have mode: "read_be32 b' (off + 24) = read_be32 b (off + 24)"
    using range by (intro read_be32_cong same) (auto simp: stat_byte_def)
  have ag: "agree b b' start nx" if "off + 62 \<le> start" for start
    using that len by (auto simp: agree_def stat_byte_def intro!: same)
  define start where "start = off + 62 + (if entry_flags b off AND kExtendedFlag \<noteq> 0 then 2 else 0)"
  have start: "off + 62 \<le> start" by (simp add: start_def)
  have pre: "prefixed_path b end start prev = Inr (path, nx) \<Longrightarrow> prefixed_path b' end start prev = Inr (path, nx)"
    and pad: "padded_path b end off start = Inr (path, nx) \<Longrightarrow> padded_path b' end off start = Inr (path, nx)" for path
    using ag [OF start] "end" start by (auto intro: prefixed_path_agree padded_path_agree)
  from parse show ?thesis
    unfolding parse_entry_def Let_def kPathOffset_def kModeOffset_def flags mode start_def [symmetric]
    by (cases "v = 4") (auto split: if_splits sum.splits dest: pre pad)
qed

lemma parse_entries_range:
  "parse_entries b end v n off prev = Inr (es, off') \<Longrightarrow> off \<le> end \<Longrightarrow>
   off \<le> off' \<and> off' \<le> end \<and> length es = n \<and>
   (\<forall>e \<in> set es. off \<le> ge_offset e \<and> ge_offset e + 62 < off') \<and>
   sorted_wrt (\<lambda>x y. ge_offset x + 62 < ge_offset y) es"
proof (induction n arbitrary: off prev es)
  case (Suc n)
  from Suc.prems(1) obtain e nx es' where
    e: "parse_entry b end v off prev = Inr (e, nx)" and
    rest: "parse_entries b end v n nx (ge_path e) = Inr (es', off')" and es: "es = e # es'"
    by (auto split: sum.splits prod.splits)
  note r = parse_entry_range [OF e]
  from Suc.IH [OF rest] r have
    ih: "nx \<le> off'" "off' \<le> end" "length es' = n"
        "\<forall>x \<in> set es'. nx \<le> ge_offset x \<and> ge_offset x + 62 < off'"
        "sorted_wrt (\<lambda>x y. ge_offset x + 62 < ge_offset y) es'" by auto
  show ?case using r ih es by auto
qed simp

lemma parse_entries_agree:
  "parse_entries b end v n off prev = Inr (es, off') \<Longrightarrow> end \<le> length b \<Longrightarrow> off \<le> end \<Longrightarrow>
   length b' = length b \<Longrightarrow>
   (\<And>p. off \<le> p \<Longrightarrow> p < off' \<Longrightarrow> \<forall>e \<in> set es. \<not> stat_byte (ge_offset e) p \<Longrightarrow> b' ! p = b ! p) \<Longrightarrow>
   parse_entries b' end v n off prev = Inr (es, off')"
proof (induction n arbitrary: off prev es)
  case (Suc n)
  from Suc.prems(1) obtain e nx es' where
    e: "parse_entry b end v off prev = Inr (e, nx)" and
    rest: "parse_entries b end v n nx (ge_path e) = Inr (es', off')" and es: "es = e # es'"
    by (auto split: sum.splits prod.splits)
  note r = parse_entry_range [OF e] and rr = parse_entries_range [OF rest]
  have far: "\<not> stat_byte (ge_offset x) p" if "x \<in> set es'" "p < nx" for x p
    using rr r that by (fastforce simp: stat_byte_def)
  have near: "\<not> stat_byte off p" if "nx \<le> p" for p
    using r that by (auto simp: stat_byte_def)
  have "parse_entry b' end v off prev = Inr (e, nx)"
    by (rule parse_entry_agree [OF e Suc.prems(2,4)], rule Suc.prems(5))
      (use far r rr es in auto)
  moreover have "parse_entries b' end v n nx (ge_path e) = Inr (es', off')"
  proof (rule Suc.IH [OF rest Suc.prems(2) _ Suc.prems(4)])
    show "nx \<le> end" using r by simp
    fix p assume "nx \<le> p" "p < off'" "\<forall>e \<in> set es'. \<not> stat_byte (ge_offset e) p"
    then show "b' ! p = b ! p" using near r es by (intro Suc.prems(5)) auto
  qed
  ultimately show ?case by (simp add: es)
qed simp

section \<open>The extensions\<close>

lemma extension_step:
  fixes sz :: u32
  assumes "\<not> unat sz > end - offset - 8" "offset + 8 \<le> end" "end < 2 ^ 32"
  shows "unat (8 + sz) = 8 + unat sz"
proof -
  have "8 + unat sz < 2 ^ 32" using assms by linarith
  then show ?thesis by (subst unat_add_lem [THEN iffD1]) auto
qed

lemma scan_extensions_returns:
  assumes "end < 2 ^ 32"
  shows "\<exists>r. scan_extensions b end off = Some r"
proof (induction "end - off" arbitrary: off rule: less_induct)
  case less
  show ?case
  proof (cases "off + 8 \<le> end \<and> take 4 (drop off b) \<noteq> ''link'' \<and>
      \<not> unat (read_be32 b (off + 4)) > end - off - 8")
    case True
    then have "unat (8 + read_be32 b (off + 4)) = 8 + unat (read_be32 b (off + 4))"
      using assms by (intro extension_step) auto
    moreover from this True have "end - (off + unat (8 + read_be32 b (off + 4))) < end - off"
      by linarith
    from less [OF this] obtain r where
      "scan_extensions b end (off + unat (8 + read_be32 b (off + 4))) = Some r" ..
    ultimately show ?thesis using True by (subst scan_extensions.simps) (simp add: Let_def)
  next
    case False
    then show ?thesis by (subst scan_extensions.simps) (auto simp: Let_def)
  qed
qed

text \<open>An extension whose size field makes the 32-bit sum zero stops the scan from advancing.\<close>

lemma scan_extensions_stuck:
  assumes "offset + 8 \<le> end" "take 4 (drop offset b) \<noteq> ''link''"
    and "read_be32 b (offset + 4) = - 8" "2 ^ 32 - 8 \<le> end - offset - 8"
  shows "scan_extensions b end offset = None"
proof -
  have size: "unat (- 8 :: u32) = 2 ^ 32 - 8" by simp
  have "False" if some: "scan_extensions b end offset = Some r" for r
  proof -
    have "\<not> (b = b \<and> end = end \<and> offset = offset)"
    proof (rule scan_extensions.raw_induct
        [where P = "\<lambda>bs en off r. \<not> (bs = b \<and> en = end \<and> off = offset)", OF _ some])
      fix f bs en off y
      assume IH: "\<And>bs en off y. f bs en off = Some y \<Longrightarrow> \<not> (bs = b \<and> en = end \<and> off = offset)"
        and body: "(if off + 8 \<le> en
           then let signature = take 4 (drop off bs); size = read_be32 bs (off + 4)
                in if signature = ''link'' then Some (Inl ''split Git indexes are not supported'')
                   else if unat size > en - off - 8
                        then Some (Inl (''truncated Git index extension '' @ signature))
                   else f bs en (off + unat (8 + size))
           else Some (Inr off)) = Some y"
      show "\<not> (bs = b \<and> en = end \<and> off = offset)"
      proof
        assume eq: "bs = b \<and> en = end \<and> off = offset"
        have "f b end offset = Some y"
          using body eq assms size by (auto simp: Let_def split: if_splits)
        with IH show False by blast
      qed
    qed
    then show False by simp
  qed
  then show ?thesis by (metis option.exhaust)
qed

lemma scan_extensions_agree:
  "scan_extensions b end off = Some (Inr off') \<Longrightarrow> end \<le> length b \<Longrightarrow> end < 2 ^ 32 \<Longrightarrow>
   (\<And>p. off \<le> p \<Longrightarrow> p < end \<Longrightarrow> b' ! p = b ! p) \<Longrightarrow> length b' = length b \<Longrightarrow>
   scan_extensions b' end off = Some (Inr off')"
proof (induction "end - off" arbitrary: off rule: less_induct)
  case less
  show ?case
  proof (cases "off + 8 \<le> end")
    case True
    have same: "read_be32 b' (off + 4) = read_be32 b (off + 4)"
      using True by (intro read_be32_cong less.prems(4)) auto
    have sig: "take 4 (drop off b') = take 4 (drop off b)"
      using agree_segment [of b b' off "off + 4"] True less.prems by (auto simp: agree_def)
    from less.prems(1) True have
      s: "take 4 (drop off b) \<noteq> ''link''" "\<not> unat (read_be32 b (off + 4)) > end - off - 8"
        "scan_extensions b end (off + unat (8 + read_be32 b (off + 4))) = Some (Inr off')"
      by (subst (asm) scan_extensions.simps; simp add: Let_def split: if_splits)+
    have step: "unat (8 + read_be32 b (off + 4)) = 8 + unat (read_be32 b (off + 4))"
      using s True less.prems by (intro extension_step) auto
    have "scan_extensions b' end (off + unat (8 + read_be32 b (off + 4))) = Some (Inr off')"
      using less.hyps [OF _ s(3)] less.prems step True by auto
    then show ?thesis
      using True s same sig by (subst scan_extensions.simps) (simp add: Let_def)
  next
    case False
    with less.prems(1) show ?thesis
      by (subst scan_extensions.simps, subst (asm) scan_extensions.simps) simp
  qed
qed

section \<open>Rewriting stat data\<close>

lemma write_git_index_stat_fields [simp]:
  "gi_entries (write_git_index_stat index e st) = gi_entries index"
  "length (gi_bytes (write_git_index_stat index e st)) = length (gi_bytes index)"
  by (simp_all add: write_git_index_stat_def Let_def)

lemma nth_write_be32_other: "p < offset \<or> offset + 4 \<le> p \<Longrightarrow> write_be32 bytes offset v ! p = bytes ! p"
  by (auto simp: write_be32_def)

lemma nth_write_git_index_stat:
  assumes "\<not> stat_byte (ge_offset e) p"
  shows "gi_bytes (write_git_index_stat index e st) ! p = gi_bytes index ! p"
proof -
  have "p < ge_offset e + k \<or> ge_offset e + k + 4 \<le> p" if "k \<in> {0, 4, 8, 12, 16, 20, 28, 32, 36}" for k
    using assms that by (auto simp: stat_byte_def)
  from this [of 0] this [of 4] this [of 8] this [of 12] this [of 16] this [of 20] this [of 28]
    this [of 32] this [of 36] show ?thesis
    by (simp add: write_git_index_stat_def Let_def nth_write_be32_other)
qed

lemma read_write_git_index_stat:
  "ge_offset e + 40 \<le> length (gi_bytes index) \<Longrightarrow>
   read_git_index_stat (write_git_index_stat index e st) e = st"
  by (simp add: read_git_index_stat_def write_git_index_stat_def Let_def read_write_be32
      read_write_be32_other)

lemma read_write_git_index_stat_other:
  assumes "ge_offset e' + 40 \<le> length (gi_bytes index)"
    and "ge_offset e + 40 \<le> ge_offset e' \<or> ge_offset e' + 40 \<le> ge_offset e"
  shows "read_git_index_stat (write_git_index_stat index e st) e' = read_git_index_stat index e'"
proof -
  have "read_be32 (gi_bytes (write_git_index_stat index e st)) at = read_be32 (gi_bytes index) at"
    if "ge_offset e' \<le> at" "at + 4 \<le> ge_offset e' + 40" for at
    using that assms by (intro read_be32_cong nth_write_git_index_stat) (auto simp: stat_byte_def)
  then show ?thesis by (simp add: read_git_index_stat_def Let_def)
qed

lemma parse_git_index_Some:
  assumes "parse_git_index b = Some (Inr f)"
  obtains off where "32 \<le> length b" "take 4 b = ''DIRC''"
    "\<not> (read_be32 b 4 < 2 \<or> read_be32 b 4 > 4)"
    "parse_entries b (length b - 20) (read_be32 b 4) (unat (read_be32 b 8)) 12 [] = Inr (gi_entries f, off)"
    "scan_extensions b (length b - 20) off = Some (Inr (length b - 20))"
    "f = \<lparr>gi_bytes = b, gi_entries = gi_entries f\<rparr>"
  using assms
  by (force simp: parse_git_index_def Let_def offset_defs split: if_splits sum.splits option.splits prod.splits)

lemma parse_git_index_layout:
  assumes "parse_git_index b = Some (Inr f)"
  shows "gi_bytes f = b"
    and "e \<in> set (gi_entries f) \<Longrightarrow> 12 \<le> ge_offset e \<and> ge_offset e + 62 < length b - 20"
    and "sorted_wrt (\<lambda>x y. ge_offset x + 62 < ge_offset y) (gi_entries f)"
proof -
  from assms obtain off where r: "32 \<le> length b" "f = \<lparr>gi_bytes = b, gi_entries = gi_entries f\<rparr>"
    "parse_entries b (length b - 20) (read_be32 b 4) (unat (read_be32 b 8)) 12 [] = Inr (gi_entries f, off)"
    by (rule parse_git_index_Some)
  from parse_entries_range [OF r(3)] r(1) have
    "off \<le> length b - 20" "\<forall>e \<in> set (gi_entries f). 12 \<le> ge_offset e \<and> ge_offset e + 62 < off"
    "sorted_wrt (\<lambda>x y. ge_offset x + 62 < ge_offset y) (gi_entries f)" by auto
  with r(2) show "gi_bytes f = b"
    and "e \<in> set (gi_entries f) \<Longrightarrow> 12 \<le> ge_offset e \<and> ge_offset e + 62 < length b - 20"
    and "sorted_wrt (\<lambda>x y. ge_offset x + 62 < ge_offset y) (gi_entries f)"
    by (metis git_index_file.select_convs(1), fastforce, blast)
qed

text \<open>Bytes that only differ in stat data and in the checksum parse to the same entries.\<close>

lemma parse_git_index_agree:
  assumes parse: "parse_git_index b = Some (Inr f)" and len: "length b' = length b" "length b < 2 ^ 32"
    and same: "\<And>p. p < length b - 20 \<Longrightarrow> \<forall>e \<in> set (gi_entries f). \<not> stat_byte (ge_offset e) p \<Longrightarrow>
                 b' ! p = b ! p"
  shows "parse_git_index b' = Some (Inr \<lparr>gi_bytes = b', gi_entries = gi_entries f\<rparr>)"
proof -
  from parse obtain off where r: "32 \<le> length b" "take 4 b = ''DIRC''"
    "\<not> (read_be32 b 4 < 2 \<or> read_be32 b 4 > 4)"
    "parse_entries b (length b - 20) (read_be32 b 4) (unat (read_be32 b 8)) 12 [] = Inr (gi_entries f, off)"
    "scan_extensions b (length b - 20) off = Some (Inr (length b - 20))"
    by (rule parse_git_index_Some)
  note layout = parse_git_index_layout [OF parse]
  have off: "12 \<le> off" "off \<le> length b - 20" using parse_entries_range [OF r(4)] r(1) by auto
  have head: "b' ! p = b ! p" if "p < 12" for p
    using that r(1) by (intro same) (auto simp: stat_byte_def dest!: layout(2))
  have "take 4 b' = take 4 b"
    using head r(1) len(1) by (intro nth_equalityI) auto
  moreover have "read_be32 b' 4 = read_be32 b 4" "read_be32 b' 8 = read_be32 b 8"
    by (auto intro!: read_be32_cong head)
  moreover have "parse_entries b' (length b - 20) (read_be32 b 4) (unat (read_be32 b 8)) 12 [] =
      Inr (gi_entries f, off)"
    using off r(1) len(1) by (intro parse_entries_agree [OF r(4)] same) auto
  moreover have "scan_extensions b' (length b - 20) off = Some (Inr (length b - 20))"
  proof (rule scan_extensions_agree [OF r(5)])
    fix p assume p: "off \<le> p" "p < length b - 20"
    have "\<forall>e \<in> set (gi_entries f). ge_offset e + 62 < off"
      using parse_entries_range [OF r(4)] r(1) by auto
    then have "\<forall>e \<in> set (gi_entries f). \<not> stat_byte (ge_offset e) p"
      using p by (fastforce simp: stat_byte_def)
    with p show "b' ! p = b ! p" by (intro same) auto
  qed (use len in auto)
  ultimately show ?thesis
    using r(1-3) len(1) by (simp add: parse_git_index_def Let_def offset_defs)
qed

definition rewrite_stats :: "(git_index_entry \<times> git_index_stat) list \<Rightarrow> git_index_file \<Rightarrow> git_index_file" where
  "rewrite_stats ws f = foldl (\<lambda>f (e, st). write_git_index_stat f e st) f ws"

lemma rewrite_stats_fields:
  "gi_entries (rewrite_stats ws f) = gi_entries f \<and>
   length (gi_bytes (rewrite_stats ws f)) = length (gi_bytes f)"
  unfolding rewrite_stats_def by (induction ws arbitrary: f) auto

lemma nth_rewrite_stats:
  "\<forall>(e, st) \<in> set ws. \<not> stat_byte (ge_offset e) p \<Longrightarrow>
   gi_bytes (rewrite_stats ws f) ! p = gi_bytes f ! p"
  unfolding rewrite_stats_def
proof (induction ws arbitrary: f)
  case (Cons w ws)
  then show ?case by (cases w) (simp add: nth_write_git_index_stat)
qed simp

lemma seal_git_index_fields:
  assumes "20 \<le> length (gi_bytes f)"
  defines "n \<equiv> length (gi_bytes f) - 20"
  shows "gi_bytes (seal_git_index f) = take n (gi_bytes f) @ sha1_digest (take n (gi_bytes f))"
    and "gi_entries (seal_git_index f) = gi_entries f"
    and "length (gi_bytes (seal_git_index f)) = length (gi_bytes f)"
  using assms by (simp_all add: seal_git_index_def Let_def kChecksumSize_def)

section \<open>Properties\<close>

text \<open>C8: parsing a file below 4 GiB always returns; the entries it reports lie between the header
  and the checksum, one after the other, so every stat access is inside the file.\<close>
theorem parse_git_index_bounds:
  assumes "length b < 2 ^ 32"
  shows "\<exists>r. parse_git_index b = Some r \<and>
     (case r of
        Inl _ \<Rightarrow> True
      | Inr f \<Rightarrow>
          gi_bytes f = b \<and>
          (\<forall>e \<in> set (gi_entries f). 12 \<le> ge_offset e \<and> ge_offset e + 62 < length b - 20) \<and>
          sorted_wrt (\<lambda>x y. ge_offset x + 62 < ge_offset y) (gi_entries f))"
proof -
  have "length b - 20 < 2 ^ 32" using assms by simp
  then have ext: "scan_extensions b (length b - kChecksumSize) off = None \<longleftrightarrow> False" for off
    using scan_extensions_returns [of "length b - kChecksumSize" b off] by (auto simp: kChecksumSize_def)
  have "parse_git_index b \<noteq> None"
    unfolding parse_git_index_def Let_def by (auto simp: ext split: sum.split prod.split option.split)
  then obtain r where r: "parse_git_index b = Some r" by blast
  with parse_git_index_layout [of b] show ?thesis by (cases r) auto
qed



section \<open>A concrete index\<close>

text \<open>A version 2 index with one regular file, \<^verbatim>\<open>a\<close>.\<close>

definition sample_index :: string where
  "sample_index =
     ''DIRC'' @ [CHR 0x00, CHR 0x00, CHR 0x00, CHR 0x02, CHR 0x00, CHR 0x00, CHR 0x00, CHR 0x01] @
     replicate 24 (CHR 0x07) @ [CHR 0x00, CHR 0x00, CHR 0x81, CHR 0xA4] @ replicate 12 (CHR 0x07) @
     replicate 20 (CHR 0x09) @ [CHR 0x00, CHR 0x01] @ ''a'' @ [CHR 0x00] @ replicate 20 (CHR 0x00)"

definition sample_entry :: git_index_entry where
  "sample_entry = \<lparr>ge_path = ''a'', ge_mode = 0x81A4, ge_offset = 12\<rparr>"

lemma length_sample_index: "length sample_index = 96"
  by code_simp

lemma sample_index_parses:
  "parse_git_index sample_index = Some (Inr \<lparr>gi_bytes = sample_index, gi_entries = [sample_entry]\<rparr>)"
proof -
  have "take 4 sample_index = ''DIRC''" "read_be32 sample_index 4 = 2" "read_be32 sample_index 8 = 1"
    "parse_entries sample_index 76 2 1 12 [] = Inr ([sample_entry], 76)"
    by code_simp+
  moreover have "scan_extensions sample_index 76 76 = Some (Inr 76)"
    by (subst scan_extensions.simps) simp
  ultimately show ?thesis
    by (simp add: parse_git_index_def Let_def length_sample_index offset_defs)
qed

lemma parse_git_index_bounds_witness: "\<exists>r. parse_git_index sample_index = Some r"
  using parse_git_index_bounds [of sample_index] length_sample_index by auto



end
