(* ===== verification/Git_Worktree.thy ===== *)
theory Git_Worktree
  imports Workspace_Engine Git_Index
begin

text \<open>
  The linked worktree of a Workspace (\<^verbatim>\<open>core/git_worktree.cpp\<close>), its Git index
  (\<^verbatim>\<open>core/workspace_git_index.cpp\<close>) and the processes both run (\<^verbatim>\<open>core/proc.cpp\<close>). What a process
  does is the parameter \<open>run_process\<close> of the environment: exit code, combined output, and the file
  system it leaves.
\<close>

unbundle bit_operations_syntax

section \<open>Processes\<close>

definition run_process_and_capture_output :: "env \<Rightarrow> string list \<Rightarrow> (machine, 'e, int \<times> string) prog" where
  "run_process_and_capture_output e arguments =
     bnd (attempt kernel_call) (\<lambda>piped.
       case piped of
         Inl _ \<Rightarrow> ret (- 1, ''pipe failed'')
       | Inr _ \<Rightarrow>
           bnd (attempt kernel_call) (\<lambda>spawned.
             case spawned of
               Inl _ \<Rightarrow> ret (- 1, ''failed to spawn '' @ hd arguments)
             | Inr _ \<Rightarrow>
                 bnd (gets (\<lambda>s. run_process e arguments (host s))) (\<lambda>(code, output, h).
                 bnd (modify (\<lambda>s. s\<lparr>host := h\<rparr>)) (\<lambda>_.
                 ret (code, output)))))"

definition contains :: "string \<Rightarrow> string \<Rightarrow> bool" where
  "contains text needle = sublist needle text"

section \<open>The Workspace Git index\<close>

definition kBaseGitIndexName :: string where "kBaseGitIndexName = ''base-git-index''"
definition kBaseGitCommitName :: string where "kBaseGitCommitName = ''base-git-commit''"
definition kSha1HexLength :: nat where "kSha1HexLength = 40"

definition kSelfContainedIndexConfig :: "string list" where
  "kSelfContainedIndexConfig =
     [''-c'', ''core.fsmonitor=false'', ''-c'', ''core.untrackedCache=false'', ''-c'', ''core.splitIndex=false'']"

definition trim_trailing_whitespace :: "string \<Rightarrow> string" where
  "trim_trailing_whitespace text = rev (dropWhile is_space (rev text))"

definition resolve_sha1_head_commit :: "env \<Rightarrow> path \<Rightarrow> (machine, 'e, string) prog" where
  "resolve_sha1_head_commit e git_dir =
     bnd (run_process_and_capture_output e
            [''git'', ''--git-dir'', path_string git_dir, ''rev-parse'', ''--verify'', ''--quiet'',
             ''HEAD^{commit}'']) (\<lambda>(code, output).
       if code \<noteq> 0 then ret []
       else
         let commit = trim_trailing_whitespace output
         in ret (if length commit = kSha1HexLength then commit else []))"

definition is_seedable_mode :: "u32 \<Rightarrow> bool" where
  "is_seedable_mode mode = (let type = mode AND 0xF000 in type = 0x8000 \<or> type = 0xA000)"

definition base_stat :: "env \<Rightarrow> node \<Rightarrow> git_index_stat" where
  "base_stat e n =
     (let m = node_meta n in
      \<lparr>ctime_seconds = word_of_int (ctime m), ctime_nanoseconds = word_of_int (ctime_ns m),
       mtime_seconds = word_of_int (mtime m), mtime_nanoseconds = word_of_int (mtime_ns m),
       device = 0, inode = word_of_nat (ino m), uid = word_of_nat (owner m), gid = word_of_nat (group m),
       size_field = word_of_nat (node_size e n)\<rparr>)"

definition workspace_stat :: "env \<Rightarrow> 64 word \<Rightarrow> u32 \<Rightarrow> node \<Rightarrow> git_index_stat" where
  "workspace_stat e salt mount_device n =
     (let m = node_meta n in
      \<lparr>ctime_seconds = word_of_int (ctime m), ctime_nanoseconds = 0,
       mtime_seconds = word_of_int (mtime m), mtime_nanoseconds = 0, device = mount_device,
       inode = ucast (salted_workspace_inode salt (word_of_nat (ino m))),
       uid = word_of_nat (daemon_uid e), gid = word_of_nat (daemon_gid e),
       size_field = word_of_nat (node_size e n)\<rparr>)"

text \<open>The body of the loop over the entries.\<close>

definition translate_entry ::
  "env \<Rightarrow> node \<Rightarrow> path \<Rightarrow> 64 word \<Rightarrow> u32 \<Rightarrow> git_index_file \<Rightarrow> git_index_entry \<Rightarrow> git_index_file"
where
  "translate_entry e h base salt mount_device index entry =
     (if \<not> is_seedable_mode (ge_mode entry) then index
      else
        write_git_index_stat index entry
          (case k_lstat h (fs_join base (ge_path entry)) of
             Inl _ \<Rightarrow> empty_stat
           | Inr n \<Rightarrow>
               if (read_git_index_stat index entry)\<lparr>device := 0\<rparr> = base_stat e n
               then workspace_stat e salt mount_device n else empty_stat))"

definition write_translated :: "env \<Rightarrow> path \<Rightarrow> string \<Rightarrow> unit control" where
  "write_translated e index_path bytes =
     (let staged = butlast index_path @ [last index_path @ ''.tribios''] in
      bnd (catch (write_stream e staged bytes)
             (\<lambda>_. bnd (attempt (fs_remove staged))
                    (\<lambda>_. fail (''cannot write '' @ path_string staged)))) (\<lambda>_.
      catch (sys_rename staged index_path)
        (\<lambda>code. bnd (attempt (fs_remove staged))
                  (\<lambda>_. fail (''cannot publish '' @ path_string index_path @ '': '' @ error_text e code)))))"

definition translate_verified_entries :: "env \<Rightarrow> path \<Rightarrow> path \<Rightarrow> 64 word \<Rightarrow> u32 \<Rightarrow> unit control" where
  "translate_verified_entries e index_path base salt mount_device =
     bnd (read_whole_file index_path) (\<lambda>bytes.
       case parse_git_index bytes of
         None \<Rightarrow> halt ''parse_git_index does not return''
       | Some (Inl message) \<Rightarrow> fail message
       | Some (Inr index) \<Rightarrow>
           bnd (gets (\<lambda>s. foldl (translate_entry e (host s) base salt mount_device) index (gi_entries index))) (\<lambda>translated.
           write_translated e index_path (gi_bytes (seal_git_index translated))))"

definition seed_workspace_git_index ::
  "env \<Rightarrow> path \<Rightarrow> path \<Rightarrow> path \<Rightarrow> string \<Rightarrow> string \<Rightarrow> 64 word \<Rightarrow> u32 \<Rightarrow> unit control"
where
  "seed_workspace_git_index e admin_dir tribios_dir base base_commit head_commit salt mount_device =
     (let index_path = admin_dir @ [''index''] in
      bnd (catch (fs_copy_file e (tribios_dir @ [kBaseGitIndexName]) index_path True)
             (\<lambda>code. fail (''cannot copy the Base-state Git index: '' @ error_text e code))) (\<lambda>_.
      bnd (if head_commit \<noteq> base_commit
           then
             bnd (run_process_and_capture_output e
                    ([''git''] @ kSelfContainedIndexConfig @
                     [''--git-dir'', path_string admin_dir, ''read-tree'', ''-m'', ''-i'', base_commit, head_commit]))
               (\<lambda>(code, output). if code \<noteq> 0 then fail (''git read-tree -m failed: '' @ output) else ret ())
           else ret ()) (\<lambda>_.
      translate_verified_entries e index_path base salt mount_device)))"

definition capture_base_git_index :: "env \<Rightarrow> path \<Rightarrow> path \<Rightarrow> path \<Rightarrow> unit control" where
  "capture_base_git_index e project_root base tribios_dir =
     (let git_dir = project_root @ [kGitDirName] in
      bnd (resolve_sha1_head_commit e git_dir) (\<lambda>commit.
      if commit = [] then ret ()
      else
        let index_path = tribios_dir @ [kBaseGitIndexName];
            commit_path = tribios_dir @ [kBaseGitCommitName];
            git = [''env'', ''GIT_INDEX_FILE='' @ path_string index_path, ''git''] @
                  kSelfContainedIndexConfig @
                  [''--git-dir'', path_string git_dir, ''--work-tree'', path_string base]
        in
        bnd (modify (\<lambda>s. s\<lparr>clock := clock s + 1\<rparr>)) (\<lambda>_.
        bnd (run_process_and_capture_output e (git @ [''read-tree'', commit])) (\<lambda>(code, output).
        if code \<noteq> 0 then fail (''git read-tree of the Base state failed: '' @ output)
        else
          bnd (run_process_and_capture_output e (git @ [''update-index'', ''-q'', ''--refresh''])) (\<lambda>(code, output).
          if code \<noteq> 0 then fail (''git update-index of the Base state failed: '' @ output)
          else
            bnd (catch (write_stream e commit_path (commit @ [CHR 0x0A]))
                   (\<lambda>_. fail (''cannot write '' @ path_string commit_path))) (\<lambda>_.
            catch (bnd (sync_file_data index_path) (\<lambda>_. sync_file_data commit_path))
              (\<lambda>_. fail ''cannot flush the Base-state Git index'')))))))"

text \<open>A seed that fails leaves a message on standard error and the index to \<^verbatim>\<open>git read-tree\<close>.\<close>

definition populate_workspace_git_index ::
  "env \<Rightarrow> path \<Rightarrow> path \<Rightarrow> path \<Rightarrow> 64 word \<Rightarrow> u32 \<Rightarrow> unit control"
where
  "populate_workspace_git_index e admin_dir tribios_dir base salt mount_device =
     bnd (resolve_sha1_head_commit e admin_dir) (\<lambda>head_commit.
     bnd (read_whole_file (tribios_dir @ [kBaseGitCommitName])) (\<lambda>text.
     let base_commit = trim_trailing_whitespace text in
     bnd (if head_commit \<noteq> [] \<and> length base_commit = kSha1HexLength
          then attempt (seed_workspace_git_index e admin_dir tribios_dir base base_commit head_commit salt mount_device)
          else ret (Inl [])) (\<lambda>seeded.
       case seeded of
         Inr _ \<Rightarrow> ret ()
       | Inl _ \<Rightarrow>
           bnd (run_process_and_capture_output e
                  [''git'', ''--git-dir'', path_string admin_dir, ''rev-parse'', ''--verify'', ''HEAD'']) (\<lambda>(code, output).
           if code \<noteq> 0 then ret ()
           else
             bnd (run_process_and_capture_output e
                    [''git'', ''--git-dir'', path_string admin_dir, ''read-tree'', ''HEAD'']) (\<lambda>(code, output).
             if code \<noteq> 0 then fail (''git read-tree failed: '' @ output) else ret ())))))"

section \<open>The linked worktree\<close>

definition is_git_project :: "path \<Rightarrow> machine \<Rightarrow> bool" where
  "is_git_project project_root s = fs_exists (project_root @ [kGitDirName]) s"

record workspace_index_seed =
  seed_tribios_dir :: path
  seed_base_dir :: path
  seed_inode_salt :: "64 word"
  seed_device :: u32

text \<open>The position of the first occurrence (\<^verbatim>\<open>std::string::find\<close>).\<close>

fun find_string :: "string \<Rightarrow> string \<Rightarrow> nat option" where
  "find_string needle [] = (if needle = [] then Some 0 else None)"
| "find_string needle (c # cs) =
     (if prefix needle (c # cs) then Some 0 else map_option Suc (find_string needle cs))"

definition flush_worktree :: "env \<Rightarrow> path \<Rightarrow> string \<Rightarrow> path \<Rightarrow> unit control" where
  "flush_worktree e project_root branch admin_dir =
     bnd (for_each [''HEAD'', ''commondir'', ''gitdir'', ''index''] (\<lambda>name.
            let file = admin_dir @ [name] in
            bnd (gets (fs_is_regular_file file)) (\<lambda>regular.
            if regular
            then catch (sync_file_data file)
                   (\<lambda>_. fail (''cannot flush Git linked-worktree file '' @ path_string file))
            else ret ()))) (\<lambda>_.
     bnd (catch (bnd (sync_directory admin_dir) (\<lambda>_. sync_parent_directory admin_dir))
            (\<lambda>_. fail ''cannot flush Git linked-worktree administrative directory'')) (\<lambda>_.
     let branch_ref = fs_join (project_root @ [kGitDirName, ''refs'', ''heads'']) branch in
     bnd (gets (fs_is_regular_file branch_ref)) (\<lambda>regular.
     if regular
     then catch (bnd (sync_file_data branch_ref) (\<lambda>_. sync_parent_directory branch_ref))
            (\<lambda>_. fail (''cannot flush Git branch '' @ branch))
     else ret ())))"

definition register_linked_worktree ::
  "env \<Rightarrow> path \<Rightarrow> string \<Rightarrow> path \<Rightarrow> path \<Rightarrow> workspace_index_seed \<Rightarrow> string control"
where
  "register_linked_worktree e project_root branch workspace_path staging_dir seed =
     bnd (attempt (fs_remove_all staging_dir)) (\<lambda>_.
     bnd (attempt (fs_create_directories e (butlast staging_dir))) (\<lambda>_.
     bnd (run_process_and_capture_output e
            [''git'', ''-C'', path_string project_root, ''worktree'', ''add'', ''--no-checkout'', ''-b'',
             branch, path_string staging_dir]) (\<lambda>(code, output).
     if code \<noteq> 0 then fail (''git worktree add failed: '' @ output)
     else
       bnd (read_first_line (staging_dir @ [kGitDirName])) (\<lambda>git_file.
         case find_string ''gitdir:'' git_file of
           None \<Rightarrow> fail ''unexpected .git file in the linked worktree''
         | Some marker \<Rightarrow>
             if length git_file < marker + 8 then halt ''std::out_of_range''
             else
             let admin_text = drop (marker + 8) git_file; admin_dir = segs admin_text in
             bnd (catch (write_stream e (admin_dir @ [''gitdir''])
                           (path_string (workspace_path @ [kGitDirName]) @ [CHR 0x0A]))
                    (\<lambda>_. fail ''cannot update the linked-worktree gitdir'')) (\<lambda>_.
             bnd (attempt (fs_remove_all staging_dir)) (\<lambda>_.
             bnd (populate_workspace_git_index e admin_dir (seed_tribios_dir seed) (seed_base_dir seed)
                    (seed_inode_salt seed) (seed_device seed)) (\<lambda>_.
             bnd (flush_worktree e project_root branch admin_dir) (\<lambda>_.
             ret (''gitdir: '' @ admin_text @ [CHR 0x0A])))))))))"

definition unregister_linked_worktree :: "env \<Rightarrow> path \<Rightarrow> path \<Rightarrow> unit control" where
  "unregister_linked_worktree e project_root workspace_path =
     bnd (run_process_and_capture_output e
            [''git'', ''-C'', path_string project_root, ''worktree'', ''remove'', ''--force'',
             path_string workspace_path]) (\<lambda>(code, output).
     if code \<noteq> 0 \<and> \<not> contains output ''is not a working tree'' \<and>
        \<not> contains output ''is not a working tree directory''
     then fail (''git worktree remove failed: '' @ output)
     else
       let worktrees = project_root @ [kGitDirName, ''worktrees''] in
       bnd (gets (fs_is_directory worktrees)) (\<lambda>registry.
       bnd (if registry
            then catch (sync_directory worktrees)
                   (\<lambda>_. fail ''cannot flush Git linked-worktree registry'')
            else ret ()) (\<lambda>_.
       catch (sync_directory (project_root @ [kGitDirName]))
         (\<lambda>_. fail ''cannot flush Git administrative directory''))))"

definition rollback_linked_worktree_creation :: "env \<Rightarrow> path \<Rightarrow> string \<Rightarrow> path \<Rightarrow> path \<Rightarrow> unit control" where
  "rollback_linked_worktree_creation e project_root branch workspace_path staging_dir =
     bnd (attempt (unregister_linked_worktree e project_root workspace_path)) (\<lambda>remove_workspace.
     bnd (attempt (unregister_linked_worktree e project_root staging_dir)) (\<lambda>remove_staging.
       case (remove_workspace, remove_staging) of
         (Inl message, Inl _) \<Rightarrow> fail message
       | _ \<Rightarrow>
           bnd (run_process_and_capture_output e
                  [''git'', ''-C'', path_string project_root, ''branch'', ''-D'', branch]) (\<lambda>(code, output).
           if code \<noteq> 0 \<and> \<not> contains output ''not found''
           then fail (''git branch rollback failed: '' @ output)
           else ret ())))"

end
