(* ===== verification/Recovery.thy ===== *)
theory Recovery
  imports Git_Worktree
begin

text \<open>
  Start-up recovery (\<^verbatim>\<open>core/recovery.cpp\<close>): every journaled operation that an earlier process left is
  rolled back or carried through, in the order of its id, and the storage is validated afterwards.
  The flushes and failpoints of that file are in the theory Machine.
\<close>

section \<open>Paths as text\<close>

text \<open>\<^verbatim>\<open>path::filename\<close> and \<^verbatim>\<open>path::parent_path\<close> on an absolute path.\<close>

definition path_filename :: "string \<Rightarrow> string" where
  "path_filename p = (case rfind_char (CHR ''/'') p of None \<Rightarrow> p | Some i \<Rightarrow> drop (i + 1) p)"

definition parent_path_string :: "string \<Rightarrow> string" where
  "parent_path_string p =
     (case rfind_char (CHR ''/'') p of
        None \<Rightarrow> []
      | Some i \<Rightarrow>
          let stripped = rev (dropWhile (\<lambda>c. c = CHR ''/'') (rev (take i p)))
          in if stripped = [] then ''/'' else stripped)"

text \<open>\<^verbatim>\<open>weakly_canonical\<close>: the existing front part resolved, the rest appended and normalised.\<close>

fun weakly_canonical :: "node \<Rightarrow> path \<Rightarrow> path \<Rightarrow> errno + path" where
  "weakly_canonical h front [] = resolve h front True"
| "weakly_canonical h front (x # xs) =
     (case k_stat h (front @ [x]) of
        Inr _ \<Rightarrow> weakly_canonical h (front @ [x]) xs
      | Inl err \<Rightarrow>
          if err = ENOENT \<or> err = ENOTDIR
          then (case resolve h front True of
                  Inl err' \<Rightarrow> Inl err'
                | Inr q \<Rightarrow> Inr (foldl take_segment q (x # xs)))
          else Inl err)"

section \<open>Steps\<close>

definition recovery_error :: "path \<Rightarrow> recovery_operation \<Rightarrow> string \<Rightarrow> 'a control" where
  "recovery_error project_root op detail =
     fail (''recovery refused Project '' @ path_string project_root @ '', Workspace '' @ op_workspace op @
           '', operation '' @ show_int (op_id op) @ '' ('' @ op_kind op @ '') at '' @ op_path op @ '': '' @ detail)"

definition refusing :: "path \<Rightarrow> recovery_operation \<Rightarrow> 'a control \<Rightarrow> 'a control" where
  "refusing project_root op m = catch m (recovery_error project_root op)"

definition valid_recovery_relative_path :: "string \<Rightarrow> bool \<Rightarrow> bool" where
  "valid_recovery_relative_path path allow_empty =
     (if path = [] then allow_empty else normalize_relative path = path)"

definition remove_upper_entry :: "env \<Rightarrow> path \<Rightarrow> bool \<Rightarrow> unit control" where
  "remove_upper_entry e path directory =
     bnd (gets (\<lambda>s. lstat_ok (host s) path)) (\<lambda>exists.
     if \<not> exists then ret ()
     else
       bnd (catch (if directory then fs_remove_all path else fs_remove path)
              (\<lambda>ec. fail (''cannot remove '' @ path_string path @ '': '' @ error_text e ec))) (\<lambda>_.
       catch (sync_parent_directory path)
         (\<lambda>synced. fail (''cannot sync '' @ path_string (butlast path) @ '': '' @ error_text e synced))))"

definition publish_staged_entry :: "env \<Rightarrow> path \<Rightarrow> path \<Rightarrow> unit control" where
  "publish_staged_entry e stage destination =
     bnd (gets (\<lambda>s. (lstat_ok (host s) stage, lstat_ok (host s) destination))) (\<lambda>(staged, published).
     bnd (if staged
          then
            bnd (catch (fs_create_directories e (butlast destination))
                   (\<lambda>ec. fail (''cannot create recovery destination parent: '' @ error_text e ec))) (\<lambda>_.
            catch (sys_rename stage destination)
              (\<lambda>ec. fail (''cannot publish recovered entry: '' @ error_text e ec)))
          else if \<not> published then fail ''both the staged entry and published entry are missing''
          else ret ()) (\<lambda>_.
     catch (sync_parent_directory destination)
       (\<lambda>synced. fail (''cannot sync recovered destination: '' @ error_text e synced))))"

definition staged_filesystem_operation :: "string \<Rightarrow> bool" where
  "staged_filesystem_operation kind \<longleftrightarrow>
     kind = ''create'' \<or> kind = ''mkdir'' \<or> kind = ''symlink'' \<or> kind = ''write'' \<or>
     kind = ''truncate'' \<or> kind = ''chmod'' \<or> kind = ''utimens'' \<or> kind = ''rename''"

definition check_admin_dir :: "path \<Rightarrow> recovery_operation \<Rightarrow> path \<Rightarrow> unit control" where
  "check_admin_dir project_root op admin_dir =
     bnd (gets (fs_is_directory admin_dir)) (\<lambda>present.
     if \<not> present then recovery_error project_root op ''active Workspace Git administrative directory is missing''
     else
       bnd (gets (\<lambda>s. (weakly_canonical (host s) [] admin_dir,
                       weakly_canonical (host s) [] (project_root @ [kGitDirName, ''worktrees''])))) (\<lambda>(admin, registry).
         case (admin, registry) of
           (Inr a, Inr r) \<Rightarrow>
             if butlast a \<noteq> r
             then recovery_error project_root op ''Git administrative directory is outside the Project registry''
             else ret ()
         | _ \<Rightarrow> recovery_error project_root op ''Git administrative directory is outside the Project registry''))"

definition check_git_registry :: "env \<Rightarrow> path \<Rightarrow> recovery_operation \<Rightarrow> string \<Rightarrow> path \<Rightarrow> unit control" where
  "check_git_registry e project_root op registered admin_dir =
     bnd (run_process_and_capture_output e
            [''git'', ''--git-dir'', path_string admin_dir, ''fsck'', ''--connectivity-only'']) (\<lambda>(code, output).
     if code \<noteq> 0 then recovery_error project_root op (''Git integrity check failed: '' @ output)
     else
       bnd (run_process_and_capture_output e
              [''git'', ''-C'', path_string project_root, ''worktree'', ''list'', ''--porcelain'']) (\<lambda>(code, output).
       if code \<noteq> 0 \<or> \<not> contains output (''worktree '' @ parent_path_string registered) \<or>
          (op_target op \<noteq> [] \<and> \<not> contains output (''branch refs/heads/'' @ op_target op))
       then recovery_error project_root op ''Git linked-worktree registry is inconsistent''
       else ret ()))"

definition validate_completed_workspace_creation ::
  "env \<Rightarrow> path \<Rightarrow> path \<Rightarrow> recovery_operation \<Rightarrow> unit control"
where
  "validate_completed_workspace_creation e project_root upper op =
     bnd (read_first_line (upper @ [kGitDirName])) (\<lambda>pointer.
     if \<not> prefix ''gitdir: '' pointer
     then recovery_error project_root op ''active Workspace has no valid .git pointer''
     else
       let admin_dir = segs (drop 8 pointer) in
       bnd (check_admin_dir project_root op admin_dir) (\<lambda>_.
       bnd (read_first_line (admin_dir @ [''gitdir''])) (\<lambda>registered.
       if path_filename registered \<noteq> kGitDirName \<or>
          path_filename (parent_path_string registered) \<noteq> op_workspace op
       then recovery_error project_root op ''Git linked-worktree record points at the wrong Workspace''
       else check_git_registry e project_root op registered admin_dir)))"

section \<open>One journaled operation\<close>

definition recover_workspace_create ::
  "env \<Rightarrow> path \<Rightarrow> path \<Rightarrow> path \<Rightarrow> recovery_operation \<Rightarrow> unit control"
where
  "recover_workspace_create e project_root tribios_dir workspaces_dir op =
     bnd (load_workspace_record e (op_workspace op)) (\<lambda>record.
     let workspace_dir = fs_join workspaces_dir (op_workspace op) in
     bnd (if (case record of Some r \<Rightarrow> ws_state r = Active | None \<Rightarrow> False)
          then validate_completed_workspace_creation e project_root (workspace_dir @ [''upper'']) op
          else
            bnd (load_project_record e) (\<lambda>project.
              case project of
                None \<Rightarrow> recovery_error project_root op
                          ''Project record is missing during Workspace creation rollback''
              | Some pr \<Rightarrow>
                  bnd (catch (fs_remove_all workspace_dir)
                         (\<lambda>ec. recovery_error project_root op (error_text e ec))) (\<lambda>_.
                  bnd (refusing project_root op
                         (rollback_linked_worktree_creation e project_root (op_target op)
                            (fs_join (segs (pr_mount_point pr)) (op_workspace op))
                            (fs_join (tribios_dir @ [''staging'']) (op_workspace op)))) (\<lambda>_.
                  if record \<noteq> None
                  then refusing project_root op (set_workspace_state e (op_workspace op) Reclaimed)
                  else ret ())))) (\<lambda>_.
     refusing project_root op (abandon_recovery_operation e (op_id op))))"

definition recover_workspace_remove ::
  "env \<Rightarrow> path \<Rightarrow> path \<Rightarrow> recovery_operation \<Rightarrow> unit control"
where
  "recover_workspace_remove e project_root workspaces_dir op =
     bnd (load_workspace_record e (op_workspace op)) (\<lambda>record.
     if (case record of Some r \<Rightarrow> ws_state r = Active | None \<Rightarrow> True)
     then refusing project_root op (abandon_recovery_operation e (op_id op))
     else
       let context = ''operation='' @ show_int (op_id op) @ '' workspace='' @ op_workspace op;
           failpoint = (\<lambda>name. trigger_failpoint e (''recovery.workspace_remove.'' @ name) context)
       in
       bnd (load_project_record e) (\<lambda>project.
         case project of
           None \<Rightarrow> recovery_error project_root op ''Project record is missing''
         | Some pr \<Rightarrow>
             bnd (failpoint ''before_git_cleanup'') (\<lambda>_.
             bnd (refusing project_root op
                    (unregister_linked_worktree e project_root
                       (fs_join (segs (pr_mount_point pr)) (op_workspace op)))) (\<lambda>_.
             bnd (failpoint ''after_git_cleanup'') (\<lambda>_.
             bnd (catch (fs_remove_all (fs_join workspaces_dir (op_workspace op)))
                    (\<lambda>ec. recovery_error project_root op (error_text e ec))) (\<lambda>_.
             bnd (catch (sync_directory workspaces_dir)
                    (\<lambda>_. recovery_error project_root op ''cannot flush Workspace cleanup'')) (\<lambda>_.
             bnd (failpoint ''after_storage_cleanup'') (\<lambda>_.
             bnd (refusing project_root op (clear_tombstones e (op_workspace op))) (\<lambda>_.
             bnd (refusing project_root op (set_workspace_reclamation_duration e (op_workspace op) 0)) (\<lambda>_.
             bnd (refusing project_root op (set_workspace_state e (op_workspace op) Reclaimed)) (\<lambda>_.
             bnd (failpoint ''after_reclaimed_commit'') (\<lambda>_.
             refusing project_root op (abandon_recovery_operation e (op_id op))))))))))))))"

definition unsafe_operation :: "recovery_operation \<Rightarrow> bool" where
  "unsafe_operation op \<longleftrightarrow>
     op_workspace op = [] \<or> CHR ''/'' \<in> set (op_workspace op) \<or>
     \<not> valid_recovery_relative_path (op_path op) False \<or>
     \<not> valid_recovery_relative_path (op_target op) True"

definition apply_operation :: "env \<Rightarrow> path \<Rightarrow> path \<Rightarrow> recovery_operation \<Rightarrow> unit control" where
  "apply_operation e upper stage op =
     (if op_kind op = ''unlink'' then remove_upper_entry e (upper @ segs (op_path op)) False
      else if op_kind op = ''rmdir'' then remove_upper_entry e (upper @ segs (op_path op)) True
      else
        bnd (publish_staged_entry e stage
               (upper @ segs (if op_kind op = ''rename'' then op_target op else op_path op))) (\<lambda>_.
        if op_kind op = ''rename'' then remove_upper_entry e (upper @ segs (op_path op)) True else ret ()))"

definition recover_entry_operation :: "env \<Rightarrow> path \<Rightarrow> path \<Rightarrow> recovery_operation \<Rightarrow> unit control" where
  "recover_entry_operation e project_root workspaces_dir op =
     (if unsafe_operation op then recovery_error project_root op ''journal record contains an unsafe path''
      else if op_kind op \<noteq> ''unlink'' \<and> op_kind op \<noteq> ''rmdir'' \<and> \<not> staged_filesystem_operation (op_kind op)
      then recovery_error project_root op ''journal record has an unknown operation kind''
      else
        let workspace_dir = workspaces_dir @ segs (op_workspace op);
            upper = workspace_dir @ [''upper''];
            stage = workspace_dir @ [''recovery'', show_int (op_id op)];
            context = ''operation='' @ show_int (op_id op) @ '' workspace='' @ op_workspace op @
                      '' path='' @ op_path op;
            failpoint = (\<lambda>name. trigger_failpoint e (''recovery.'' @ name) context)
        in
        if op_phase op = Prepared
        then
          bnd (failpoint ''before_prepared_rollback'') (\<lambda>_.
          bnd (catch (fs_remove_all stage) (\<lambda>ec. recovery_error project_root op (error_text e ec))) (\<lambda>_.
          bnd (refusing project_root op (abandon_recovery_operation e (op_id op))) (\<lambda>_.
          failpoint ''after_prepared_rollback'')))
        else
          bnd (failpoint ''before_apply'') (\<lambda>_.
          bnd (refusing project_root op (apply_operation e upper stage op)) (\<lambda>_.
          bnd (failpoint ''after_apply'') (\<lambda>_.
          bnd (failpoint ''before_metadata_commit'') (\<lambda>_.
          bnd (refusing project_root op (finish_recovery_operation e op)) (\<lambda>_.
          failpoint ''after_metadata_commit''))))))"

definition recover_operation ::
  "env \<Rightarrow> path \<Rightarrow> path \<Rightarrow> path \<Rightarrow> recovery_operation \<Rightarrow> unit control"
where
  "recover_operation e project_root tribios_dir workspaces_dir op =
     (if op_kind op = ''workspace_create''
      then recover_workspace_create e project_root tribios_dir workspaces_dir op
      else if op_kind op = ''workspace_remove''
      then recover_workspace_remove e project_root workspaces_dir op
      else recover_entry_operation e project_root workspaces_dir op)"

section \<open>Recovery of a Project\<close>

definition reclaim_recovery_dirs :: "env \<Rightarrow> path \<Rightarrow> unit control" where
  "reclaim_recovery_dirs e workspaces_dir =
     bnd (attempt kernel_call) (\<lambda>opened.
     bnd (gets (\<lambda>s. case (opened, k_opendir (host s) workspaces_dir) of
                      (Inr _, Inr cs) \<Rightarrow> map fst cs | _ \<Rightarrow> [])) (\<lambda>names.
     for_each names (\<lambda>name.
       bnd (gets (fs_is_directory (workspaces_dir @ [name]))) (\<lambda>directory.
       if directory
       then
         let recovery_dir = workspaces_dir @ [name, ''recovery''] in
         catch (fs_remove_all recovery_dir)
           (\<lambda>ec. fail (''cannot reclaim '' @ path_string recovery_dir @ '': '' @ error_text e ec))
       else ret ()))))"

definition recreate_staging_dir :: "env \<Rightarrow> path \<Rightarrow> unit control" where
  "recreate_staging_dir e tribios_dir =
     (let staging_dir = tribios_dir @ [''staging''] in
      bnd (catch (fs_remove_all staging_dir)
             (\<lambda>ec. fail (''cannot reclaim staging artifacts: '' @ error_text e ec))) (\<lambda>_.
      catch (bnd (fs_create_directories e staging_dir) (\<lambda>_. sync_parent_directory staging_dir))
        (\<lambda>_. fail ''cannot recreate durable staging directory'')))"

definition recover_interrupted_operations :: "env \<Rightarrow> path \<Rightarrow> path \<Rightarrow> path \<Rightarrow> unit control" where
  "recover_interrupted_operations e project_root tribios_dir workspaces_dir =
     bnd (load_recovery_operations e) (\<lambda>loaded.
     bnd (for_each loaded (recover_operation e project_root tribios_dir workspaces_dir)) (\<lambda>_.
     bnd (reclaim_recovery_dirs e workspaces_dir) (\<lambda>_.
     recreate_staging_dir e tribios_dir)))"

section \<open>Storage invariants\<close>

definition storage_error :: "path \<Rightarrow> string \<Rightarrow> 'a control" where
  "storage_error project_root detail =
     fail (''storage invariant failed for Project '' @ path_string project_root @ detail)"

definition validate_workspace :: "env \<Rightarrow> path \<Rightarrow> path \<Rightarrow> workspace_record \<Rightarrow> unit control" where
  "validate_workspace e project_root workspaces_dir r =
     (let name = ws_name r in
      if name = [] \<or> CHR ''/'' \<in> set name \<or> name = ''.'' \<or> name = ''..''
      then storage_error project_root ('': Workspace record has an unsafe name '' @ name)
      else if ws_state r = Creating
      then storage_error project_root ('', Workspace '' @ name @ '': creation has no recoverable operation record'')
      else
        bnd (if ws_state r = Active
             then
               let upper = workspaces_dir @ [name, ''upper''];
                   op = \<lparr>op_id = 0, op_workspace = name, op_kind = ''validate'', op_path = kGitDirName,
                         op_target = ws_branch r, op_phase = Prepared, add_path_tombstone = False,
                         drop_target_tombstones = False\<rparr>
               in
               bnd (gets (fs_is_directory upper)) (\<lambda>present.
               if \<not> present then recovery_error project_root op ''upper tree is missing''
               else validate_completed_workspace_creation e project_root upper op)
             else ret ()) (\<lambda>_.
        bnd (load_workspace_tombstones e name) (\<lambda>tombstones.
        for_each tombstones (\<lambda>tombstone.
          if \<not> valid_recovery_relative_path tombstone False
          then storage_error project_root ('', Workspace '' @ name @ '', path '' @ tombstone @ '': tombstone path is unsafe'')
          else ret ()))))"

definition validate_project_storage_invariants :: "env \<Rightarrow> path \<Rightarrow> path \<Rightarrow> path \<Rightarrow> unit control" where
  "validate_project_storage_invariants e project_root base workspaces_dir =
     bnd (validate_database_integrity e) (\<lambda>_.
     bnd (gets (fs_is_directory base)) (\<lambda>present.
     if \<not> present then storage_error project_root '': Base state directory is missing''
     else
       bnd (load_project_record e) (\<lambda>project.
         case project of
           None \<Rightarrow> storage_error project_root '': Project record is missing''
         | Some pr \<Rightarrow>
             bnd (gets (\<lambda>s. (weakly_canonical (host s) [] (segs (pr_root pr)),
                             weakly_canonical (host s) [] project_root))) (\<lambda>(recorded, actual).
             if (case recorded of Inl _ \<Rightarrow> None | Inr p \<Rightarrow> Some p) \<noteq>
                (case actual of Inl _ \<Rightarrow> None | Inr p \<Rightarrow> Some p)
             then storage_error project_root ('': Project record points at '' @ pr_root pr)
             else
               bnd (load_recovery_operations e) (\<lambda>pending.
                 case pending of
                   op # _ \<Rightarrow> storage_error project_root
                               ('': recovery left operation '' @ show_int (op_id op) @ '' unsettled'')
                 | [] \<Rightarrow>
                     bnd (load_all_workspace_records e) (\<lambda>records.
                     for_each records (validate_workspace e project_root workspaces_dir)))))))"

end
