(* ===== verification/Crash.thy ===== *)
theory Crash
  imports Publication Recovery
begin

text \<open>
  A process exit inside a publication and the recovery that follows it: the state it leaves is a
  \<open>crash_image\<close>, and recovery takes every such image to the old content or to the new one, with an
  empty journal.
\<close>

section \<open>The journal of an interrupted publication\<close>

lemma pending_append:
  assumes "journal_ok st0" "operation_rows st = operation_rows st0 @ [row]" "journal_ok st"
    "read_operation row = Some op"
  shows "pending st = pending st0 @ [op]"
  using assms by (simp add: pending_def pending_rows)

lemma pending_rows_eq:
  "operation_rows st = operation_rows st' \<Longrightarrow> pending st = pending st'"
  by (simp add: pending_def sql_load_recovery_operations_def)

lemma journal_ok_journaled:
  "journal_ok st0 \<Longrightarrow> journal_ok (journaled op st0)"
  "journal_ok st0 \<Longrightarrow> journal_ok (journaled_publishing op st0)"
  by (simp_all add: journaled_def journaled_publishing_def journal_ok_begin journal_ok_phase)

lemma old_rows_id: "journal_ok st0 \<Longrightarrow> row \<in> set (operation_rows st0) \<Longrightarrow> or_id row \<noteq> operation_seq st0 + 1"
  by (force simp: journal_ok_def)

lemma journaled_publishing_rows:
  assumes "journal_ok st0"
  shows "operation_rows (journaled_publishing op st0) =
    operation_rows st0 @ [write_operation (operation_seq st0 + 1) (op\<lparr>op_phase := Publishing\<rparr>)]"
proof -
  have "map (\<lambda>row. if or_id row = operation_seq st0 + 1 then row\<lparr>or_phase := r\<rparr> else row) (operation_rows st0) =
      operation_rows st0" for r
    using old_rows_id [OF assms] by (intro map_idI) auto
  then show ?thesis
    by (simp add: journaled_publishing_def journaled_def sql_set_recovery_operation_phase_def
        sql_begin_recovery_operation_def write_operation_def)
qed

lemma pending_journaled:
  assumes "journal_ok st0"
  shows "pending (journaled op st0) = pending st0 @ [op\<lparr>op_id := operation_seq st0 + 1\<rparr>]"
    and "pending (journaled_publishing op st0) = pending st0 @ [as_published op st0]"
proof -
  show "pending (journaled op st0) = pending st0 @ [op\<lparr>op_id := operation_seq st0 + 1\<rparr>]"
    by (rule pending_append [OF assms _ journal_ok_journaled(1) [OF assms]])
      (auto simp: journaled_def sql_begin_recovery_operation_def)
  show "pending (journaled_publishing op st0) = pending st0 @ [as_published op st0]"
    by (rule pending_append [OF assms journaled_publishing_rows [OF assms] journal_ok_journaled(2) [OF assms]])
      (simp add: as_published_def)
qed

lemma abandon_last:
  assumes "journal_ok st0" "operation_rows st = operation_rows st0 @ [write_operation (operation_seq st0 + 1) op]"
  shows "operation_rows (sql_abandon_recovery_operation (operation_seq st0 + 1) st) = operation_rows st0"
proof -
  have "filter (\<lambda>row. or_id row \<noteq> operation_seq st0 + 1) (operation_rows st0) = operation_rows st0"
    using old_rows_id [OF assms(1)] by (intro filter_True) auto
  with assms(2) show ?thesis by (simp add: sql_abandon_recovery_operation_def write_operation_def)
qed

lemma sql_finish_rows:
  "operation_rows (sql_finish like op st) = operation_rows (sql_abandon_recovery_operation (op_id op) st)"
  by (simp add: sql_finish_def sql_abandon_recovery_operation_def sql_remove_tombstones_under_def sql_add_tombstone_def)

text \<open>What the closing transaction leaves of the tombstones.\<close>

definition finished_rows :: "env \<Rightarrow> recovery_operation \<Rightarrow> store \<Rightarrow> (string \<times> string) list" where
  "finished_rows e op st = tombstone_rows (sql_finish (sql_like e) op st)"

lemma finished_rows_cong:
  assumes "op_workspace op = op_workspace op'" "op_path op = op_path op'" "op_target op = op_target op'"
    "add_path_tombstone op = add_path_tombstone op'" "drop_target_tombstones op = drop_target_tombstones op'"
    "tombstone_rows st = tombstone_rows st'"
  shows "finished_rows e op st = finished_rows e op' st'"
  using assms
  by (simp add: finished_rows_def sql_finish_def sql_abandon_recovery_operation_def
      sql_remove_tombstones_under_def sql_add_tombstone_def)

lemma finished_store_facts:
  assumes "journal_ok st0"
  shows "operation_rows (finished_store e (as_published op st0) (journaled_publishing op st0)) = operation_rows st0"
    and "tombstone_rows (finished_store e (as_published op st0) (journaled_publishing op st0)) = finished_rows e op st0"
proof -
  show "operation_rows (finished_store e (as_published op st0) (journaled_publishing op st0)) = operation_rows st0"
    using abandon_last [OF assms journaled_publishing_rows [OF assms]]
    by (simp add: finished_store_def sql_finish_rows as_published_def)
  have "tombstone_rows (journaled_publishing op st0) = tombstone_rows st0"
    by (simp add: journaled_publishing_def journaled_def sql_set_recovery_operation_phase_def sql_begin_recovery_operation_def)
  then show "tombstone_rows (finished_store e (as_published op st0) (journaled_publishing op st0)) = finished_rows e op st0"
    unfolding finished_store_def finished_rows_def [symmetric]
    by (intro finished_rows_cong) (simp_all add: as_published_def)
qed

section \<open>Programs that cannot fail\<close>

abbreviation succeeds :: "(node \<Rightarrow> store \<Rightarrow> engine \<Rightarrow> bool) \<Rightarrow> (machine, 'e, 'a) prog \<Rightarrow>
  ('a \<Rightarrow> node \<Rightarrow> store \<Rightarrow> engine \<Rightarrow> bool) \<Rightarrow> bool" where
  "succeeds P m Q \<equiv> hoare (holds True P) m (\<lambda>a. holds True (Q a)) (\<lambda>_ _. False) (\<lambda>_ _. False)"

lemma succeeds_intro:
  assumes "hoare (holds True P) m (\<lambda>a. holds True (Q a)) (\<lambda>x. holds True (E x)) (\<lambda>_ _. False)"
    and "\<And>x h st en. \<not> E x h st en"
  shows "succeeds P m Q"
  using assms(1) by (rule hoare_conseq) (auto simp: holds_def assms(2))

lemma succeeds_catch: "succeeds P m Q \<Longrightarrow> succeeds P (catch m k) Q"
  by (rule hoare_catch) (auto intro: hoare_false)

lemma succeeds_refusing: "succeeds P m Q \<Longrightarrow> succeeds P (refusing r op m) Q"
  unfolding refusing_def by (rule succeeds_catch)

lemma succeeds_bnd: "succeeds P m R \<Longrightarrow> (\<And>a. succeeds (R a) (k a) Q) \<Longrightarrow> succeeds P (bnd m k) Q"
  by (rule hoare_bnd)

lemma succeeds_ret: "(\<And>h st en. P h st en \<Longrightarrow> Q a h st en) \<Longrightarrow> succeeds P (ret a) Q"
  by (rule hoare_ret) (simp add: holds_def)

lemma succeeds_conseq:
  "succeeds P' m Q' \<Longrightarrow> (\<And>h st en. P h st en \<Longrightarrow> P' h st en) \<Longrightarrow>
   (\<And>a h st en. Q' a h st en \<Longrightarrow> Q a h st en) \<Longrightarrow> succeeds P m Q"
  by (erule hoare_conseq) (auto simp: holds_def)

lemma succeeds_failpoint: "tribios_failpoint e = None \<Longrightarrow> succeeds P (trigger_failpoint e name c) (\<lambda>_. P)"
  by (rule failpoint_off_spec)

lemma succeeds_gets_bnd:
  assumes "\<And>x. hoare (\<lambda>s. holds True P s \<and> x = g s) (k x) (\<lambda>a. holds True (Q a)) (\<lambda>_ _. False) (\<lambda>_ _. False)"
  shows "succeeds P (bnd (gets g) k) Q"
  using assms by (rule hoare_gets_bnd)

lemma succeeds_look: "(\<And>x. succeeds P (k x) Q) \<Longrightarrow> succeeds P (bnd (gets g) k) Q"
  by (simp add: hoare_def prog_defs)

text \<open>A test of the file system whose outcome the assertion settles.\<close>

lemma succeeds_test:
  assumes "\<And>s. holds True P s \<Longrightarrow> g s = x" "succeeds P (k x) Q"
  shows "succeeds P (bnd (gets g) k) Q"
proof (rule hoare_gets_bnd)
  fix y
  show "hoare (\<lambda>s. holds True P s \<and> y = g s) (k y) (\<lambda>a. holds True (Q a)) (\<lambda>_ _. False) (\<lambda>_ _. False)"
    by (rule hoare_const [where c = "y = x"]) (use assms in \<open>auto intro: hoare_pre [OF assms(2)]\<close>)
qed

lemma succeeds_abandon:
  assumes "\<And>h st en. P h st en \<Longrightarrow> Q h (sql_abandon_recovery_operation i st) en"
  shows "succeeds P (abandon_recovery_operation e i) (\<lambda>_. Q)"
  by (rule succeeds_intro [OF abandon_spec]) (auto intro: assms)

lemma succeeds_finish:
  assumes "\<And>h st en. P h st en \<Longrightarrow> Q h (sql_finish (sql_like e) op st) en"
  shows "succeeds P (finish_recovery_operation e op) (\<lambda>_. Q)"
  by (rule succeeds_intro [OF finish_spec]) (auto intro: assms)

lemma succeeds_remove_all:
  assumes "\<And>h st en. P h st en \<Longrightarrow> clean p \<and> p \<noteq> [] \<and> direct h p \<and> is_dir h"
    and "\<And>h st en. P h st en \<Longrightarrow> Q (put h p None) st en"
  shows "succeeds P (fs_remove_all p) (\<lambda>_. Q)"
  by (rule succeeds_intro [OF fs_remove_all_spec [where E = "\<lambda>_ _ _. False"]]) (auto dest: assms)

lemma succeeds_sync_parent:
  assumes "\<And>h st en. P h st en \<Longrightarrow> clean p \<and> dir_at h (butlast p)"
  shows "succeeds P (sync_parent_directory p) (\<lambda>_. P)"
proof (rule succeeds_intro [OF weaken_error [OF sync_parent_spec]])
  fix x h st en assume "P h st en \<and> (True \<longrightarrow> k_opendir h (butlast p) = Inl x)"
  with assms [of h st en] k_stat_dir [of "butlast p" h] show False by auto
qed simp

lemma succeeds_sys:
  assumes "\<And>h st en. P h st en \<Longrightarrow> \<exists>h'. f h = Inr h' \<and> Q h' st en"
  shows "succeeds P (sys f) (\<lambda>_. Q)"
proof (rule succeeds_intro [OF weaken_error [OF sys_spec]])
  fix h h' st en assume "P h st en" "f h = Inr h'"
  with assms [of h st en] show "Q h' st en" by auto
next
  fix x h st en assume "P h st en \<and> (True \<longrightarrow> f h = Inl x)"
  with assms [of h st en] show False by auto
qed simp

lemma succeeds_existing_directories:
  assumes "\<And>h st en. P h st en \<Longrightarrow> clean p \<and> dir_at h p"
  shows "succeeds P (fs_create_directories e p) (\<lambda>_. P)"
  unfolding fs_create_directories_def
  by (rule create_directories_existing) (use assms in auto)


section \<open>The operation as recovery sees it\<close>

text \<open>The storage of the Workspace lies in the Project's directory of Workspaces.\<close>

definition housed :: "path \<Rightarrow> engine \<Rightarrow> bool" where
  "housed W en \<longleftrightarrow> clean W \<and> clean_segment (workspace en) \<and> upper_dir en = W @ [workspace en, ''upper'']"

definition entry_operation :: "recovery_operation \<Rightarrow> engine \<Rightarrow> path \<Rightarrow> path \<Rightarrow> bool" where
  "entry_operation op en d p \<longleftrightarrow>
     op_workspace op = workspace en \<and> staged_filesystem_operation (op_kind op) \<and> clean d \<and> d \<noteq> [] \<and>
     (if op_kind op = ''rename'' then op_path op = unsegs p \<and> clean p \<and> p \<noteq> [] \<and> op_target op = unsegs d
      else op_path op = unsegs d \<and> op_target op = [])"

lemma segs_clean_segment: "clean_segment x \<Longrightarrow> segs x = [x]"
  using segs_unsegs [of "[x]"] by (simp add: unsegs_def append_segment_def)

lemma housed_dirs:
  assumes "housed W en"
  shows "workspace_dir en = W @ [workspace en]" "recovery_dir en = W @ [workspace en, ''recovery'']"
    "segs (workspace en) = [workspace en]"
  using assms segs_clean_segment by (auto simp: housed_def workspace_dir_def recovery_dir_def butlast_append)

lemma normal_relative: "clean q \<Longrightarrow> q \<noteq> [] \<Longrightarrow> valid_recovery_relative_path (unsegs q) b"
  by (simp add: valid_recovery_relative_path_def normalI)

lemma entry_operation_safe:
  assumes "entry_operation op en d p" "housed W en"
  shows "\<not> unsafe_operation op"
  using assms normal_relative [of p] normal_relative [of d]
  by (auto simp: entry_operation_def housed_def unsafe_operation_def clean_segment_def
      valid_recovery_relative_path_def [of "[]"] split: if_splits)

text \<open>What the branch for entries asks of a row.\<close>

definition journal_operation :: "recovery_operation \<Rightarrow> engine \<Rightarrow> bool" where
  "journal_operation op en \<longleftrightarrow>
     op_workspace op = workspace en \<and> \<not> unsafe_operation op \<and>
     (op_kind op = ''unlink'' \<or> op_kind op = ''rmdir'' \<or> staged_filesystem_operation (op_kind op))"

lemma entry_is_journal_operation: "entry_operation op en d p \<Longrightarrow> housed W en \<Longrightarrow> journal_operation op en"
  using entry_operation_safe by (auto simp: journal_operation_def entry_operation_def)

lemma recover_entry_eq:
  assumes "journal_operation op en" "housed W en" "tribios_failpoint e = None"
  shows "recover_operation e root tribios W op =
    (let stage = recovery_dir en @ [show_int (op_id op)] in
     if op_phase op = Prepared
     then bnd (catch (fs_remove_all stage) (\<lambda>ec. recovery_error root op (error_text e ec))) (\<lambda>_.
          bnd (refusing root op (abandon_recovery_operation e (op_id op))) (\<lambda>_. ret ()))
     else bnd (refusing root op (apply_operation e (upper_dir en) stage op)) (\<lambda>_.
          bnd (refusing root op (finish_recovery_operation e op)) (\<lambda>_. ret ())))"
proof -
  have k: "op_kind op \<noteq> ''workspace_create''" "op_kind op \<noteq> ''workspace_remove''"
    "\<not> (op_kind op \<noteq> ''unlink'' \<and> op_kind op \<noteq> ''rmdir'' \<and> \<not> staged_filesystem_operation (op_kind op))"
    "op_workspace op = workspace en" "\<not> unsafe_operation op"
    using assms(1) by (auto simp: journal_operation_def staged_filesystem_operation_def)
  have t: "trigger_failpoint e name c = ret ()" for name c
    using assms(3) by (simp add: trigger_failpoint_def)
  have r: "bnd (ret ()) k = k ()" for k :: "unit \<Rightarrow> unit control"
    by (simp add: prog_defs fun_eq_iff)
  show ?thesis
    unfolding recover_operation_def recover_entry_operation_def
      if_not_P [OF k(1)] if_not_P [OF k(2)] if_not_P [OF k(3)] if_not_P [OF k(5)]
    using k(4) housed_dirs [OF assms(2)] assms(2)
    by (simp add: t r Let_def housed_def)
qed

section \<open>Rolling a prepared operation back\<close>

lemma prepared_is_rolled_back:
  assumes op: "journal_operation op en0" and W: "housed W en0" and fp: "tribios_failpoint e = None"
    and lay: "layout en0 h0" and phase: "op_phase op = Prepared"
  shows "succeeds (\<lambda>h st en. untouched h0 en0 h \<and> st = st1) (recover_operation e root tribios W op)
    (\<lambda>_ h st en. untouched h0 en0 h \<and> st = sql_abandon_recovery_operation (op_id op) st1)"
proof -
  let ?stage = "recovery_dir en0 @ [show_int (op_id op)]"
  let ?P = "\<lambda>h st (en::engine). untouched h0 en0 h \<and> st = st1"
  have sp: "strict_prefix (recovery_dir en0) ?stage" by (simp add: strict_prefix_def)
  have rm: "succeeds ?P (fs_remove_all ?stage) (\<lambda>_. ?P)"
  proof (rule succeeds_remove_all)
    fix h st en assume "?P h st en"
    then show "clean ?stage \<and> ?stage \<noteq> [] \<and> direct h ?stage \<and> is_dir h"
      using layout_recovery [OF lay, where S = "{recovery_dir en0}" and h = h] not_prefix_workspace [OF lay]
        layout_clean [OF lay] by (auto simp: untouched_def)
  qed (use untouched_put [OF _ sp] in auto)
  have ab: "succeeds ?P (abandon_recovery_operation e (op_id op))
      (\<lambda>_ h st en. untouched h0 en0 h \<and> st = sql_abandon_recovery_operation (op_id op) st1)"
    by (rule succeeds_abandon) simp
  show ?thesis
    unfolding recover_entry_eq [OF op W fp] Let_def using phase
    by (simp, intro succeeds_bnd [OF succeeds_catch [OF rm]] succeeds_bnd [OF succeeds_refusing [OF ab]] succeeds_ret)
qed


section \<open>Carrying a publishing operation through\<close>

lemma moved_dirs:
  assumes pub: "publishable op h0 st0 en0 d p" and ren: "op_kind op = ''rename''"
    and out: "outside {recovery_dir en0, upper_dir en0 @ d, upper_dir en0 @ p} h0 h" and R: "recovery_ok en0 h"
  shows "dir_at h (upper_dir en0 @ butlast d)" "is_dir h" "direct h (upper_dir en0 @ p)"
    "direct h (recovery_dir en0 @ [x])"
proof -
  let ?R = "recovery_dir en0" and ?D = "upper_dir en0 @ d" and ?S = "upper_dir en0 @ p"
  have lay: "layout en0 h0" and d: "d \<noteq> []" and apart: "\<not> prefix p d" "\<not> prefix d p"
    and dir: "direct h0 ?S" "dir_at h0 (upper_dir en0 @ butlast d)"
    using pub ren by (auto simp: publishable_def)
  note paths = publishable_paths [OF pub]
  show "is_dir h" "direct h (recovery_dir en0 @ [x])"
    using layout_recovery(2,3) [OF lay out] not_prefix_workspace [OF lay] R by auto
  have "prefix (butlast d) d" by (metis append_butlast_last_id d prefixI)
  with apart(1) have "\<not> prefix p (butlast d)" using prefix_order.trans by blast
  moreover have "\<not> prefix d (butlast d)" using d by (rule not_prefix_butlast)
  ultimately have "\<not> prefix r (upper_dir en0 @ butlast d)" if "r \<in> {?R, ?D, ?S}" for r
    using that paths(10) by auto
  from outside_dir [OF out this] dir(2) show "dir_at h (upper_dir en0 @ butlast d)" by blast
  show "direct h ?S"
    unfolding direct_def
  proof (intro allI impI)
    fix q assume q: "strict_prefix q ?S"
    have "\<not> prefix r q" if "r \<in> {?R, ?D, ?S}" for r
    proof
      assume "prefix r q"
      with q have "prefix r ?S" "r \<noteq> ?S" by (auto simp: strict_prefix_def dest: prefix_order.antisym intro: prefix_order.trans)
      with that paths(10) [of p] apart(2) show False by auto
    qed
    then show "case get h q of Some n \<Rightarrow> \<not> is_link n | None \<Rightarrow> True"
      using q dir(1) outside_same [OF out, of q] same_entry_link [of "get h0 q" "get h q"]
      by (auto simp: direct_def)
  qed
qed

text \<open>The entry is in place; the source of a rename may be there still.\<close>

definition in_place :: "recovery_operation \<Rightarrow> node \<Rightarrow> engine \<Rightarrow> path \<Rightarrow> path \<Rightarrow> path \<Rightarrow> node \<Rightarrow> node \<Rightarrow> bool" where
  "in_place op h0 en0 stage d p n h \<longleftrightarrow>
     entry_published h0 en0 stage d n h \<or>
     op_kind op = ''rename'' \<and> source_removed h0 en0 stage d p n h"

lemma in_place_facts:
  assumes pub: "publishable op h0 st0 en0 d p" and i: "in_place op h0 en0 (stage_of en0 st0) d p n h"
  shows "dir_at h (upper_dir en0 @ butlast d)" "\<not> lstat_ok h (stage_of en0 st0)" "lstat_ok h (upper_dir en0 @ d)"
    and "op_kind op = ''rename'' \<Longrightarrow> direct h (upper_dir en0 @ p) \<and> is_dir h"
proof -
  let ?R = "recovery_dir en0" and ?D = "upper_dir en0 @ d" and ?st = "stage_of en0 st0"
  have lay: "layout en0 h0" using pub by (simp add: publishable_def)
  note paths = publishable_paths [OF pub]
  obtain S where S: "outside S h0 h" "S \<subseteq> {?R, ?D, upper_dir en0 @ p}" "recovery_ok en0 h"
    "get h ?st = None" "get h ?D = Some n"
    using i by (auto simp: in_place_def source_removed_def entry_published_def)
  have dirs: "is_dir h" "direct h (?R @ [x])" for x
    using layout_recovery(2,3) [OF lay S(1) _ S(3)] S(2) not_prefix_workspace [OF lay] by auto
  show up: "dir_at h (upper_dir en0 @ butlast d)"
    using get_parent_dir [OF S(5)] paths(6,7) by simp
  show "\<not> lstat_ok h ?st"
    using lstat_ok_direct [OF paths(1), of h] dirs S(4) by (simp add: stage_of_def stage_path_def)
  show "lstat_ok h ?D"
    using k_lstat_through_dirs [of ?D h] up S(5) paths(5,6,7) by (simp add: lstat_ok_def)
  show "direct h (upper_dir en0 @ p) \<and> is_dir h" if "op_kind op = ''rename''"
    using moved_dirs(2,3) [OF pub that] outside_mono [OF S(1,2)] S(3) by blast
qed

lemma publish_recovered:
  assumes pub: "publishable op0 h0 st0 en0 d p" and rep: "replaceable n (get h0 (upper_dir en0 @ d))"
  shows "succeeds (\<lambda>h st en. (stage_filled h0 en0 (stage_of en0 st0) n h \<or> in_place op0 h0 en0 (stage_of en0 st0) d p n h) \<and> st = st2)
    (publish_staged_entry e (stage_of en0 st0) (upper_dir en0 @ d))
    (\<lambda>_ h st en. in_place op0 h0 en0 (stage_of en0 st0) d p n h \<and> st = st2)"
proof -
  let ?st = "stage_of en0 st0" and ?D = "upper_dir en0 @ d"
  let ?F = "\<lambda>h st (en::engine). stage_filled h0 en0 ?st n h \<and> st = st2"
  let ?I = "\<lambda>h st (en::engine). in_place op0 h0 en0 ?st d p n h \<and> st = st2"
  note paths = publishable_paths [OF pub]
  have F: "lstat_ok h ?st \<and> dir_at h (upper_dir en0 @ butlast d)" if "stage_filled h0 en0 ?st n h" for h
    using that paths outside_dir [of "{recovery_dir en0}" h0 h "upper_dir en0 @ butlast d"] pub
      k_lstat_through_dirs [of ?st h]
    by (auto simp: stage_filled_def publishable_def lstat_ok_def)
  have dirs: "succeeds ?F (fs_create_directories e (butlast ?D)) (\<lambda>_. ?F)"
    by (rule succeeds_existing_directories) (use F paths(5,7) in auto)
  have ren: "succeeds ?F (sys_rename ?st ?D) (\<lambda>_. ?I)"
    unfolding sys_rename_def
    by (rule succeeds_sys) (use rename_succeeds [OF pub _ rep] rename_published [OF pub] in \<open>fastforce simp: in_place_def\<close>)
  have sync: "succeeds ?I (sync_parent_directory ?D) (\<lambda>_. ?I)"
    by (rule succeeds_sync_parent) (use in_place_facts(1) [OF pub] paths(5,7) in auto)
  have filled: "succeeds ?F (publish_staged_entry e ?st ?D) (\<lambda>_. ?I)"
  proof -
    have both: "succeeds ?F (bnd (if True then
            bnd (catch (fs_create_directories e (butlast ?D)) h1) (\<lambda>_. catch (sys_rename ?st ?D) h2)
          else m) (\<lambda>_. catch (sync_parent_directory ?D) h3)) (\<lambda>_. ?I)" for h1 h2 h3 m
      by (simp, intro succeeds_bnd [OF succeeds_bnd [OF succeeds_catch [OF dirs] succeeds_catch [OF ren]] succeeds_catch [OF sync]])
    show ?thesis
      unfolding publish_staged_entry_def
    proof (rule hoare_gets_bnd)
      fix x
      show "hoare (\<lambda>s. holds True ?F s \<and> x = (lstat_ok (host s) ?st, lstat_ok (host s) ?D))
        (case x of (staged, published) \<Rightarrow>
          bnd (if staged
          then
            bnd (catch (fs_create_directories e (butlast ?D))
                   (\<lambda>ec. fail (''cannot create recovery destination parent: '' @ error_text e ec))) (\<lambda>_.
            catch (sys_rename ?st ?D)
              (\<lambda>ec. fail (''cannot publish recovered entry: '' @ error_text e ec)))
          else if \<not> published then fail ''both the staged entry and published entry are missing''
          else ret ()) (\<lambda>_.
     catch (sync_parent_directory ?D)
       (\<lambda>synced. fail (''cannot sync recovered destination: '' @ error_text e synced))))
        (\<lambda>a. holds True ?I) (\<lambda>_ _. False) (\<lambda>_ _. False)"
        by (rule hoare_const [where c = "fst x"])
          (use F in \<open>auto simp: holds_def split_beta intro!: hoare_pre [OF both, simplified]\<close>)
    qed
  qed
  have placed: "succeeds ?I (publish_staged_entry e ?st ?D) (\<lambda>_. ?I)"
  proof -
    have rest: "succeeds ?I (catch (sync_parent_directory ?D) h3) (\<lambda>_. ?I)" for h3
      by (rule succeeds_catch [OF sync])
    show ?thesis
      unfolding publish_staged_entry_def
      by (rule succeeds_test [where x = "(False, True)"])
        (use in_place_facts(2,3) [OF pub] in \<open>auto simp: holds_def intro!: succeeds_bnd [where R = "\<lambda>_. ?I"] rest succeeds_ret\<close>)
  qed
  show ?thesis
  proof (rule hoareI)
    fix s assume "holds True (\<lambda>h st en. (stage_filled h0 en0 ?st n h \<or> in_place op0 h0 en0 ?st d p n h) \<and> st = st2) s"
    then have "holds True ?F s \<or> holds True ?I s" by (auto simp: holds_def)
    then show "outcome (\<lambda>a. holds True ?I) (\<lambda>_ _. False) (\<lambda>_ _. False) (publish_staged_entry e ?st ?D s)"
      using hoareD [OF filled] hoareD [OF placed] by blast
  qed
qed


lemma succeeds_cases:
  assumes "\<And>h st en. P h st en \<Longrightarrow> P1 h st en \<or> P2 h st en" "succeeds P1 m Q" "succeeds P2 m Q"
  shows "succeeds P m Q"
proof (rule hoareI)
  fix s assume "holds True P s"
  then have "holds True P1 s \<or> holds True P2 s" using assms(1) by (auto simp: holds_def)
  then show "outcome (\<lambda>a. holds True (Q a)) (\<lambda>_ _. False) (\<lambda>_ _. False) (m s)"
    using hoareD [OF assms(2)] hoareD [OF assms(3)] by blast
qed

text \<open>The removal of the source of a rename, done or still to do.\<close>

lemma source_is_removed:
  assumes pub: "publishable op0 h0 st0 en0 d p" and ren: "op_kind op0 = ''rename''"
  shows "succeeds (\<lambda>h st en. in_place op0 h0 en0 (stage_of en0 st0) d p n h \<and> st = st2)
    (remove_upper_entry e (upper_dir en0 @ p) True)
    (\<lambda>_ h st en. source_removed h0 en0 (stage_of en0 st0) d p n h \<and> st = st2)"
proof -
  let ?st = "stage_of en0 st0" and ?S = "upper_dir en0 @ p"
  let ?I = "\<lambda>h st (en::engine). in_place op0 h0 en0 ?st d p n h \<and> st = st2"
  let ?Q = "\<lambda>h st (en::engine). source_removed h0 en0 ?st d p n h \<and> st = st2"
  define here where "here = (\<lambda>h st (en::engine). entry_published h0 en0 ?st d n h \<and> get h ?S \<noteq> None \<and> st = st2)"
  have lay: "layout en0 h0" and p: "clean p" "p \<noteq> []" using pub ren by (auto simp: publishable_def)
  then have S: "clean ?S" "?S \<noteq> []" using layout_clean [OF lay] by auto
  have there: "direct h ?S \<and> is_dir h \<and> lstat_ok h ?S = (get h ?S \<noteq> None)" if "in_place op0 h0 en0 ?st d p n h" for h
    using in_place_facts(4) [OF pub that ren] lstat_ok_direct [OF S(1), of h] by blast
  have parted: "here h st en \<or> ?Q h st en" if "?I h st en" for h st en
  proof (cases "get h ?S")
    case None
    have "source_removed h0 en0 ?st d p n h"
    proof (cases "entry_published h0 en0 ?st d n h")
      case True
      from source_removed_put(2) [OF pub True ren] put_missing [OF S(2) None] show ?thesis by simp
    next
      case False
      with that show ?thesis by (simp add: in_place_def)
    qed
    with that show ?thesis by simp
  next
    case (Some x)
    with that show ?thesis by (auto simp: here_def in_place_def source_removed_def)
  qed
  have gone: "succeeds ?Q (remove_upper_entry e ?S True) (\<lambda>_. ?Q)"
    unfolding remove_upper_entry_def
  proof (rule succeeds_test [where x = False])
    fix s assume "holds True ?Q s"
    then show "lstat_ok (host s) ?S = False"
      using there [of "host s"] ren by (auto simp: holds_def in_place_def source_removed_def)
  qed (auto intro: succeeds_ret)
  define cleared where "cleared = (\<lambda>h st (en::engine). ?Q h st en \<and> dir_at h (butlast ?S))"
  have rm: "succeeds here (fs_remove_all ?S) (\<lambda>_. cleared)"
  proof (rule succeeds_remove_all)
    fix h st en assume a: "here h st en"
    then have e: "entry_published h0 en0 ?st d n h" by (simp add: here_def)
    from there [of h] e S show "clean ?S \<and> ?S \<noteq> [] \<and> direct h ?S \<and> is_dir h" by (auto simp: in_place_def)
    have "dir_at h (butlast ?S)" using a get_parent_dir S(2) by (auto simp: here_def)
    moreover have "strict_prefix (butlast ?S) ?S"
      by (metis append_butlast_last_id S(2) prefixI strict_prefix_def not_prefix_butlast)
    ultimately show "cleared (put h ?S None) st en"
      using a source_removed_put(2) [OF pub e ren] by (simp add: cleared_def here_def dir_at_put_above)
  qed
  have sync: "succeeds cleared (sync_parent_directory ?S) (\<lambda>_. ?Q)"
    by (rule succeeds_conseq [OF succeeds_sync_parent [where P = cleared]])
      (use S in \<open>auto simp: cleared_def simp del: butlast_append\<close>)
  have present: "succeeds here (remove_upper_entry e ?S True) (\<lambda>_. ?Q)"
    unfolding remove_upper_entry_def
  proof (rule succeeds_test [where x = True])
    fix s assume "holds True here s"
    then show "lstat_ok (host s) ?S = True"
      using there [of "host s"] by (auto simp: holds_def in_place_def here_def)
  next
    have "succeeds here (bnd (catch (fs_remove_all ?S) h1) (\<lambda>_. catch (sync_parent_directory ?S) h2)) (\<lambda>_. ?Q)" for h1 h2
      by (intro succeeds_bnd [OF succeeds_catch [OF rm] succeeds_catch [OF sync]])
    then show "succeeds here (if \<not> True then ret ()
        else bnd (catch (if True then fs_remove_all ?S else fs_remove ?S)
              (\<lambda>ec. fail (''cannot remove '' @ path_string ?S @ '': '' @ error_text e ec))) (\<lambda>_.
            catch (sync_parent_directory ?S)
              (\<lambda>synced. fail (''cannot sync '' @ path_string (butlast ?S) @ '': '' @ error_text e synced)))) (\<lambda>_. ?Q)"
      by (simp only: simp_thms if_True if_False)
  qed
  show ?thesis by (rule succeeds_cases [OF parted present gone])
qed

text \<open>Every image of a publishing operation is carried through to the published state.\<close>

lemma publishing_is_carried_through:
  assumes op: "entry_operation op en0 d p" and W: "housed W en0" and fp: "tribios_failpoint e = None"
    and pub: "publishable op h0 st0 en0 d p" and row: "op' = as_published op st0"
    and rep: "replaceable n (get h0 (upper_dir en0 @ d))"
  shows "succeeds (\<lambda>h st en. (stage_filled h0 en0 (stage_of en0 st0) n h \<or> in_place op h0 en0 (stage_of en0 st0) d p n h) \<and> st = st2)
    (recover_operation e root tribios W op')
    (\<lambda>_ h st en. publication_done op h0 en0 (stage_of en0 st0) d p n h \<and> st = finished_store e op' st2)"
proof -
  let ?st = "stage_of en0 st0"
  let ?I = "\<lambda>h st (en::engine). in_place op h0 en0 ?st d p n h \<and> st = st2"
  let ?D = "\<lambda>h st (en::engine). publication_done op h0 en0 ?st d p n h \<and> st = st2"
  have op': "entry_operation op' en0 d p" using op by (auto simp: row as_published_def entry_operation_def)
  have kind: "op_kind op \<noteq> ''unlink''" "op_kind op \<noteq> ''rmdir''" "op_kind op' = op_kind op"
    "op_phase op' = Publishing" "op_path op' = op_path op" "op_target op' = op_target op" "op_id op' = operation_seq st0 + 1"
    using op by (auto simp: entry_operation_def staged_filesystem_operation_def row as_published_def)
  have stage: "recovery_dir en0 @ [show_int (op_id op')] = ?st"
    using kind by (simp add: stage_of_def stage_path_def)
  have dest: "segs (if op_kind op = ''rename'' then op_target op else op_path op) = d"
    using op by (auto simp: entry_operation_def)
  have tail: "succeeds ?I (if op_kind op = ''rename'' then remove_upper_entry e (upper_dir en0 @ segs (op_path op)) True else ret ()) (\<lambda>_. ?D)"
  proof (cases "op_kind op = ''rename''")
    case True
    then have "segs (op_path op) = p" using op by (auto simp: entry_operation_def)
    with source_is_removed [OF pub True, of n st2 e] True show ?thesis by (simp add: publication_done_def)
  next
    case False
    then show ?thesis by (auto intro!: succeeds_ret simp: publication_done_def in_place_def)
  qed
  have apply_op: "succeeds (\<lambda>h st en. (stage_filled h0 en0 ?st n h \<or> in_place op h0 en0 ?st d p n h) \<and> st = st2)
      (apply_operation e (upper_dir en0) ?st op') (\<lambda>_. ?D)"
    unfolding apply_operation_def kind(3,5,6) dest using kind(1,2)
    by (simp only: if_False, intro succeeds_bnd [OF publish_recovered [OF pub rep] tail])
  have finish: "succeeds ?D (finish_recovery_operation e op')
      (\<lambda>_ h st en. publication_done op h0 en0 ?st d p n h \<and> st = finished_store e op' st2)"
    by (rule succeeds_finish) (simp add: finished_store_def)
  show ?thesis
    unfolding recover_entry_eq [OF entry_is_journal_operation [OF op' W] W fp] Let_def stage kind(4)
    by (simp, intro succeeds_bnd [OF succeeds_refusing [OF apply_op]] succeeds_bnd [OF succeeds_refusing [OF finish]] succeeds_ret)
qed


section \<open>The clean-up at the end of recovery\<close>

text \<open>
  The Project's own directories: Workspaces under \<^verbatim>\<open>workspaces\<close>, none of them a symbolic link, and
  \<^verbatim>\<open>staging\<close> beside them. What recovery throws away lies in the litter.
\<close>

definition project_tree :: "path \<Rightarrow> path \<Rightarrow> node \<Rightarrow> bool" where
  "project_tree T W h \<longleftrightarrow>
     W = T @ [''workspaces''] \<and> clean T \<and> dir_at h W \<and>
     (\<forall>x n. get h (W @ [x]) = Some n \<longrightarrow> clean_segment x \<and> \<not> is_link n)"

definition litter :: "path \<Rightarrow> path \<Rightarrow> path set" where
  "litter T W = insert (T @ [''staging'']) (range (\<lambda>x. W @ [x, ''recovery'']))"

lemma project_tree_dirs:
  assumes "project_tree T W h"
  shows "clean W" "dir_at h W" "dir_at h T" "is_dir h" "direct h (W @ [x, y])" "direct h (T @ [y])"
proof -
  show "clean W" "dir_at h W" using assms by (auto simp: project_tree_def clean_segment_def)
  then show T: "dir_at h T" using assms dir_at_append_prefix [of h T "[''workspaces'']"] by (simp add: project_tree_def)
  then have "dir_at h ([] @ T)" by simp
  then have "dir_at h []" by (rule dir_at_append_prefix)
  then show "is_dir h" by (simp add: dir_at_def)
  show "direct h (W @ [x, y])"
  proof (rule direct_under [OF \<open>dir_at h W\<close>])
    fix q assume "strict_prefix q [x, y]"
    then have "q = [] \<or> q = [x]" by (cases q) (auto simp: strict_prefix_def prefix_Cons)
    then show "no_link (get h (W @ q))"
      using assms by (auto simp: no_link_def project_tree_def dir_at_def split: option.splits elim!: is_dirE)
  qed
  show "direct h (T @ [y])"
  proof (rule direct_under [OF T])
    fix q assume "strict_prefix q [y]"
    then have "q = []" by (cases q) (auto simp: strict_prefix_def)
    then show "no_link (get h (T @ q))"
      using T by (auto simp: no_link_def elim!: dir_atE)
  qed
qed

text \<open>No recovery directory is left, in any Workspace.\<close>

definition swept :: "path \<Rightarrow> node \<Rightarrow> bool" where
  "swept W h \<longleftrightarrow> (\<forall>x. get h (W @ [x, ''recovery'']) = None)"

lemma sweep_step:
  assumes "get h (W @ [x, ''recovery'']) = None"
  shows "get (put h (W @ [y, ''recovery'']) None) (W @ [x, ''recovery'']) = None"
  using assms get_put_other [of "W @ [y, ''recovery'']" "W @ [x, ''recovery'']" h None]
    put_missing [of "W @ [y, ''recovery'']" h] by (cases "x = y") auto

lemma gone_after_put: "xs \<noteq> [] \<Longrightarrow> get (put h xs None) xs = None"
  using get_put_same [of xs h None] get_parent_dir [of h xs] put_no_parent [of h xs None]
  by (cases "dir_at h (butlast xs)"; cases "get h xs") auto

lemma reclaim_succeeds:
  assumes tree: "\<And>h st en. P h st en \<Longrightarrow> project_tree T W h"
    and keep: "\<And>h st en x. P h st en \<Longrightarrow> P (put h (W @ [x, ''recovery'']) None) st en"
  shows "succeeds P (reclaim_recovery_dirs e W) (\<lambda>_ h st en. P h st en \<and> swept W h)"
proof -
  let ?body = "\<lambda>name. bnd (gets (fs_is_directory (W @ [name]))) (\<lambda>directory.
       if directory
       then
         let recovery_dir = W @ [name, ''recovery''] in
         catch (fs_remove_all recovery_dir)
           (\<lambda>ec. fail (''cannot reclaim '' @ path_string recovery_dir @ '': '' @ error_text e ec))
       else ret ())"
  define I where "I = (\<lambda>names h st en. P h st en \<and> (\<forall>x. x \<notin> set names \<longrightarrow> get h (W @ [x, ''recovery'']) = None))"
  have step: "succeeds (I (x # names)) (?body x) (\<lambda>_. I names)" if x: "clean_segment x" for x names
  proof -
    let ?R = "W @ [x, ''recovery'']"
    have dirs: "clean ?R \<and> ?R \<noteq> [] \<and> direct h ?R \<and> is_dir h" if "I (x # names) h st en" for h st and en :: engine
    proof -
      have "P h st en" using that by (simp add: I_def)
      from project_tree_dirs [OF tree [OF this]] x show ?thesis by (auto simp: clean_segment_def)
    qed
    have removed: "I names (put h ?R None) st en" if i: "I (x # names) h st en" for h st en
    proof -
      have "get (put h ?R None) (W @ [y, ''recovery'']) = None" if "y \<notin> set names" for y
        using i that sweep_step [of h W y x] gone_after_put [of ?R h] by (cases "y = x") (simp_all add: I_def)
      with i keep [of h st en x] show ?thesis by (simp add: I_def)
    qed
    have rm: "succeeds (I (x # names)) (fs_remove_all ?R) (\<lambda>_. I names)"
      by (rule succeeds_remove_all) (use dirs removed in auto)
    have other: "I names h st en" if i: "I (x # names) h st en" and no: "\<not> fs_is_directory (W @ [x]) s" and h: "host s = h"
      for h st en s
    proof -
      have tr: "project_tree T W h" using i tree by (auto simp: I_def)
      have "\<not> is_dir n" if g: "get h (W @ [x]) = Some n" for n
      proof
        assume n: "is_dir n"
        have "clean (W @ [x])" using project_tree_dirs(1) [OF tr] x by simp
        with n g have "fs_is_directory (W @ [x]) s"
          using k_stat_dir [of "W @ [x]" h] by (auto simp: fs_is_directory_def h dir_at_def)
        with no show False by simp
      qed
      then have "get h ?R = None" using get_append [of h "W @ [x]" "[''recovery'']"]
        by (auto split: option.splits node.splits)
      then have "get h (W @ [y, ''recovery'']) = None" if "y \<notin> set names" for y
        using i that by (cases "y = x") (simp_all add: I_def)
      with i show ?thesis by (simp add: I_def)
    qed
    have "hoare (\<lambda>s. holds True (I (x # names)) s \<and> directory = fs_is_directory (W @ [x]) s)
       (if directory then let recovery_dir = ?R in
         catch (fs_remove_all recovery_dir)
           (\<lambda>ec. fail (''cannot reclaim '' @ path_string recovery_dir @ '': '' @ error_text e ec))
       else ret ()) (\<lambda>_. holds True (I names)) (\<lambda>_ _. False) (\<lambda>_ _. False)" for directory
    proof (cases directory)
      case True
      then show ?thesis by (simp add: Let_def) (rule hoare_pre [OF succeeds_catch [OF rm]], simp)
    next
      case False
      then show ?thesis by (auto intro!: hoare_ret simp: holds_def intro: other)
    qed
    then show ?thesis by (rule hoare_gets_bnd)
  qed
  have loop: "succeeds (I names) (for_each names ?body) (\<lambda>_. I [])" if "clean names" for names
    using that
  proof (induction names)
    case (Cons x xs)
    then show ?case by (simp only: for_each.simps clean_simps, intro succeeds_bnd [OF step]) auto
  qed (simp, rule succeeds_ret)
  have opened: "succeeds P (attempt kernel_call) (\<lambda>x h st en. P h st en \<and> x = Inr ())"
    by (rule hoare_attempt, rule hoare_conseq [OF kernel_call_spec [where C = P]]) (auto simp: holds_def)
  show ?thesis
    unfolding reclaim_recovery_dirs_def
  proof (rule succeeds_bnd [OF opened], rule hoare_gets_bnd)
    fix x names
    let ?P = "\<lambda>s. holds True (\<lambda>h st en. P h st en \<and> x = Inr ()) s \<and>
          names = (case (x, k_opendir (host s) W) of (Inr _, Inr cs) \<Rightarrow> map fst cs | _ \<Rightarrow> [])"
    have listed: "clean names \<and> holds True (I names) s" if s: "?P s" for s
    proof -
      have tr: "project_tree T W (host s)" using s tree by (auto simp: holds_def)
      obtain m cs where g: "get (host s) W = Some (Dir m cs)"
        using project_tree_dirs(2) [OF tr] by (rule dir_atE)
      have names: "names = map fst cs" using s k_opendir_dir [OF project_tree_dirs(1) [OF tr] g] by (auto simp: holds_def)
      have "clean_segment y" if "y \<in> fst ` set cs" for y
      proof -
        from that obtain c where "map_of cs y = Some c" by (metis map_of_eq_None_iff not_Some_eq)
        then have "get (host s) (W @ [y]) = Some c" using g by (simp add: get_append)
        then show ?thesis using tr by (simp add: project_tree_def)
      qed
      moreover have "get (host s) (W @ [y, ''recovery'']) = None" if "y \<notin> set names" for y
        using that g names by (simp add: get_append map_of_eq_None_iff [THEN iffD2])
      ultimately have "clean names" "\<forall>y. y \<notin> set names \<longrightarrow> get (host s) (W @ [y, ''recovery'']) = None"
        unfolding names by (auto simp: clean_def list_all_iff)
      with s show ?thesis by (simp add: holds_def I_def)
    qed
    show "hoare ?P (for_each names ?body) (\<lambda>a. holds True (\<lambda>h st en. P h st en \<and> swept W h)) (\<lambda>_ _. False) (\<lambda>_ _. False)"
    proof (rule hoare_const [where c = "clean names"])
      assume "clean names"
      from loop [OF this] show "hoare ?P (for_each names ?body)
          (\<lambda>a. holds True (\<lambda>h st en. P h st en \<and> swept W h)) (\<lambda>_ _. False) (\<lambda>_ _. False)"
        by (rule hoare_conseq) (use listed in \<open>auto simp: holds_def I_def swept_def\<close>)
    qed (use listed in blast)
  qed
qed

lemma recreate_succeeds:
  assumes tree: "\<And>h st en. P h st en \<Longrightarrow> project_tree T W h"
    and keep: "\<And>h st en v. P h st en \<Longrightarrow> P (put h (T @ [''staging'']) v) st en"
  shows "succeeds P (recreate_staging_dir e T) (\<lambda>_ h st en. P h st en \<and> dir_at h (T @ [''staging'']))"
proof -
  let ?S = "T @ [''staging'']"
  let ?G = "\<lambda>h st en. P h st en \<and> get h ?S = None"
  let ?Q = "\<lambda>h st en. P h st en \<and> dir_at h ?S"
  have facts: "clean ?S \<and> direct h ?S \<and> is_dir h \<and> dir_at h T" if "P h st en" for h st en
    using project_tree_dirs [OF tree [OF that]] tree [OF that] by (auto simp: project_tree_def clean_segment_def)
  have rm: "succeeds P (fs_remove_all ?S) (\<lambda>_. ?G)"
    by (rule succeeds_remove_all) (use facts keep get_put_same [of ?S] in auto)
  have mk: "succeeds ?G (fs_create_directories e ?S) (\<lambda>_. ?Q)"
  proof (rule succeeds_intro [OF fs_create_directories_spec])
    fix h st en m assume "?G h st en"
    then show "?Q (put h ?S (Some (Dir m []))) st en"
      using keep facts [of h st en] get_put_same [of ?S h] by (auto simp: dir_at_def)
  qed (use facts in auto)
  have sync: "succeeds ?Q (sync_parent_directory ?S) (\<lambda>_. ?Q)"
    by (rule succeeds_sync_parent) (use facts in auto)
  show ?thesis
    unfolding recreate_staging_dir_def Let_def
    by (intro succeeds_bnd [OF succeeds_catch [OF rm] succeeds_catch [OF succeeds_bnd [OF mk sync]]])
qed


section \<open>Recovery of an interrupted publication\<close>

text \<open>
  What recovery leaves: nothing but the litter has changed, and the journal is what it was before the
  operation; or also the entry (and the source of a rename) has changed, with its tombstones.
\<close>

definition settled_old :: "path \<Rightarrow> path \<Rightarrow> node \<Rightarrow> store \<Rightarrow> node \<Rightarrow> store \<Rightarrow> bool" where
  "settled_old T W h0 st0 h st \<longleftrightarrow>
     outside (litter T W) h0 h \<and> st = st0\<lparr>operation_seq := operation_seq st0 + 1\<rparr>"

definition changed_paths :: "recovery_operation \<Rightarrow> engine \<Rightarrow> path \<Rightarrow> path \<Rightarrow> path set" where
  "changed_paths op en d p =
     (if op_kind op = ''rename'' then {upper_dir en @ d, upper_dir en @ p} else {upper_dir en @ d})"

definition settled_new ::
  "env \<Rightarrow> recovery_operation \<Rightarrow> path \<Rightarrow> path \<Rightarrow> node \<Rightarrow> store \<Rightarrow> engine \<Rightarrow> path \<Rightarrow> path \<Rightarrow> node \<Rightarrow> node \<Rightarrow> store \<Rightarrow> bool"
where
  "settled_new e op T W h0 st0 en0 d p n h st \<longleftrightarrow>
     outside (litter T W \<union> changed_paths op en0 d p) h0 h \<and> get h (upper_dir en0 @ d) = Some n \<and>
     (op_kind op = ''rename'' \<longrightarrow> get h (upper_dir en0 @ p) = None) \<and>
     st = st0\<lparr>operation_seq := operation_seq st0 + 1, tombstone_rows := finished_rows e op st0\<rparr>"

lemma upper_litter_apart:
  assumes "housed W en" "project_tree T W h0" "r \<in> litter T W"
  shows "\<not> prefix r (upper_dir en @ q)" "\<not> prefix (upper_dir en @ q) r"
  using assms by (auto simp: housed_def project_tree_def litter_def)

lemma project_tree_outside:
  assumes tree: "project_tree T W h0" and W: "housed W en" and out: "outside (litter T W \<union> changed_paths op en d p) h0 h"
  shows "project_tree T W h"
proof -
  have apart: "\<not> prefix r (W @ xs)" if "r \<in> litter T W \<union> changed_paths op en d p" "xs = [] \<or> xs = [x]" for r x xs
    using that W tree by (auto simp: litter_def changed_paths_def housed_def project_tree_def split: if_splits dest: prefix_length_le)
  have "dir_at h W" using outside_dir [OF out, of W] apart [of _ "[]"] tree by (auto simp: project_tree_def)
  moreover have "clean_segment x \<and> \<not> is_link n" if g: "get h (W @ [x]) = Some n" for x n
  proof -
    have s: "same_entry (get h0 (W @ [x])) (get h (W @ [x]))"
      using apart [of _ "[x]" x] by (intro outside_same [OF out]) auto
    obtain n0 where n0: "get h0 (W @ [x]) = Some n0" using g same_entry_none [OF s] by auto
    with tree have "clean_segment x" "\<not> is_link n0" by (auto simp: project_tree_def)
    with same_entry_link [OF s] n0 g show ?thesis by simp
  qed
  ultimately show ?thesis using tree by (simp add: project_tree_def)
qed

lemma settled_keep:
  assumes W: "housed W en0" and tree: "project_tree T W h0" and r: "r \<in> litter T W"
  shows "settled_old T W h0 st0 h st \<Longrightarrow> settled_old T W h0 st0 (put h r v) st"
    and "settled_new e op T W h0 st0 en0 d p n h st \<Longrightarrow> settled_new e op T W h0 st0 en0 d p n (put h r v) st"
proof -
  show "settled_old T W h0 st0 h st \<Longrightarrow> settled_old T W h0 st0 (put h r v) st"
    using r by (auto simp: settled_old_def intro: outside_put)
  have "get (put h r v) (upper_dir en0 @ q) = get h (upper_dir en0 @ q)" for q
    using get_put_other upper_litter_apart [OF W tree r] by blast
  then show "settled_new e op T W h0 st0 en0 d p n h st \<Longrightarrow> settled_new e op T W h0 st0 en0 d p n (put h r v) st"
    using r by (auto simp: settled_new_def intro: outside_put)
qed

lemma swept_staging: "swept (T @ [''workspaces'']) h \<Longrightarrow> swept (T @ [''workspaces'']) (put h (T @ [''staging'']) v)"
  unfolding swept_def by (simp add: get_put_other)

lemma clean_up_succeeds:
  assumes tree: "\<And>h st en. P h st en \<Longrightarrow> project_tree T W h"
    and keep: "\<And>h st en r v. P h st en \<Longrightarrow> r \<in> litter T W \<Longrightarrow> P (put h r v) st en"
    and ops: "succeeds C (bnd (load_recovery_operations e) (\<lambda>loaded. for_each loaded (recover_operation e root T W))) (\<lambda>_. P)"
  shows "succeeds C (recover_interrupted_operations e root T W) (\<lambda>_ h st en. P h st en \<and> swept W h)"
proof -
  have assoc: "bnd (bnd m k) l = bnd m (\<lambda>x. bnd (k x) l)" for m :: "recovery_operation list control" and k and l :: "unit \<Rightarrow> unit control"
    by (auto simp: fun_eq_iff prog_defs split: prod.splits res.splits)
  let ?Q = "\<lambda>h st en. P h st en \<and> swept W h"
  have W: "W = T @ [''workspaces'']" if "P h st en" for h st en using tree [OF that] by (simp add: project_tree_def)
  have "succeeds ?Q (recreate_staging_dir e T) (\<lambda>_. ?Q)"
  proof (rule succeeds_conseq [OF recreate_succeeds [where P = ?Q and T = T and W = W]])
    fix h st en v assume q: "?Q h st en"
    then show "?Q (put h (T @ [''staging'']) v) st en"
      using keep [of h st en "T @ [''staging'']" v] swept_staging [of T h v] W [of h st en] by (simp add: litter_def)
  qed (use tree in auto)
  then have "succeeds P (bnd (reclaim_recovery_dirs e W) (\<lambda>_. recreate_staging_dir e T)) (\<lambda>_. ?Q)"
    by (intro succeeds_bnd [OF reclaim_succeeds [where P = P, OF tree]]) (auto intro: keep simp: litter_def)
  then show ?thesis
    unfolding recover_interrupted_operations_def assoc [symmetric]
    by (intro succeeds_bnd [OF ops])
qed

lemma one_operation:
  assumes ok: "journal_ok st1" and pend: "pending st1 = [op]"
    and rec: "succeeds (\<lambda>h st en. A h \<and> st = st1) (recover_operation e root T W op) (\<lambda>_. P)"
  shows "succeeds (\<lambda>h st en. A h \<and> st = st1)
    (bnd (load_recovery_operations e) (\<lambda>loaded. for_each loaded (recover_operation e root T W))) (\<lambda>_. P)"
proof -
  let ?A = "\<lambda>h st (en::engine). A h \<and> st = st1"
  have load: "succeeds ?A (load_recovery_operations e) (\<lambda>ops h st en. ?A h st en \<and> ops = [op])"
    by (rule succeeds_conseq [OF succeeds_intro [OF load_operations_spec [where C = ?A]]]) (use ok pend in auto)
  have "succeeds (\<lambda>h st en. ?A h st en \<and> ops = [op]) (for_each ops (recover_operation e root T W)) (\<lambda>_. P)" for ops
  proof (rule hoare_const [where c = "ops = [op]"])
    assume ops: "ops = [op]"
    have "succeeds ?A (for_each [op] (recover_operation e root T W)) (\<lambda>_. P)"
      by (simp, intro succeeds_bnd [OF rec] succeeds_ret)
    then show "succeeds (\<lambda>h st en. ?A h st en \<and> ops = [op]) (for_each ops (recover_operation e root T W)) (\<lambda>_. P)"
      unfolding ops by (rule hoare_pre) (auto simp: holds_def)
  qed (auto simp: holds_def)
  with load show ?thesis by (rule succeeds_bnd)
qed


lemma untouched_settled:
  assumes W: "housed W en0" and u: "untouched h0 en0 h"
  shows "outside (litter T W) h0 h"
  using u outside_mono [of "{recovery_dir en0}" h0 h "litter T W"] housed_dirs(2) [OF W]
  by (auto simp: untouched_def litter_def)

lemma done_settled:
  assumes W: "housed W en0" and d: "publication_done op h0 en0 stage d p n h"
  shows "outside (litter T W \<union> changed_paths op en0 d p) h0 h" "get h (upper_dir en0 @ d) = Some n"
    "op_kind op = ''rename'' \<longrightarrow> get h (upper_dir en0 @ p) = None"
proof -
  have "recovery_dir en0 \<in> litter T W" using housed_dirs(2) [OF W] by (simp add: litter_def)
  then show "outside (litter T W \<union> changed_paths op en0 d p) h0 h"
    using d by (auto simp: publication_done_def source_removed_def entry_published_def changed_paths_def
        split: if_splits elim!: outside_mono)
  show "get h (upper_dir en0 @ d) = Some n" "op_kind op = ''rename'' \<longrightarrow> get h (upper_dir en0 @ p) = None"
    using d by (auto simp: publication_done_def source_removed_def entry_published_def split: if_splits)
qed

lemma journal_stores:
  assumes "journal_ok st0"
  shows "sql_abandon_recovery_operation (operation_seq st0 + 1) (journaled op st0) = st0\<lparr>operation_seq := operation_seq st0 + 1\<rparr>"
    and "finished_store e (as_published op st0) (journaled_publishing op st0) =
      st0\<lparr>operation_seq := operation_seq st0 + 1, tombstone_rows := finished_rows e op st0\<rparr>"
proof -
  have "operation_rows (sql_abandon_recovery_operation (operation_seq st0 + 1) (journaled op st0)) = operation_rows st0"
    by (rule abandon_last [OF assms]) (simp add: journaled_def sql_begin_recovery_operation_def)
  then show "sql_abandon_recovery_operation (operation_seq st0 + 1) (journaled op st0) = st0\<lparr>operation_seq := operation_seq st0 + 1\<rparr>"
    by (simp add: journaled_def sql_begin_recovery_operation_def sql_abandon_recovery_operation_def)
  show "finished_store e (as_published op st0) (journaled_publishing op st0) =
      st0\<lparr>operation_seq := operation_seq st0 + 1, tombstone_rows := finished_rows e op st0\<rparr>"
    using finished_store_facts [OF assms, of e op]
    by (intro store.equality)
      (simp_all add: finished_store_def sql_finish_def sql_abandon_recovery_operation_def sql_add_tombstone_def
        sql_remove_tombstones_under_def journaled_publishing_def journaled_def
        sql_set_recovery_operation_phase_def sql_begin_recovery_operation_def)
qed

lemma finished_idle:
  assumes "journal_ok st0" "pending st0 = []"
  shows "journal_ok (finished_store e (as_published op st0) (journaled_publishing op st0))"
    and "pending (finished_store e (as_published op st0) (journaled_publishing op st0)) = []"
proof -
  show "journal_ok (finished_store e (as_published op st0) (journaled_publishing op st0))"
    using assms(1) finished_store_facts(1) [OF assms(1), of e op] journal_stores(2) [OF assms(1), of e op]
    by (fastforce simp: journal_ok_def)
  show "pending (finished_store e (as_published op st0) (journaled_publishing op st0)) = []"
    using pending_rows_eq [OF finished_store_facts(1) [OF assms(1), of e op]] assms(2) by simp
qed

lemma no_operation:
  assumes idle: "journal_ok st1" "pending st1 = []" and P: "\<And>h en. A h \<Longrightarrow> P h st1 en"
  shows "succeeds (\<lambda>h st en. A h \<and> st = st1)
    (bnd (load_recovery_operations e) (\<lambda>loaded. for_each loaded (recover_operation e root T W))) (\<lambda>_. P)"
proof -
  let ?A = "\<lambda>h st (en::engine). A h \<and> st = st1"
  have load: "succeeds ?A (load_recovery_operations e) (\<lambda>ops h st en. ?A h st en \<and> ops = [])"
    by (rule succeeds_conseq [OF succeeds_intro [OF load_operations_spec [where C = ?A]]]) (use idle in auto)
  have "succeeds (\<lambda>h st en. ?A h st en \<and> ops = []) (for_each ops (recover_operation e root T W)) (\<lambda>_. P)" for ops
    by (rule hoare_const [where c = "ops = []"]) (auto simp: holds_def P intro!: hoare_ret)
  with load show ?thesis by (rule succeeds_bnd)
qed

text \<open>The main fact: recovery settles every image of a crash.\<close>

theorem recovery_settles:
  assumes pub: "publishable op h0 st0 en0 d p" and op: "entry_operation op en0 d p" and W: "housed W en0"
    and tree: "project_tree T W h0" and ok: "journal_ok st0" "pending st0 = []" and prep: "op_phase op = Prepared"
    and rep: "\<And>n. staged n \<Longrightarrow> replaceable n (get h0 (upper_dir en0 @ d))"
    and fp: "tribios_failpoint e' = None" and like: "sql_like e' = sql_like e"
    and image: "crash_image e op h0 st0 en0 d p staged (host s) (store s)" and free: "faults s = []"
  shows "\<exists>s'. recover_interrupted_operations e' root T W s = (Ok (), s') \<and> faults s' = [] \<and> swept W (host s') \<and>
    (settled_old T W h0 st0 (host s') (store s') \<or>
     (\<exists>n. staged n \<and> settled_new e op T W h0 st0 en0 d p n (host s') (store s')))"
proof -
  let ?st = "stage_of en0 st0"
  let ?op1 = "op\<lparr>op_id := operation_seq st0 + 1\<rparr>" and ?op2 = "as_published op st0"
  let ?Old = "\<lambda>h st (en::engine). settled_old T W h0 st0 h st"
  let ?New = "\<lambda>n h st (en::engine). settled_new e op T W h0 st0 en0 d p n h st"
  have lay: "layout en0 h0" using pub by (simp add: publishable_def)
  have fr: "finished_rows e' op st0 = finished_rows e op st0" by (simp add: finished_rows_def like)
  have old_clean: "succeeds C (recover_interrupted_operations e' root T W) (\<lambda>_ h st en. ?Old h st en \<and> swept W h)"
    if "succeeds C (bnd (load_recovery_operations e') (\<lambda>loaded. for_each loaded (recover_operation e' root T W))) (\<lambda>_. ?Old)" for C
  proof (rule clean_up_succeeds [OF _ _ that])
    fix h st en assume "settled_old T W h0 st0 h st"
    then show "project_tree T W h"
      by (auto simp: settled_old_def intro!: project_tree_outside [OF tree W] elim: outside_mono)
  qed (rule settled_keep(1) [OF W tree])
  have new_clean: "succeeds C (recover_interrupted_operations e' root T W) (\<lambda>_ h st en. ?New n h st en \<and> swept W h)"
    if "succeeds C (bnd (load_recovery_operations e') (\<lambda>loaded. for_each loaded (recover_operation e' root T W))) (\<lambda>_. ?New n)" for C n
  proof (rule clean_up_succeeds [OF _ _ that])
    fix h st en assume "settled_new e op T W h0 st0 en0 d p n h st"
    then show "project_tree T W h"
      by (auto simp: settled_new_def intro!: project_tree_outside [OF tree W])
  qed (rule settled_keep(2) [OF W tree])
  have back_ok: "succeeds (\<lambda>h st en. untouched h0 en0 h \<and> st = journaled op st0) (recover_interrupted_operations e' root T W) (\<lambda>_ h st en. ?Old h st en \<and> swept W h)"
  proof (rule old_clean, rule one_operation [OF journal_ok_journaled(1) [OF ok(1)]])
    show "pending (journaled op st0) = [?op1]" using pending_journaled(1) [OF ok(1)] ok(2) by simp
    have "entry_operation ?op1 en0 d p" using op by (auto simp: entry_operation_def)
    then have "journal_operation ?op1 en0" using W by (rule entry_is_journal_operation)
    from prepared_is_rolled_back [OF this W fp lay, of "journaled op st0" root T]
    show "succeeds (\<lambda>h st en. untouched h0 en0 h \<and> st = journaled op st0) (recover_operation e' root T W ?op1) (\<lambda>_. ?Old)"
      using prep by (auto intro: succeeds_conseq simp: settled_old_def untouched_settled [OF W] journal_stores(1) [OF ok(1)])
  qed
  have through_ok: "succeeds (\<lambda>h st en. (stage_filled h0 en0 ?st n h \<or> in_place op h0 en0 ?st d p n h) \<and> st = journaled_publishing op st0)
      (recover_interrupted_operations e' root T W) (\<lambda>_ h st en. ?New n h st en \<and> swept W h)" if "staged n" for n
  proof (rule new_clean, rule one_operation [OF journal_ok_journaled(2) [OF ok(1)]])
    show "pending (journaled_publishing op st0) = [?op2]" using pending_journaled(2) [OF ok(1)] ok(2) by simp
    from publishing_is_carried_through [OF op W fp pub refl rep [OF that], of "journaled_publishing op st0" root T]
    show "succeeds (\<lambda>h st en. (stage_filled h0 en0 ?st n h \<or> in_place op h0 en0 ?st d p n h) \<and> st = journaled_publishing op st0)
        (recover_operation e' root T W ?op2) (\<lambda>_. ?New n)"
      by (rule succeeds_conseq)
        (auto simp: settled_new_def done_settled [OF W] journal_stores(2) [OF ok(1)] fr)
  qed
  have idle_ok: "succeeds (\<lambda>h st en. publication_done op h0 en0 ?st d p n h \<and> st = finished_store e ?op2 (journaled_publishing op st0))
      (recover_interrupted_operations e' root T W) (\<lambda>_ h st en. ?New n h st en \<and> swept W h)" for n
    by (rule new_clean, rule no_operation [OF finished_idle [OF ok]])
      (auto simp: settled_new_def done_settled [OF W] journal_stores(2) [OF ok(1)])
  from image consider
      (undone) "untouched h0 en0 (host s)" "store s = journaled op st0"
    | (through) n where "staged n" "stage_filled h0 en0 ?st n (host s) \<or> in_place op h0 en0 ?st d p n (host s)"
        "store s = journaled_publishing op st0"
    | (idle) n where "staged n" "publication_done op h0 en0 ?st d p n (host s)"
        "store s = finished_store e ?op2 (journaled_publishing op st0)"
    by (auto simp: crash_image_def published_image_def in_place_def)
  then show ?thesis
  proof cases
    case undone
    with hoare_total [OF back_ok, where s = s] free
    show ?thesis by (auto simp: holds_def)
  next
    case (through n)
    with hoare_total [OF through_ok [OF through(1)], where s = s] free show ?thesis by (auto simp: holds_def)
  next
    case (idle n)
    with hoare_total [OF idle_ok [where n = n], where s = s] free
    show ?thesis by (auto simp: holds_def)
  qed
qed

end
