(* ===== verification/Copy_Up.thy ===== *)
theory Copy_Up
  imports Staging
begin

text \<open>
  Copy-up: before an entry is published, the directories above it that only the Base tree has are
  created in the upper tree. The view keeps every entry; a directory created this way loses the bits
  of the umask.
\<close>

section \<open>What copy-up leaves\<close>

definition copied :: "env \<Rightarrow> engine \<Rightarrow> node \<Rightarrow> path \<Rightarrow> node \<Rightarrow> bool" where
  "copied e en h0 q h \<longleftrightarrow>
     q \<noteq> [] \<and> get h0 (upper_dir en @ q) = None \<and> \<not> hid (tombstones en) q \<and>
     (\<exists>m cs m' cs'. get h0 (base_dir en @ q) = Some (Dir m cs) \<and> get h (upper_dir en @ q) = Some (Dir m' cs') \<and>
        perm m' = and (perm m) (not (umask e)))"

definition copied_up :: "env \<Rightarrow> engine \<Rightarrow> node \<Rightarrow> path \<Rightarrow> node \<Rightarrow> bool" where
  "copied_up e en h0 p h \<longleftrightarrow>
     outside {upper_dir en} h0 h \<and> dir_at h (upper_dir en) \<and>
     (\<forall>q. same_entry (get h0 (upper_dir en @ q)) (get h (upper_dir en @ q)) \<or>
          strict_prefix q p \<and> copied e en h0 q h)"

lemma copied_up_refl: "dir_at h (upper_dir en) \<Longrightarrow> copied_up e en h p h"
  by (simp add: copied_up_def)

lemma copied_same:
  assumes "copied e en h0 q h" "same_entry (get h (upper_dir en @ q)) (get h' (upper_dir en @ q))"
  shows "copied e en h0 q h'"
  using assms unfolding copied_def by (auto elim!: same_entry_cases)

lemma copied_up_mkdir:
  assumes c: "copied_up e en h0 p h" and d: "strict_prefix d p" "d \<noteq> []"
    and up: "get h (upper_dir en @ d) = None" and vis: "\<not> hid (tombstones en) d"
    and base: "get h (base_dir en @ d) = Some (Dir m cs)" and apart: "\<not> prefix (upper_dir en) (base_dir en @ d)"
    and par: "dir_at h (butlast (upper_dir en @ d))" and m': "perm m' = and (perm m) (not (umask e))"
  shows "copied_up e en h0 p (put h (upper_dir en @ d) (Some (Dir m' [])))"
proof -
  let ?D = "upper_dir en @ d" and ?h = "put h (upper_dir en @ d) (Some (Dir m' []))"
  have ne: "?D \<noteq> []" using d by simp
  have up0: "get h0 ?D = None"
    using c up same_entry_none by (fastforce simp: copied_up_def copied_def)
  have base0: "\<exists>cs. get h0 (base_dir en @ d) = Some (Dir m cs)"
    using outside_same [of "{upper_dir en}" h0 h "base_dir en @ d"] c apart base
    by (auto simp: copied_up_def elim!: same_entry_cases)
  have "same_entry (get h0 (upper_dir en @ q)) (get ?h (upper_dir en @ q)) \<or>
        strict_prefix q p \<and> copied e en h0 q ?h" for q
  proof (cases "prefix d q")
    case True
    then obtain r where q: "q = d @ r" by (auto simp: prefix_def)
    show ?thesis
    proof (cases r)
      case Nil
      then have "copied e en h0 q ?h"
        using q up0 base0 d vis m' get_put_same [OF ne par] by (auto simp: copied_def)
      with Nil q d show ?thesis by simp
    next
      case (Cons x xs)
      have "get h0 (upper_dir en @ q) = None" using up0 q get_append [of h0 ?D r] by (simp del: get_append)
      moreover have "get ?h (upper_dir en @ q) = None"
        using get_put_below [OF ne par, of "Some (Dir m' [])" r] q Cons by simp
      ultimately show ?thesis by simp
    qed
  next
    case False
    then have s: "same_entry (get h (upper_dir en @ q)) (get ?h (upper_dir en @ q))"
      by (intro same_entry_put) simp
    from c have "same_entry (get h0 (upper_dir en @ q)) (get h (upper_dir en @ q)) \<or>
        strict_prefix q p \<and> copied e en h0 q h" by (simp add: copied_up_def)
    then show ?thesis using s same_entry_trans copied_same by blast
  qed
  moreover have "outside {upper_dir en} h0 ?h"
    using c by (intro outside_put [where r = "upper_dir en"]) (auto simp: copied_up_def)
  moreover have "strict_prefix (upper_dir en) ?D" using d by (simp add: strict_prefix_def)
  then have "dir_at ?h (upper_dir en)" using c dir_at_put_above by (auto simp: copied_up_def)
  ultimately show ?thesis by (simp add: copied_up_def)
qed

section \<open>The view after copy-up\<close>

text \<open>A directory without the bits of the umask.\<close>

definition faded :: "env \<Rightarrow> entry option \<Rightarrow> entry option" where
  "faded e v = (case v of Some (VDir m) \<Rightarrow> Some (VDir (and m (not (umask e)))) | _ \<Rightarrow> v)"

definition same_view :: "env \<Rightarrow> path \<Rightarrow> (path \<Rightarrow> entry option) \<Rightarrow> (path \<Rightarrow> entry option) \<Rightarrow> bool" where
  "same_view e p v w \<longleftrightarrow> (\<forall>q. w q = v q \<or> strict_prefix q p \<and> w q = faded e (v q))"

lemma copied_up_base:
  assumes lay: "layout en h0" and c: "copied_up e en h0 p h"
  shows "same_entry (get h0 (base_dir en @ q)) (get h (base_dir en @ q))"
  using c layout_apart(4) [OF lay] by (auto simp: copied_up_def intro: outside_same)

lemma copied_up_vis:
  assumes lay: "layout en h0" and c: "copied_up e en h0 p h"
  shows "same_view e p (vis en h0) (vis en h)"
  unfolding same_view_def
proof
  fix q
  have b: "map_option abstr (get h0 (base_dir en @ q)) = map_option abstr (get h (base_dir en @ q))"
    using copied_up_base [OF lay c] by (rule same_entry_abstr)
  from c consider "same_entry (get h0 (upper_dir en @ q)) (get h (upper_dir en @ q))"
    | "strict_prefix q p" "copied e en h0 q h" by (auto simp: copied_up_def)
  then show "vis en h q = vis en h0 q \<or> strict_prefix q p \<and> vis en h q = faded e (vis en h0 q)"
  proof cases
    case 1
    from same_entry_abstr [OF 1] b show ?thesis by (auto simp: vis_def split: option.splits)
  next
    case 2
    then show ?thesis by (auto simp: vis_def copied_def faded_def)
  qed
qed

lemma copied_up_layout:
  assumes lay: "layout en h0" and c: "copied_up e en h0 p h"
  shows "layout en h"
proof -
  have o: "outside {upper_dir en} h0 h" using c by (simp add: copied_up_def)
  have "dir_at h (base_dir en)"
    using outside_dir [OF o, of "base_dir en"] layout_apart(4) [OF lay, of "[]"] layout_dirs [OF lay] by simp
  moreover have "\<not> prefix (upper_dir en) (recovery_dir en)" using layout_apart(2) [OF lay, of "[]"] by simp
  then have "dir_at h (recovery_dir en) = dir_at h0 (recovery_dir en)"
      "same_entry (get h0 (recovery_dir en)) (get h (recovery_dir en))"
    using outside_dir [OF o] outside_same [OF o] by auto
  then have "get h (recovery_dir en) = None \<or> dir_at h (recovery_dir en)"
    using lay same_entry_none by (auto simp: layout_def)
  ultimately show ?thesis using lay c by (auto simp: layout_def copied_up_def)
qed

lemma copied_up_plain:
  assumes lay: "layout en h0" and c: "copied_up e en h0 p h" and pl: "plain en h0 q"
  shows "plain en h q"
proof -
  have "no_link (get h (upper_dir en @ r)) \<longleftrightarrow> no_link (get h0 (upper_dir en @ r))" if "no_link (get h0 (upper_dir en @ r))" for r
    using c same_entry_link that by (fastforce simp: copied_up_def copied_def no_link_def)
  moreover have "no_link (get h (base_dir en @ r)) \<longleftrightarrow> no_link (get h0 (base_dir en @ r))" for r
    using same_entry_link [OF copied_up_base [OF lay c]] by (simp add: no_link_def)
  ultimately show ?thesis using pl by (auto simp: plain_def)
qed

lemma copied_up_layer:
  assumes lay: "layout en h0" and c: "copied_up e en h0 d h" and leaf: "\<And>n. layer_node (layer_at en h0 p) = Some n \<Longrightarrow> \<not> is_dir n"
  shows "layer_at en h p = layer_at en h0 p"
proof -
  have "\<not> copied e en h0 p h" using leaf by (auto simp: copied_def layer_at_def)
  then have u: "same_entry (get h0 (upper_dir en @ p)) (get h (upper_dir en @ p))" using c by (auto simp: copied_up_def)
  have b: "same_entry (get h0 (base_dir en @ p)) (get h (base_dir en @ p))" by (rule copied_up_base [OF lay c])
  from u show ?thesis
  proof (rule same_entry_cases)
    assume n: "get h0 (upper_dir en @ p) = None" "get h (upper_dir en @ p) = None"
    show ?thesis
    proof (cases "hid (tombstones en) p")
      case False
      from b show ?thesis
        by (rule same_entry_cases) (use n False leaf in \<open>auto simp: layer_at_def\<close>)
    qed (use n in \<open>simp add: layer_at_def\<close>)
  qed (use leaf in \<open>auto simp: layer_at_def\<close>)
qed


section \<open>The program\<close>

lemma sys_mkdir_spec:
  assumes pre: "\<And>h st en. C h st en \<Longrightarrow> clean q \<and> q \<noteq> [] \<and> dir_at h (butlast q) \<and> get h q = None"
    and made: "\<And>h st en m. C h st en \<Longrightarrow> perm m = and mode (not (umask e)) \<Longrightarrow> D (put h q (Some (Dir m []))) st en"
  shows "hoare (holds F C) (sys_mkdir e q mode) (\<lambda>_. holds F D)
    (\<lambda>x s. x \<noteq> EEXIST \<and> holds F (\<lambda>h st en. C h st en \<and> \<not> F) s) H"
proof -
  let ?E = "\<lambda>x s. x \<noteq> EEXIST \<and> holds F (\<lambda>h st en. C h st en \<and> \<not> F) s"
  have call: "hoare (holds F C) kernel_call (\<lambda>_. holds F C) ?E H"
  proof (rule hoareI)
    fix s assume "holds F C s"
    then have "outcome (\<lambda>_. holds F C) (\<lambda>_. holds F (\<lambda>h st en. C h st en \<and> \<not> F)) H (kernel_call s)"
      by (rule hoareD [OF kernel_call_spec])
    then show "outcome (\<lambda>_. holds F C) ?E H (kernel_call s)"
      by (rule outcome_cases) (auto dest: kernel_call_not_EEXIST)
  qed
  have make: "hoare (holds F (\<lambda>h st en. C h st en \<and> perm m = and mode (not (umask e)))) (on_host (\<lambda>r. k_create r q (Dir m [])))
      (\<lambda>_. holds F D) ?E H" for m
    by (rule hoare_conseq [OF on_host_spec [where C = "\<lambda>h st en. C h st en \<and> perm m = and mode (not (umask e))" and D = D]])
      (use pre made in \<open>auto simp: holds_def k_create_ok\<close>)
  show ?thesis
    unfolding sys_mkdir_def new_entry_def by (rule hoare_bnd [OF call hoare_bnd [OF fresh_meta_spec make]])
qed

definition plain_path :: "engine \<Rightarrow> node \<Rightarrow> path \<Rightarrow> bool" where
  "plain_path en h p \<longleftrightarrow> (\<forall>d. prefix d p \<longrightarrow> plain en h d)"

definition shows_dir :: "engine \<Rightarrow> node \<Rightarrow> path \<Rightarrow> bool" where
  "shows_dir en h p \<longleftrightarrow> (\<exists>m. vis en h p = Some (VDir m))"

lemma copied_up_not_dir:
  assumes "copied_up e en h0 p h" "get h (upper_dir en @ d) = Some n" "\<not> is_dir n"
  shows "\<not> shows_dir en h0 d"
proof -
  have "same_entry (get h0 (upper_dir en @ d)) (get h (upper_dir en @ d))"
    using assms unfolding copied_up_def copied_def by (metis is_dir_simps(3) option.inject)
  with assms(2,3) have "get h0 (upper_dir en @ d) = Some n" by (auto elim!: same_entry_cases)
  with assms(3) show ?thesis by (cases n) (auto simp: shows_dir_def vis_def)
qed

lemma copied_up_no_base:
  assumes lay: "layout en h0" and c: "copied_up e en h0 p h" and up: "get h (upper_dir en @ d) = None"
    and base: "hid (tombstones en) d \<or> (\<forall>m cs. get h (base_dir en @ d) \<noteq> Some (Dir m cs))"
  shows "\<not> shows_dir en h0 d"
proof -
  have u: "get h0 (upper_dir en @ d) = None"
    using c up same_entry_none by (fastforce simp: copied_up_def copied_def)
  from copied_up_base [OF lay c, of d] base u show ?thesis
    by (elim same_entry_cases) (auto simp: shows_dir_def vis_def abstr_def split: node.splits)
qed

definition copying :: "env \<Rightarrow> engine \<Rightarrow> node \<Rightarrow> store \<Rightarrow> path \<Rightarrow> node \<Rightarrow> store \<Rightarrow> engine \<Rightarrow> bool" where
  "copying e en0 h0 st0 p h st en \<longleftrightarrow> copied_up e en0 h0 p h \<and> st = st0 \<and> same_engine en en0"

abbreviation copy_up_error where
  "copy_up_error F e en0 h0 st0 p d \<equiv>
     (\<lambda>_. holds F (\<lambda>h st en. copying e en0 h0 st0 p h st en \<and> (F \<longrightarrow> \<not> shows_dir en0 h0 d)))"

lemma copying_base_lookup:
  assumes "layout en0 h0" "plain_path en0 h0 p" "prefix d p" "clean d" "copying e en0 h0 st0 p h st en"
    "\<not> hid (tombstones en0) d"
  shows "k_lstat h (base_dir en0 @ d) = Inr n \<longleftrightarrow> get h (base_dir en0 @ d) = Some n"
proof -
  from assms have c: "copied_up e en0 h0 p h" and pl: "plain en0 h0 d" by (auto simp: copying_def plain_path_def)
  from lookup_base(1) [OF copied_up_layout [OF assms(1) c] copied_up_plain [OF assms(1) c pl] assms(4,6)]
  show ?thesis .
qed

lemma copying_upper_lookup:
  assumes "layout en0 h0" "d \<noteq> []" "clean d" "dir_at h (upper_dir en0 @ butlast d)"
  shows "k_lstat h (upper_dir en0 @ d) = (case get h (upper_dir en0 @ d) of None \<Rightarrow> Inl ENOENT | Some n \<Rightarrow> Inr n)"
  using assms layout_clean(1) [OF assms(1)] by (intro k_lstat_through_dirs) (auto simp: butlast_append)

lemma create_upper_directory_spec:
  assumes lay: "layout en0 h0" and pl: "plain_path en0 h0 p" and d: "strict_prefix d p" "d \<noteq> []" "clean d"
    and en1: "same_engine en1 en0"
  shows "hoare (\<lambda>s. holds F (\<lambda>h st en. copying e en0 h0 st0 p h st en \<and> dir_at h (upper_dir en0 @ butlast d) \<and>
        get h (upper_dir en0 @ d) = None) s \<and> b = k_lstat (host s) (base_dir en0 @ d))
    (create_upper_directory e en1 (unsegs d) b)
    (\<lambda>_. holds F (\<lambda>h st en. copying e en0 h0 st0 p h st en \<and> dir_at h (upper_dir en0 @ d)))
    (copy_up_error F e en0 h0 st0 p d) H" (is "hoare ?P _ ?Q ?E H")
proof -
  let ?D = "upper_dir en0 @ d" and ?B = "base_dir en0 @ d"
  have D: "clean ?D" "?D \<noteq> []" "butlast ?D = upper_dir en0 @ butlast d"
    using layout_clean [OF lay] d by (auto simp: butlast_append)
  have paths: "upper_path en1 (unsegs d) = ?D" "base_is_visible en1 (unsegs d) = (\<not> hid (tombstones en0) d)"
    using d(3) same_engineD [OF en1]
    by (simp_all add: upper_path_def base_is_visible_def hidden_by_tombstone_hid)
  define N where "N = (\<lambda>n h st en. copying e en0 h0 st0 p h st en \<and> dir_at h (butlast ?D) \<and> get h ?D = None \<and>
      \<not> hid (tombstones en0) d \<and> get h ?B = Some n \<and> is_dir n)"
  have make: "hoare (holds F (N n)) (sys_mkdir e ?D (perm (node_meta n)))
      ?Q (\<lambda>x s. x \<noteq> EEXIST \<and> holds F (\<lambda>h st en. N n h st en \<and> \<not> F) s) H" for n
  proof (rule sys_mkdir_spec)
    fix h st en and m :: meta assume n: "N n h st en" and m: "perm m = and (perm (node_meta n)) (not (umask e))"
    then obtain m0 cs where "n = Dir m0 cs" by (auto simp: N_def elim: is_dirE)
    with n m have "copied_up e en0 h0 p (put h ?D (Some (Dir m [])))"
      by (intro copied_up_mkdir [OF _ d(1,2), where m = m0 and cs = cs] layout_apart(4) [OF lay])
        (auto simp: N_def copying_def)
    then show "copying e en0 h0 st0 p (put h ?D (Some (Dir m []))) st en \<and> dir_at (put h ?D (Some (Dir m []))) ?D"
      using n get_put_same [OF D(2), of h] by (simp add: N_def copying_def dir_at_def)
  qed (use D in \<open>simp add: N_def\<close>)
  have made: "hoare (holds F (N n)) (catch (sys_mkdir e ?D (perm (node_meta n)))
      (\<lambda>err. if err \<noteq> EEXIST then fail err else ret ())) ?Q ?E H" for n
    by (rule hoare_catch [OF make]) (auto simp: hoare_def prog_defs holds_def N_def)
  have sync: "hoare (holds F (\<lambda>h st en. copying e en0 h0 st0 p h st en \<and> dir_at h ?D))
      (catch (sync_parent_directory ?D) (\<lambda>_. fail EIO)) ?Q ?E H"
  proof (rule hoare_catch [OF weaken_error [OF sync_parent_spec] hoare_fail])
    fix x h st en
    assume a: "(copying e en0 h0 st0 p h st en \<and> dir_at h ?D) \<and> (F \<longrightarrow> k_opendir h (butlast ?D) = Inl x)"
    then have "dir_at h (butlast ?D)" using get_parent_dir D(2) by (auto elim!: dir_atE)
    with a k_stat_dir [of "butlast ?D" h] D(1)
    show "copying e en0 h0 st0 p h st en \<and> (F \<longrightarrow> \<not> shows_dir en0 h0 d)" by auto
  qed
  have fg: "hoare (holds F (N n)) (forget_cached_directory_entries r) (\<lambda>_. holds F (N n)) ?E H" for n r
    by (rule forget_spec) (simp add: N_def copying_def)
  have failing: "hoare ?P (fail err) ?Q ?E H"
    if "\<And>s. ?P s \<Longrightarrow> hid (tombstones en0) d \<or> (\<forall>m cs. get (host s) ?B \<noteq> Some (Dir m cs))" for err
  proof (rule hoare_fail)
    fix s assume s: "?P s"
    then have "\<not> shows_dir en0 h0 d"
      using copied_up_no_base [OF lay, of e p "host s" d] that [OF s] by (auto simp: holds_def copying_def)
    with s show "?E err s" by (simp add: holds_def)
  qed
  have found: "get (host s) ?B = Some n \<longleftrightarrow> b = Inr n" if "?P s" "\<not> hid (tombstones en0) d" for s n
    using that copying_base_lookup [OF lay pl _ d(3), of e st0 "host s" "store s" "eng s" n] d(1)
    by (auto simp: holds_def strict_prefix_def)
  consider (none) "hid (tombstones en0) d" | (absent) x where "b = Inl x" | (leaf) n where "b = Inr n" "\<not> is_dir n" "\<not> hid (tombstones en0) d"
    | (dir) n where "b = Inr n" "is_dir n" "\<not> hid (tombstones en0) d" by (cases b) auto
  then show ?thesis
  proof cases
    case (dir n)
    have "hoare (holds F (N n)) (bnd (forget_cached_directory_entries (unsegs d)) (\<lambda>_.
        bnd (catch (sys_mkdir e ?D (perm (node_meta n))) (\<lambda>err. if err \<noteq> EEXIST then fail err else ret ())) (\<lambda>_.
        catch (sync_parent_directory ?D) (\<lambda>_. fail EIO)))) ?Q ?E H"
      by (rule hoare_bnd [OF fg hoare_bnd [OF made sync]])
    moreover have "holds F (N n) s" if "?P s" for s
      using that found [OF that dir(3), of n] dir D(3) by (auto simp: holds_def N_def)
    ultimately show ?thesis
      unfolding create_upper_directory_def paths using dir by (auto intro: hoare_pre)
  next
    case none
    then have "create_upper_directory e en1 (unsegs d) b = fail ENOENT"
      by (simp add: create_upper_directory_def paths)
    with none failing [of ENOENT] show ?thesis by simp
  next
    case (absent x)
    then have "create_upper_directory e en1 (unsegs d) b = fail ENOENT"
      by (simp add: create_upper_directory_def split: bool.split)
    moreover have "hid (tombstones en0) d \<or> (\<forall>m cs. get (host s) ?B \<noteq> Some (Dir m cs))" if "?P s" for s
      using found [OF that] absent by blast
    ultimately show ?thesis using failing [of ENOENT] by simp
  next
    case (leaf n)
    then have "create_upper_directory e en1 (unsegs d) b = fail ENOTDIR"
      by (simp add: create_upper_directory_def paths)
    moreover have "\<forall>m cs. get (host s) ?B \<noteq> Some (Dir m cs)" if "?P s" for s
      using found [OF that leaf(3)] leaf(1,2) by (metis is_dir_simps(3) option.inject sum.inject(2))
    ultimately show ?thesis using failing [of ENOTDIR] by simp
  qed
qed

lemma copy_up_directory_spec:
  assumes lay: "layout en0 h0" and pl: "plain_path en0 h0 p" and d: "strict_prefix d p" "d \<noteq> []" "clean d"
  shows "hoare (holds F (\<lambda>h st en. copying e en0 h0 st0 p h st en \<and> dir_at h (upper_dir en0 @ butlast d)))
    (copy_up_directory e (unsegs d))
    (\<lambda>_. holds F (\<lambda>h st en. copying e en0 h0 st0 p h st en \<and> dir_at h (upper_dir en0 @ d)))
    (copy_up_error F e en0 h0 st0 p d) H" (is "hoare (holds F ?A) _ ?Q ?E H")
proof -
  let ?D = "upper_dir en0 @ d"
  have look: "hoare (\<lambda>s. holds F ?A s \<and> x = (eng s, k_lstat (host s) (upper_path (eng s) (unsegs d))))
      (case x of (en, upper) \<Rightarrow> case upper of
         Inr n \<Rightarrow> if \<not> is_dir n then fail ENOTDIR else ret ()
       | Inl _ \<Rightarrow> bnd (gets (\<lambda>s. k_lstat (host s) (base_path en (unsegs d)))) (create_upper_directory e en (unsegs d)))
      ?Q ?E H" (is "hoare ?P _ _ _ _") for x
  proof (rule hoare_const [where c = "same_engine (fst x) en0"])
    assume "same_engine (fst x) en0"
    then obtain en1 u where x: "x = (en1, u)" and en1: "same_engine en1 en0" by (cases x) auto
    have base: "base_path en1 (unsegs d) = base_dir en0 @ d"
      using d(3) same_engineD [OF en1] by (simp add: base_path_def)
    have u: "u = (case get (host s) ?D of None \<Rightarrow> Inl ENOENT | Some n \<Rightarrow> Inr n)" if "?P s" for s
      using that x d(3) same_engineD [OF en1] copying_upper_lookup [OF lay d(2,3), of "host s"]
      by (auto simp: holds_def upper_path_def)
    show "hoare ?P (case x of (en, upper) \<Rightarrow> case upper of
         Inr n \<Rightarrow> if \<not> is_dir n then fail ENOTDIR else ret ()
       | Inl _ \<Rightarrow> bnd (gets (\<lambda>s. k_lstat (host s) (base_path en (unsegs d)))) (create_upper_directory e en (unsegs d)))
      ?Q ?E H"
    proof (cases u)
      case (Inl y)
      then have "get (host s) ?D = None" if "?P s" for s
        using u [OF that] by (auto split: option.splits)
      then show ?thesis
        unfolding x prod.case Inl sum.case base
        by (intro hoare_gets_bnd hoare_pre [OF create_upper_directory_spec [OF lay pl d en1]]) (auto simp: holds_def)
    next
      case (Inr n)
      then have g: "get (host s) ?D = Some n" if "?P s" for s
        using u [OF that] by (auto split: option.splits)
      have "hoare ?P (if \<not> is_dir n then fail ENOTDIR else ret ()) ?Q ?E H"
        using g copied_up_not_dir [of e en0 h0 p _ d n]
        by (auto intro!: hoare_if hoare_fail hoare_ret simp: holds_def copying_def dir_at_def)
      then show ?thesis unfolding Inr x by simp
    qed
  qed (auto simp: holds_def copying_def)
  show ?thesis
    unfolding copy_up_directory_def by (rule hoare_gets_bnd, rule look)
qed


lemma parents_of_unsegs:
  "clean d \<Longrightarrow> d \<noteq> [] \<Longrightarrow> parents_of (unsegs d) = unsegs d # parents_of (unsegs (butlast d))"
  by (subst parents_of.simps) (simp add: parent_of_unsegs)

lemma for_each_append: "for_each (xs @ ys) f = bnd (for_each xs f) (\<lambda>_. for_each ys f)"
  by (induction xs) (auto simp: fun_eq_iff prog_defs split: prod.splits res.splits)

text \<open>When it ends well the parent is there; an error without faults means that some component shows no directory.\<close>

lemma copy_up_spec:
  assumes lay: "layout en0 h0" and pl: "plain_path en0 h0 p" and p: "clean p" "p \<noteq> []"
  shows "hoare (holds F (copying e en0 h0 st0 p)) (create_missing_upper_parent_directories e (unsegs p))
    (\<lambda>_. holds F (\<lambda>h st en. copying e en0 h0 st0 p h st en \<and> dir_at h (upper_dir en0 @ butlast p)))
    (\<lambda>_. holds F (\<lambda>h st en. copying e en0 h0 st0 p h st en \<and> (F \<longrightarrow> (\<exists>d. strict_prefix d p \<and> \<not> shows_dir en0 h0 d)))) H"
    (is "hoare _ _ _ ?E _")
proof -
  have loop: "hoare (holds F (copying e en0 h0 st0 p)) (for_each (rev (parents_of (unsegs d))) (copy_up_directory e))
      (\<lambda>_. holds F (\<lambda>h st en. copying e en0 h0 st0 p h st en \<and> dir_at h (upper_dir en0 @ d))) ?E H"
    if "strict_prefix d p" for d
    using that
  proof (induction d rule: rev_induct)
    case Nil
    then show ?case
      by (auto intro!: hoare_ret simp: parents_of.simps holds_def copying_def copied_up_def)
  next
    case (snoc x d)
    then have d: "strict_prefix d p" "clean (d @ [x])"
      using p(1) by (auto simp: strict_prefix_def prefix_def)
    have "rev (parents_of (unsegs (d @ [x]))) = rev (parents_of (unsegs d)) @ [unsegs (d @ [x])]"
      using parents_of_unsegs [OF d(2)] by simp
    moreover have "hoare (holds F (\<lambda>h st en. copying e en0 h0 st0 p h st en \<and> dir_at h (upper_dir en0 @ d)))
        (copy_up_directory e (unsegs (d @ [x])))
        (\<lambda>_. holds F (\<lambda>h st en. copying e en0 h0 st0 p h st en \<and> dir_at h (upper_dir en0 @ d @ [x]))) ?E H"
      using copy_up_directory_spec [OF lay pl snoc.prems _ d(2), of F e st0 H] snoc.prems
      by (auto elim!: hoare_conseq simp: holds_def)
    moreover have "hoare P (ret ()) (\<lambda>_. P) ?E H" for P :: "machine \<Rightarrow> bool"
      by (rule hoare_ret)
    ultimately show ?case
      by (simp only: for_each_append for_each.simps) (intro hoare_bnd [OF snoc.IH [OF d(1)]] hoare_bnd)
  qed
  have "strict_prefix (butlast p) p"
    using p(2) by (metis append_butlast_last_id prefixI strict_prefix_def not_prefix_butlast)
  from loop [OF this] show ?thesis
    using p(1) by (simp add: create_missing_upper_parent_directories_def parent_of_unsegs)
qed

end
