(* ===== verification/View_Change.thy ===== *)
theory View_Change
  imports Crash Copy_Up
begin

text \<open>
  What a published entry changes in the view of its Workspace: the entry and nothing else, while the
  process runs as well as after a crash and its recovery.
\<close>

section \<open>The view depends on the storage only\<close>

lemma vis_cong:
  "upper_dir a = upper_dir b \<Longrightarrow> base_dir a = base_dir b \<Longrightarrow> tombstones a = tombstones b \<Longrightarrow> vis a h = vis b h"
  by (simp add: vis_def fun_eq_iff split: option.split)

lemma same_engine_vis: "same_engine a b \<Longrightarrow> vis a h = vis b h"
  by (rule vis_cong) (simp_all add: same_engineD)

text \<open>An entry without entries below it.\<close>

definition leaf :: "node \<Rightarrow> bool" where
  "leaf n \<longleftrightarrow> (case n of Dir m cs \<Rightarrow> cs = [] | _ \<Rightarrow> True)"

lemma leaf_below: "leaf n \<Longrightarrow> xs \<noteq> [] \<Longrightarrow> get n xs = None"
  by (cases xs; cases n) (auto simp: leaf_def)

lemma not_dir_leaf: "\<not> is_dir n \<Longrightarrow> leaf n"
  by (cases n) (auto simp: leaf_def)

text \<open>Every path that may have changed is away from both layers, or is the entry.\<close>

definition apart_or :: "engine \<Rightarrow> path \<Rightarrow> path set \<Rightarrow> bool" where
  "apart_or en p S \<longleftrightarrow>
     (\<forall>r \<in> S. (r = upper_dir en @ p \<or> (\<forall>q. \<not> prefix r (upper_dir en @ q))) \<and> (\<forall>q. \<not> prefix r (base_dir en @ q)))"

lemma base_unchanged:
  assumes "outside S h1 h" "apart_or en p S"
  shows "map_option abstr (get h (base_dir en @ q)) = map_option abstr (get h1 (base_dir en @ q))"
proof -
  have "same_entry (get h1 (base_dir en @ q)) (get h (base_dir en @ q))"
    using assms by (intro outside_same [OF assms(1)]) (auto simp: apart_or_def)
  from same_entry_abstr [OF this] show ?thesis by simp
qed

lemma vis_replaced:
  assumes out: "outside S h1 h" "apart_or en p S"
    and new: "get h (upper_dir en @ p) = Some n" "leaf n"
    and old: "\<And>n0. get h1 (upper_dir en @ p) = Some n0 \<Longrightarrow> leaf n0"
  shows "vis en h = (vis en h1)(p := Some (abstr n))"
proof
  fix q
  show "vis en h q = ((vis en h1)(p := Some (abstr n))) q"
  proof (cases "prefix p q")
    case True
    then obtain xs where q: "q = p @ xs" by (auto simp: prefix_def)
    show ?thesis
    proof (cases "xs = []")
      case False
      have "get h (upper_dir en @ q) = None"
        using new leaf_below [OF new(2) False] q get_append_Some [OF new(1), of xs] by simp
      moreover have "get h1 (upper_dir en @ q) = None"
      proof (cases "get h1 (upper_dir en @ p)")
        case None
        then show ?thesis using q get_append [of h1 "upper_dir en @ p" xs] by simp
      next
        case (Some n0)
        with leaf_below [OF old False] show ?thesis using q get_append_Some [of h1 "upper_dir en @ p" n0 xs] by simp
      qed
      ultimately show ?thesis using q False base_unchanged [OF out] by (simp add: vis_def)
    qed (use q new in \<open>simp add: vis_def\<close>)
  next
    case False
    have "\<not> prefix r (upper_dir en @ q)" if "r \<in> S" for r
      using out(2) that False by (auto simp: apart_or_def)
    then have "same_entry (get h1 (upper_dir en @ q)) (get h (upper_dir en @ q))"
      by (rule outside_same [OF out(1)])
    from same_entry_abstr [OF this] False base_unchanged [OF out, of q]
    show ?thesis by (auto simp: vis_def split: option.splits)
  qed
qed

lemma vis_kept:
  assumes out: "outside S h1 h" "apart_or en p S" "upper_dir en @ p \<notin> S"
  shows "vis en h = vis en h1"
proof
  fix q
  have "\<not> prefix r (upper_dir en @ q)" if "r \<in> S" for r
    using out(2,3) that by (auto simp: apart_or_def)
  then have "same_entry (get h1 (upper_dir en @ q)) (get h (upper_dir en @ q))"
    by (rule outside_same [OF out(1)])
  from same_entry_abstr [OF this] base_unchanged [OF out(1,2), of q]
  show "vis en h q = vis en h1 q" by (auto simp: vis_def split: option.splits)
qed

lemma apart_recovery:
  assumes "layout en h"
  shows "apart_or en p {recovery_dir en}" "apart_or en p {recovery_dir en, upper_dir en @ p}"
  using layout_apart [OF assms] by (auto simp: apart_or_def dest: append_prefixD)

lemma apart_litter:
  assumes W: "housed W en" and tree: "project_tree T W h0" and base: "base_dir en = T @ [''base'']" and lay: "layout en h0"
  shows "apart_or en p (litter T W)" "apart_or en p (insert (upper_dir en @ p) (litter T W))"
  using upper_litter_apart(1) [OF W tree] layout_apart(4) [OF lay] tree
  by (auto simp: apart_or_def base litter_def project_tree_def dest: append_prefixD)


section \<open>The state of the storage between two operations\<close>

text \<open>
  What the engine finds and leaves: the layout, an empty journal, new names for the stages to come, and
  the tombstones of the database in memory. \<open>T\<close> is \<^verbatim>\<open>.tribios\<close>.
\<close>

definition stages_free :: "engine \<Rightarrow> store \<Rightarrow> node \<Rightarrow> bool" where
  "stages_free en st h \<longleftrightarrow> (\<forall>i. i > operation_seq st \<longrightarrow> get h (stage_path en i) = None)"

lemma stages_freeD: "stages_free en st h \<Longrightarrow> get h (stage_of en st) = None"
  by (simp add: stages_free_def stage_of_def)

definition project_engine :: "path \<Rightarrow> machine \<Rightarrow> bool" where
  "project_engine T s \<longleftrightarrow>
     layout (eng s) (host s) \<and> housed (T @ [''workspaces'']) (eng s) \<and> base_dir (eng s) = T @ [''base''] \<and>
     project_tree T (T @ [''workspaces'']) (host s) \<and> journal_ok (store s) \<and> pending (store s) = [] \<and>
     stages_free (eng s) (store s) (host s) \<and>
     set (sql_load_workspace_tombstones (workspace (eng s)) (store s)) = tombstones (eng s)"

text \<open>A restart of the daemon: recovery, and a new engine on the storage of the Workspace.\<close>

definition restart :: "env \<Rightarrow> path \<Rightarrow> path \<Rightarrow> engine \<Rightarrow> (machine, string, engine) prog" where
  "restart e root T en =
     bnd (recover_interrupted_operations e root T (T @ [''workspaces''])) (\<lambda>_.
     new_engine e (workspace en) (base_dir en) (upper_dir en))"

definition recovers_to :: "env \<Rightarrow> path \<Rightarrow> engine \<Rightarrow> machine \<Rightarrow> ((path \<Rightarrow> entry option) \<Rightarrow> bool) \<Rightarrow> bool" where
  "recovers_to e T en s V \<longleftrightarrow>
     (\<forall>e' root. tribios_failpoint e' = None \<and> sql_like e' = sql_like e \<longrightarrow>
        (\<exists>en' t. restart e' root T en (s\<lparr>faults := []\<rparr>) = (Ok en', t) \<and>
              project_engine T (t\<lparr>eng := en'\<rparr>) \<and> V (vis en' (host t))))"

definition reopened :: "engine \<Rightarrow> store \<Rightarrow> engine" where
  "reopened en st =
     \<lparr>workspace = workspace en, inode_salt = workspace_inode_salt (workspace en), base_dir = base_dir en,
      upper_dir = upper_dir en, tombstones = set (sql_load_workspace_tombstones (workspace en) st),
      directory_entries_cache = [], handles = [], next_handle = 1\<rparr>"

lemma restart_opens:
  "recover_interrupted_operations e' root T (T @ [''workspaces'']) s = (Ok (), t) \<Longrightarrow> faults t = [] \<Longrightarrow>
   restart e' root T en s = (Ok (reopened en (store t)), t)"
  by (simp add: restart_def new_engine_def load_workspace_tombstones_def reopened_def kernel_call_def prog_defs)

text \<open>
  The outcome of an operation that makes a new view from an old one: when it returns, the view is
  the new one; after an error it is the old one or the new one; after a process exit, the restarted
  daemon shows the old one or the new one. The storage is ready for the next operation when the call
  returns and after the restart.
\<close>

definition atomically ::
  "env \<Rightarrow> path \<Rightarrow> machine \<Rightarrow> (path \<Rightarrow> entry option) \<Rightarrow> ((path \<Rightarrow> entry option) \<Rightarrow> bool) \<Rightarrow>
   (errno, 'a) res \<times> machine \<Rightarrow> bool"
where
  "atomically e T s w new r \<longleftrightarrow>
     (case r of
        (Ok a, s') \<Rightarrow> project_engine T s' \<and> new (vis (eng s') (host s'))
      | (Err err, s') \<Rightarrow> vis (eng s') (host s') = w \<or> new (vis (eng s') (host s'))
      | (Halt f, s') \<Rightarrow> recovers_to e T (eng s) s' (\<lambda>v. v = w \<or> new v))"

lemma atomically_simps [simp]:
  "atomically e T s w new (Ok a, t) = (project_engine T t \<and> new (vis (eng t) (host t)))"
  "atomically e T s w new (Err err, t) = (vis (eng t) (host t) = w \<or> new (vis (eng t) (host t)))"
  "atomically e T s w new (Halt f, t) = recovers_to e T (eng s) t (\<lambda>v. v = w \<or> new v)"
  by (simp_all add: atomically_def)

text \<open>Only the directory of the Workspace has changed on the host.\<close>

definition inside :: "machine \<Rightarrow> machine \<Rightarrow> bool" where
  "inside s t \<longleftrightarrow> outside {workspace_dir (eng s)} (host s) (host t)"

lemma inside_same [simp]: "host t = host s \<Longrightarrow> inside s t"
  by (simp add: inside_def)

text \<open>One entry changes. Copy-up may have faded the directories above it.\<close>

definition changes_entry ::
  "env \<Rightarrow> path \<Rightarrow> path \<Rightarrow> (entry \<Rightarrow> bool) \<Rightarrow> machine \<Rightarrow> (errno, 'a) res \<times> machine \<Rightarrow> bool"
where
  "changes_entry e T d X s r \<longleftrightarrow>
     inside s (snd r) \<and>
     (\<exists>w. same_view e d (vis (eng s) (host s)) w \<and> atomically e T s w (\<lambda>v. \<exists>x. X x \<and> v = w(d := Some x)) r)"

lemma changes_entry_Ok:
  "inside s t \<Longrightarrow> same_view e d (vis (eng s) (host s)) w \<Longrightarrow> X x \<Longrightarrow> vis (eng t) (host t) = w(d := Some x) \<Longrightarrow>
   project_engine T t \<Longrightarrow> changes_entry e T d X s (Ok a, t)"
  unfolding changes_entry_def atomically_simps snd_conv by blast

lemma changes_entry_Err:
  "inside s t \<Longrightarrow> same_view e d (vis (eng s) (host s)) w \<Longrightarrow>
   vis (eng t) (host t) = w \<or> (\<exists>x. X x \<and> vis (eng t) (host t) = w(d := Some x)) \<Longrightarrow>
   changes_entry e T d X s (Err err, t)"
  unfolding changes_entry_def atomically_simps snd_conv by blast

lemma changes_entry_Halt:
  "inside s t \<Longrightarrow> same_view e d (vis (eng s) (host s)) w \<Longrightarrow>
   recovers_to e T (eng s) t (\<lambda>v. v = w \<or> (\<exists>x. X x \<and> v = w(d := Some x))) \<Longrightarrow>
   changes_entry e T d X s (Halt f, t)"
  unfolding changes_entry_def atomically_simps snd_conv by blast

section \<open>Copy-up and publication together\<close>

lemma copied_up_upper_leaf:
  assumes "copied_up e en0 h0 d h1" "\<And>n0. get h0 (upper_dir en0 @ d) = Some n0 \<Longrightarrow> \<not> is_dir n0"
  shows "get h1 (upper_dir en0 @ d) = get h0 (upper_dir en0 @ d)"
proof -
  have "same_entry (get h0 (upper_dir en0 @ d)) (get h1 (upper_dir en0 @ d))" using assms(1) by (auto simp: copied_up_def)
  with assms(2) show ?thesis by (auto elim!: same_entry_cases)
qed

lemma copied_up_publishable:
  assumes lay: "layout en0 h0" and c: "copied_up e en0 h0 d h1" and d: "clean d" "d \<noteq> []" "dest_of op = unsegs d"
    and up: "dir_at h1 (upper_dir en0 @ butlast d)" and fresh: "get h0 (stage_of en0 st0) = None"
    and ren: "op_kind op = ''rename'' \<Longrightarrow>
      op_path op = unsegs p \<and> clean p \<and> p \<noteq> [] \<and> \<not> prefix p d \<and> \<not> prefix d p \<and> plain en0 h0 p"
  shows "publishable op h1 st0 en0 d p"
proof -
  have lay1: "layout en0 h1" by (rule copied_up_layout [OF lay c])
  have "\<not> prefix (upper_dir en0) (stage_of en0 st0)"
    using layout_apart(2) [OF lay, of "[show_int (operation_seq st0 + 1)]"]
    by (simp add: stage_of_def stage_path_def del: prefix_snoc)
  then have "same_entry (get h0 (stage_of en0 st0)) (get h1 (stage_of en0 st0))"
    using c by (intro outside_same) (auto simp: copied_up_def)
  with fresh have "get h1 (stage_of en0 st0) = None" using same_entry_none by metis
  moreover have "direct h1 (upper_dir en0 @ p)" if "op_kind op = ''rename''"
    using direct_upper [OF lay1 copied_up_plain [OF lay c]] ren [OF that] by blast
  ultimately show ?thesis
    using lay1 d up ren by (auto simp: publishable_def)
qed

text \<open>Copy-up leaves the directory of the result, or a tree in which nothing else has changed.\<close>

lemma copy_up_first:
  assumes lay: "layout en0 h0" and pl: "plain_path en0 h0 d" and d: "clean d" "d \<noteq> []"
  shows "hoare (holds F (\<lambda>h st en. h = h0 \<and> st = st0 \<and> same_engine en en0)) (create_missing_upper_parent_directories e (unsegs d))
    (\<lambda>_ s. \<exists>h1. holds F (\<lambda>h st en. (copied_up e en0 h0 d h1 \<and> dir_at h1 (upper_dir en0 @ butlast d)) \<and>
       h = h1 \<and> st = st0 \<and> same_engine en en0) s)
    (\<lambda>_. holds F (\<lambda>h st en. (F \<longrightarrow> (\<exists>q. strict_prefix q d \<and> \<not> shows_dir en0 h0 q)) \<and> same_engine en en0 \<and>
       copied_up e en0 h0 d h \<and> untouched h en0 h)) H"
proof (rule hoare_conseq [OF copy_up_spec [OF lay pl d, of F e st0]])
  fix s assume "holds F (\<lambda>h st en. h = h0 \<and> st = st0 \<and> same_engine en en0) s"
  then show "holds F (copying e en0 h0 st0 d) s"
    using layout_dirs(1) [OF lay] by (auto simp: holds_def copying_def intro: copied_up_refl)
next
  fix err s
  assume a: "holds F (\<lambda>h st en. copying e en0 h0 st0 d h st en \<and> (F \<longrightarrow> (\<exists>q. strict_prefix q d \<and> \<not> shows_dir en0 h0 q))) s"
  then have "untouched (host s) en0 (host s)"
    using copied_up_layout [OF lay, of e d "host s"]
    by (auto simp: holds_def copying_def layout_def untouched_def recovery_ok_def)
  with a show "holds F (\<lambda>h st en. (F \<longrightarrow> (\<exists>q. strict_prefix q d \<and> \<not> shows_dir en0 h0 q)) \<and> same_engine en en0 \<and>
       copied_up e en0 h0 d h \<and> untouched h en0 h) s" unfolding holds_def copying_def by blast
qed (auto simp: holds_def copying_def)

text \<open>What an error leaves after copy-up: the old tree, the new entry, or a rename whose source is on its way out.\<close>

definition half_done :: "recovery_operation \<Rightarrow> node \<Rightarrow> engine \<Rightarrow> path \<Rightarrow> path \<Rightarrow> path \<Rightarrow> (node \<Rightarrow> bool) \<Rightarrow> node \<Rightarrow> bool" where
  "half_done op h1 en0 stage d p staged h \<longleftrightarrow>
     untouched h1 en0 h \<or>
     (\<exists>n. staged n \<and> (entry_published h1 en0 stage d n h \<or> op_kind op = ''rename'' \<and> source_in_removal h1 en0 d p n h))"

context preparing
begin

lemma publish_after_copy_up:
  assumes pub: "publishable op h1 st0 en0 d p" and c: "copied_up e en0 h0 d h1"
    and ready: "\<And>h en. outside {recovery_dir en0} h1 h \<Longrightarrow>
      dir_at h (recovery_dir en0) \<Longrightarrow> same_engine en en0 \<Longrightarrow> ready h en (stage_of en0 st0)"
    and old: "\<And>n0. get h0 (upper_dir en0 @ d) = Some n0 \<Longrightarrow> \<not> is_dir n0"
    and rep: "\<And>n. staged n \<Longrightarrow> replaceable n (get h0 (upper_dir en0 @ d))"
    and no_fault: "F \<Longrightarrow> tribios_io_fault e = None"
  shows "hoare (holds F (\<lambda>h st en. h = h1 \<and> st = st0 \<and> same_engine en en0)) (publish_staged_operation e op prepare)
    (\<lambda>a. holds F (\<lambda>h st en. a = returned \<and>
       (\<exists>h1 n. copied_up e en0 h0 d h1 \<and> staged n \<and> publication_done op h1 en0 (stage_of en0 st0) d p n h) \<and>
       st = finished_store e (as_published op st0) (journaled_publishing op st0) \<and>
       same_engine en (en0\<lparr>tombstones := apply_tombstones op (tombstones en0)\<rparr>)))
    (\<lambda>_. holds F (\<lambda>h st en. (F \<longrightarrow> (\<exists>q. strict_prefix q d \<and> \<not> shows_dir en0 h0 q)) \<and> same_engine en en0 \<and>
       (\<exists>h1. copied_up e en0 h0 d h1 \<and> half_done op h1 en0 (stage_of en0 st0) d p staged h)))
    (\<lambda>_. holds F (\<lambda>h st en. tribios_failpoint e \<noteq> None \<and>
       (\<exists>h1. copied_up e en0 h0 d h1 \<and> publishable op h1 st0 en0 d p \<and> crash_image e op h1 st0 en0 d p staged h st)))"
proof -
  have rep1: "replaceable n (get h1 (upper_dir en0 @ d))" if "staged n" for n
    using copied_up_upper_leaf [OF c old] rep [OF that] by simp
  show ?thesis
    by (rule hoare_conseq [OF publish_spec [OF pub ready no_fault rep1, where F = F]])
      (use c pub in \<open>auto simp: holds_def rolled_back_def half_published_def half_done_def\<close>)
qed

lemma copy_up_and_publish:
  assumes lay: "layout en0 h0" and pl: "plain_path en0 h0 d" and d: "clean d" "d \<noteq> []" "dest_of op = unsegs d"
    and kind: "op_kind op \<noteq> ''rename''" and fresh: "get h0 (stage_of en0 st0) = None"
    and ready: "\<And>h1 h en. copied_up e en0 h0 d h1 \<Longrightarrow> outside {recovery_dir en0} h1 h \<Longrightarrow>
      dir_at h (recovery_dir en0) \<Longrightarrow> same_engine en en0 \<Longrightarrow> ready h en (stage_of en0 st0)"
    and old: "\<And>n0. get h0 (upper_dir en0 @ d) = Some n0 \<Longrightarrow> \<not> is_dir n0"
    and rep: "\<And>n. staged n \<Longrightarrow> replaceable n (get h0 (upper_dir en0 @ d))"
    and no_fault: "F \<Longrightarrow> tribios_io_fault e = None"
  shows "hoare (holds F (\<lambda>h st en. h = h0 \<and> st = st0 \<and> same_engine en en0))
    (bnd (create_missing_upper_parent_directories e (unsegs d)) (\<lambda>_. publish_staged_operation e op prepare))
    (\<lambda>a. holds F (\<lambda>h st en. a = returned \<and>
       (\<exists>h1 n. copied_up e en0 h0 d h1 \<and> staged n \<and> publication_done op h1 en0 (stage_of en0 st0) d [] n h) \<and>
       st = finished_store e (as_published op st0) (journaled_publishing op st0) \<and>
       same_engine en (en0\<lparr>tombstones := apply_tombstones op (tombstones en0)\<rparr>)))
    (\<lambda>_. holds F (\<lambda>h st en. (F \<longrightarrow> (\<exists>q. strict_prefix q d \<and> \<not> shows_dir en0 h0 q)) \<and> same_engine en en0 \<and>
       (\<exists>h1. copied_up e en0 h0 d h1 \<and> half_done op h1 en0 (stage_of en0 st0) d [] staged h)))
    (\<lambda>_. holds F (\<lambda>h st en. tribios_failpoint e \<noteq> None \<and>
       (\<exists>h1. copied_up e en0 h0 d h1 \<and> publishable op h1 st0 en0 d [] \<and> crash_image e op h1 st0 en0 d [] staged h st)))"
    (is "hoare _ _ ?Q ?E ?H")
proof -
  have publish: "hoare (holds F (\<lambda>h st en. (copied_up e en0 h0 d h1 \<and> dir_at h1 (upper_dir en0 @ butlast d)) \<and>
      h = h1 \<and> st = st0 \<and> same_engine en en0)) (publish_staged_operation e op prepare) ?Q ?E ?H" for h1
  proof (rule hoare_const [where c = "copied_up e en0 h0 d h1 \<and> dir_at h1 (upper_dir en0 @ butlast d)"])
    assume h1: "copied_up e en0 h0 d h1 \<and> dir_at h1 (upper_dir en0 @ butlast d)"
    have "publishable op h1 st0 en0 d []"
      by (rule copied_up_publishable [OF lay _ d _ fresh]) (use h1 kind in auto)
    from publish_after_copy_up [OF this conjunct1 [OF h1] ready [OF conjunct1 [OF h1]] old rep no_fault]
    show ?thesis by (rule hoare_pre) (auto simp: holds_def)
  qed (auto simp: holds_def)
  show ?thesis
    by (rule hoare_bnd [OF hoare_conseq [OF copy_up_first [OF lay pl d(1,2)]] hoare_ex [OF publish]])
      (auto simp: holds_def half_done_def)
qed

end


section \<open>From the storage to the view\<close>

lemma copied_up_tree:
  assumes tree: "project_tree T W h0" and W: "housed W en0" and c: "copied_up e en0 h0 d h1"
  shows "project_tree T W h1"
proof -
  have out: "outside {upper_dir en0} h0 h1" using c by (simp add: copied_up_def)
  have apart: "\<not> prefix (upper_dir en0) (W @ xs)" if "xs = [] \<or> xs = [x]" for x xs
    using that W by (auto simp: housed_def dest: prefix_length_le)
  have "dir_at h1 W" using outside_dir [OF out, of W] apart [of "[]"] tree by (auto simp: project_tree_def)
  moreover have "clean_segment x \<and> \<not> is_link n" if g: "get h1 (W @ [x]) = Some n" for x n
  proof -
    have s: "same_entry (get h0 (W @ [x])) (get h1 (W @ [x]))"
      using apart [of "[x]" x] by (intro outside_same [OF out]) auto
    obtain n0 where n0: "get h0 (W @ [x]) = Some n0" using g same_entry_none [OF s] by auto
    with tree have "clean_segment x" "\<not> is_link n0" by (auto simp: project_tree_def)
    with same_entry_link [OF s] n0 g show ?thesis by simp
  qed
  ultimately show ?thesis using tree by (simp add: project_tree_def)
qed

lemma staged_operation_facts:
  "op_kind (staged_operation en k r) = k" "op_path (staged_operation en k r) = r" "op_target (staged_operation en k r) = []"
  "op_workspace (staged_operation en k r) = workspace en" "op_phase (staged_operation en k r) = Prepared"
  "apply_tombstones (staged_operation en k r) T = T"
  "finished_rows e (staged_operation en k r) st = tombstone_rows st"
  by (simp_all add: staged_operation_def apply_tombstones_def finished_rows_def sql_finish_def sql_abandon_recovery_operation_def)

section \<open>The storage is ready for the next operation\<close>

lemma outside_coarse: "outside S h h' \<Longrightarrow> (\<And>r. r \<in> S \<Longrightarrow> \<exists>r' \<in> S'. prefix r' r) \<Longrightarrow> outside S' h h'"
  unfolding outside_def by (metis prefix_order.trans)

lemma show_int_inj: "show_int i = show_int j \<Longrightarrow> i = j"
proof -
  assume eq: "show_int i = show_int j"
  have plain: "show_nat n \<noteq> CHR ''-'' # xs" for n xs
    using show_nat_chars [of "CHR ''-''" n] by (auto simp: digit_of_def)
  show ?thesis
    using eq plain plain [symmetric] by (auto simp: show_int_def show_nat_inj split: if_splits)
qed

lemma engine_kept:
  assumes ps: "project_engine T s" and out: "outside (insert (upper_dir (eng s)) (litter T (T @ [''workspaces'']))) (host s) (host t)"
    and up: "dir_at (host t) (upper_dir (eng s))" and R: "recovery_ok (eng s) (host t)"
    and en: "workspace (eng t) = workspace (eng s)" "base_dir (eng t) = base_dir (eng s)" "upper_dir (eng t) = upper_dir (eng s)"
    and st: "journal_ok (store t)" "pending (store t) = []" "stages_free (eng s) (store t) (host t)"
      "set (sql_load_workspace_tombstones (workspace (eng s)) (store t)) = tombstones (eng t)"
  shows "project_engine T t"
proof -
  let ?en = "eng s" and ?W = "T @ [''workspaces'']"
  have lay: "layout ?en (host s)" and W: "housed ?W ?en" and tree: "project_tree T ?W (host s)" and base: "base_dir ?en = T @ [''base'']"
    using ps by (auto simp: project_engine_def)
  have "\<not> prefix r (base_dir ?en)" if "r \<in> insert (upper_dir ?en) (litter T ?W)" for r
    using that apart_litter(1) [OF W tree base lay, of "[]"] layout_apart(4) [OF lay, of "[]"] by (auto simp: apart_or_def)
  then have "dir_at (host t) (base_dir ?en)" using outside_dir [OF out] layout_dirs [OF lay] by blast
  then have "layout ?en (host t)" using lay up R by (simp add: layout_def recovery_ok_def)
  moreover have "project_tree T ?W (host t)"
    by (rule project_tree_outside [OF tree W, where op = "staged_operation ?en ''create'' []" and d = "[]" and p = "[]"])
      (use out in \<open>simp add: changed_paths_def staged_operation_facts\<close>)
  moreover have "recovery_dir (eng t) = recovery_dir ?en" "workspace_dir (eng t) = workspace_dir ?en"
    using en by (simp_all add: recovery_dir_def workspace_dir_def)
  ultimately show ?thesis
    using W base en st by (simp add: project_engine_def layout_def housed_def stages_free_def stage_path_def)
qed

lemma copied_up_outside:
  assumes "copied_up e en h0 d h1" "outside S h1 h" "\<And>r. r \<in> S \<Longrightarrow> \<exists>r' \<in> insert (upper_dir en) S'. prefix r' r"
  shows "outside (insert (upper_dir en) S') h0 h"
proof (rule outside_trans)
  show "outside (insert (upper_dir en) S') h0 h1" using assms(1) by (auto simp: copied_up_def elim: outside_mono)
  show "outside (insert (upper_dir en) S') h1 h" using assms(2,3) by (rule outside_coarse)
qed

text \<open>After a restart.\<close>

lemma settled_store:
  assumes "journal_ok st0" "pending st0 = []" "operation_rows st = operation_rows st0" "operation_seq st = operation_seq st0 + 1"
  shows "journal_ok st" "pending st = []"
  using assms pending_rows_eq [of st st0] by (fastforce simp: journal_ok_def)+

lemma restarted:
  assumes ps: "project_engine T s" and run: "recover_interrupted_operations e' root T (T @ [''workspaces'']) s1 = (Ok (), t)"
    and t: "faults t = []" "swept (T @ [''workspaces'']) (host t)"
    and st: "operation_rows (store t) = operation_rows (store s)" "operation_seq (store t) = operation_seq (store s) + 1"
    and c: "copied_up e (eng s) (host s) d h1" and out: "outside (litter T (T @ [''workspaces'']) \<union> S) h1 (host t)"
    and S: "\<And>r. r \<in> S \<Longrightarrow> strict_prefix (upper_dir (eng s)) r"
    and V: "V (vis (reopened (eng s) (store t)) (host t))"
  shows "\<exists>en' t. restart e' root T (eng s) s1 = (Ok en', t) \<and> project_engine T (t\<lparr>eng := en'\<rparr>) \<and> V (vis en' (host t))"
proof -
  let ?en = "eng s" and ?W = "T @ [''workspaces'']"
  have W: "housed ?W ?en" and tree: "project_tree T ?W (host s)" and ok: "journal_ok (store s)" "pending (store s) = []"
    using ps by (simp_all add: project_engine_def)
  have R: "get (host t) (recovery_dir ?en) = None" using t(2) housed_dirs(2) [OF W] by (simp add: swept_def)
  then have "get (host t) (recovery_dir ?en @ [x]) = None" for x using get_append [of "host t" "recovery_dir ?en" "[x]"] by simp
  then have free: "stages_free ?en (store t) (host t)" by (simp add: stages_free_def stage_path_def)
  have o: "outside (insert (upper_dir ?en) (litter T ?W)) (host s) (host t)"
    by (rule copied_up_outside [OF c out]) (use S in \<open>auto simp: strict_prefix_def\<close>)
  have "\<not> prefix r (upper_dir ?en)" if "r \<in> litter T ?W \<union> S" for r
    using that upper_litter_apart(1) [OF W tree, of r "[]"] S [of r] by (auto simp: strict_prefix_def dest: prefix_order.antisym)
  then have up: "dir_at (host t) (upper_dir ?en)" using outside_dir [OF out] c by (simp add: copied_up_def)
  have "project_engine T (t\<lparr>eng := reopened ?en (store t)\<rparr>)"
    by (rule engine_kept [OF ps]) (use o up R free settled_store [OF ok st] in \<open>auto simp: reopened_def recovery_ok_def\<close>)
  with restart_opens [OF run t(1), of ?en] V show ?thesis by auto
qed

text \<open>After a publication.\<close>

lemma copied_up_inside:
  assumes "layout (eng s) (host s)" "copied_up e (eng s) (host s) d h1" "outside S h1 (host t)"
    and "\<And>r. r \<in> S \<Longrightarrow> prefix (recovery_dir (eng s)) r \<or> prefix (upper_dir (eng s)) r"
  shows "inside s t"
  unfolding inside_def
proof (rule outside_coarse)
  show "outside (insert (upper_dir (eng s)) {recovery_dir (eng s)}) (host s) (host t)"
    using assms(4) by (intro copied_up_outside [OF assms(2,3)]) blast
qed (auto simp: layout_upper [OF assms(1)] recovery_dir_def)

text \<open>Every state of a publication, whatever ends it.\<close>

lemma half_done_outside:
  "half_done op h1 en stage d p staged h \<Longrightarrow> outside {recovery_dir en, upper_dir en @ d, upper_dir en @ p} h1 h"
  by (auto simp: half_done_def untouched_def entry_published_def source_in_removal_def elim: outside_mono)

lemma crash_image_outside:
  "crash_image e op h1 st en d p staged h st' \<Longrightarrow> outside {recovery_dir en, upper_dir en @ d, upper_dir en @ p} h1 h"
  by (auto simp: crash_image_def published_image_def untouched_def stage_filled_def publication_done_def
      entry_published_def source_removed_def split: if_splits elim: outside_mono)

lemma publication_done_outside:
  "publication_done op h1 en stage d p n h \<Longrightarrow> outside {recovery_dir en, upper_dir en @ d, upper_dir en @ p} h1 h"
  by (auto simp: publication_done_def entry_published_def source_removed_def split: if_splits elim: outside_mono)

lemma published_ready:
  assumes ps: "project_engine T s" and c: "copied_up e (eng s) (host s) d h1"
    and d: "d \<noteq> []" "op_kind op = ''rename'' \<longrightarrow> p \<noteq> []"
    and pub: "publication_done op h1 (eng s) (stage_of (eng s) (store s)) d p n (host t)"
    and st: "store t = finished_store e (as_published op (store s)) (journaled_publishing op (store s))"
    and en: "same_engine (eng t) ((eng s)\<lparr>tombstones := apply_tombstones op (tombstones (eng s))\<rparr>)"
    and rows: "set (map snd (filter (\<lambda>(w, t). w = workspace (eng s)) (finished_rows e op (store s)))) =
      apply_tombstones op (tombstones (eng s))"
  shows "project_engine T t"
proof (rule engine_kept [OF ps])
  let ?en = "eng s" and ?R = "recovery_dir (eng s)" and ?W = "T @ [''workspaces'']"
  have lay: "layout ?en (host s)" and W: "housed ?W ?en" and ok: "journal_ok (store s)" "pending (store s) = []"
    and free: "stages_free ?en (store s) (host s)"
    using ps by (auto simp: project_engine_def)
  note apart = layout_apart [OF lay]
  obtain S where out: "outside S h1 (host t)" and S: "S \<subseteq> {?R, upper_dir ?en @ d, upper_dir ?en @ p}" "upper_dir ?en \<notin> S"
    and R: "recovery_ok ?en (host t)" and one: "one_stage h1 ?en (stage_of ?en (store s)) (host t)"
  proof (cases "op_kind op = ''rename''")
    case True
    then show thesis
      using pub d apart(1) [of "[]"] that [of "{?R, upper_dir ?en @ d, upper_dir ?en @ p}"]
      by (auto simp: publication_done_def source_removed_def)
  next
    case False
    then show thesis
      using pub d apart(1) [of "[]"] that [of "{?R, upper_dir ?en @ d}"]
      by (auto simp: publication_done_def entry_published_def)
  qed
  have "?R \<in> litter T ?W" using housed_dirs(2) [OF W] by (simp add: litter_def)
  with S show "outside (insert (upper_dir ?en) (litter T ?W)) (host s) (host t)"
    by (intro copied_up_outside [OF c out]) auto
  show "recovery_ok ?en (host t)" by (rule R)
  have "\<not> prefix r (upper_dir ?en)" if "r \<in> S" for r
    using that S apart(1) [of "[]"] by (auto dest: prefix_length_le)
  then show "dir_at (host t) (upper_dir ?en)"
    using outside_dir [OF out] c by (simp add: copied_up_def)
  show "workspace (eng t) = workspace ?en" "base_dir (eng t) = base_dir ?en" "upper_dir (eng t) = upper_dir ?en"
    using same_engineD [OF en] by simp_all
  show "journal_ok (store t)" "pending (store t) = []" unfolding st by (rule finished_idle [OF ok])+
  note st' = st [unfolded journal_stores(2) [OF ok(1)]]
  show "stages_free ?en (store t) (host t)"
    unfolding stages_free_def
  proof (intro allI impI)
    fix i assume "i > operation_seq (store t)"
    then have i: "i > operation_seq (store s)" "i \<noteq> operation_seq (store s) + 1" by (simp_all add: st')
    then have "get (host s) (stage_path ?en i) = None" using free by (simp add: stages_free_def)
    moreover have "same_entry (get (host s) (stage_path ?en i)) (get h1 (stage_path ?en i))"
      using c apart(2) [of "[show_int i]"] unfolding stage_path_def
      by (intro outside_same [where S = "{upper_dir ?en}"]) (auto simp: copied_up_def simp del: prefix_snoc)
    ultimately have "get h1 (stage_path ?en i) = None" using same_entry_none by metis
    moreover have "stage_path ?en i \<noteq> stage_of ?en (store s)"
      using i(2) show_int_inj by (auto simp: stage_path_def stage_of_def)
    ultimately show "get (host t) (stage_path ?en i) = None" using one by (simp add: one_stage_def stage_path_def)
  qed
  show "set (sql_load_workspace_tombstones (workspace ?en) (store t)) = tombstones (eng t)"
    using rows same_engineD(3) [OF en] by (simp add: st' sql_load_workspace_tombstones_def)
qed

lemma stored_tombstones_same:
  "tombstone_rows st = tombstone_rows st' \<Longrightarrow> reopened en st = reopened en st'"
  by (simp add: reopened_def sql_load_workspace_tombstones_def)

lemma project_engine_reopened: "project_engine T s \<Longrightarrow> vis (reopened (eng s) (store s)) h = vis (eng s) h"
  by (rule vis_cong) (auto simp: project_engine_def reopened_def)

lemma crash_recovers_to:
  assumes ps: "project_engine T s" and d: "clean d" "d \<noteq> []" and kind: "staged_filesystem_operation k" "k \<noteq> ''rename''"
    and c: "copied_up e (eng s) (host s) d h1" and pub: "publishable (staged_operation (eng s) k (unsegs d)) h1 (store s) (eng s) d []"
    and image: "crash_image e (staged_operation (eng s) k (unsegs d)) h1 (store s) (eng s) d [] staged (host s') (store s')"
    and staged: "\<And>n. staged n \<Longrightarrow> leaf n \<and> X (abstr n) \<and> replaceable n (get (host s) (upper_dir (eng s) @ d))"
    and old: "\<And>n0. get (host s) (upper_dir (eng s) @ d) = Some n0 \<Longrightarrow> \<not> is_dir n0"
  shows "recovers_to e T (eng s) s' (\<lambda>v. v = vis (eng s) h1 \<or> (\<exists>x. X x \<and> v = (vis (eng s) h1)(d := Some x)))"
  unfolding recovers_to_def
proof (intro allI impI)
  fix e' :: env and root assume e': "tribios_failpoint e' = None \<and> sql_like e' = sql_like e"
  let ?W = "T @ [''workspaces'']" and ?op = "staged_operation (eng s) k (unsegs d)"
  let ?s = "s'\<lparr>faults := []\<rparr>"
  have W: "housed ?W (eng s)" and tree: "project_tree T ?W h1" and base: "base_dir (eng s) = T @ [''base'']"
    and lay: "layout (eng s) h1" and ok: "journal_ok (store s)" "pending (store s) = []"
    using ps copied_up_tree [OF _ _ c] copied_up_layout [OF _ c] by (auto simp: project_engine_def)
  have op: "entry_operation ?op (eng s) d []" using kind d by (simp add: entry_operation_def staged_operation_facts)
  have upper: "get h1 (upper_dir (eng s) @ d) = get (host s) (upper_dir (eng s) @ d)"
    by (rule copied_up_upper_leaf [OF c old])
  note apart = apart_litter [OF W tree base lay, of d]
  have image': "crash_image e ?op h1 (store s) (eng s) d [] staged (host ?s) (store ?s)" using image by simp
  obtain s2 where run: "recover_interrupted_operations e' root T ?W ?s = (Ok (), s2)" "faults s2 = []" "swept ?W (host s2)"
    and settled: "settled_old T ?W h1 (store s) (host s2) (store s2) \<or>
      (\<exists>n. staged n \<and> settled_new e ?op T ?W h1 (store s) (eng s) d [] n (host s2) (store s2))"
    using recovery_settles [OF pub op W tree ok _ _ _ _ image', of e' root] staged e' upper
    by (auto simp: staged_operation_facts)
  have st: "operation_rows (store s2) = operation_rows (store s)" "operation_seq (store s2) = operation_seq (store s) + 1"
    and rows: "tombstone_rows (store s2) = tombstone_rows (store s)"
    using settled by (auto simp: settled_old_def settled_new_def staged_operation_facts)
  have out: "outside (litter T ?W \<union> {upper_dir (eng s) @ d}) h1 (host s2)"
    using settled kind(2) by (auto simp: settled_old_def settled_new_def changed_paths_def staged_operation_facts elim: outside_mono)
  have vis2: "vis (reopened (eng s) (store s2)) (host s2) = vis (eng s) (host s2)"
    using project_engine_reopened [OF ps] stored_tombstones_same [OF rows] by simp
  have "vis (eng s) (host s2) = vis (eng s) h1 \<or> (\<exists>x. X x \<and> vis (eng s) (host s2) = (vis (eng s) h1)(d := Some x))"
    using settled
  proof (elim disjE exE)
    assume "settled_old T ?W h1 (store s) (host s2) (store s2)"
    then show ?thesis
      using vis_kept [OF _ apart(1)] upper_litter_apart(2) [OF W tree, of _ d]
      by (auto simp: settled_old_def)
  next
    fix n assume n: "staged n \<and> settled_new e ?op T ?W h1 (store s) (eng s) d [] n (host s2) (store s2)"
    then have "outside (insert (upper_dir (eng s) @ d) (litter T ?W)) h1 (host s2)" "get (host s2) (upper_dir (eng s) @ d) = Some n"
      using kind(2) by (auto simp: settled_new_def changed_paths_def staged_operation_facts)
    from vis_replaced [OF this(1) apart(2) this(2)] n staged [of n] upper old not_dir_leaf show ?thesis by auto
  qed
  then have V: "vis (reopened (eng s) (store s2)) (host s2) = vis (eng s) h1 \<or>
      (\<exists>x. X x \<and> vis (reopened (eng s) (store s2)) (host s2) = (vis (eng s) h1)(d := Some x))"
    unfolding vis2 .
  show "\<exists>en' t. restart e' root T (eng s) ?s = (Ok en', t) \<and> project_engine T (t\<lparr>eng := en'\<rparr>) \<and>
      (vis en' (host t) = vis (eng s) h1 \<or> (\<exists>x. X x \<and> vis en' (host t) = (vis (eng s) h1)(d := Some x)))"
    by (rule restarted [OF ps run st c out, where V = "\<lambda>v. v = vis (eng s) h1 \<or> (\<exists>x. X x \<and> v = (vis (eng s) h1)(d := Some x))"])
      (use d(2) V in \<open>auto simp: strict_prefix_def\<close>)
qed

text \<open>The program of most operations: copy-up, then the publication of a staged entry.\<close>

context preparing
begin

lemma changes_entry_outcome:
  assumes ps: "project_engine T s" and pl: "plain_path (eng s) (host s) d" and d: "clean d" "d \<noteq> []"
    and kind: "staged_filesystem_operation k" "k \<noteq> ''rename''"
    and ready: "\<And>h1 h en. copied_up e (eng s) (host s) d h1 \<Longrightarrow> outside {recovery_dir (eng s)} h1 h \<Longrightarrow>
      dir_at h (recovery_dir (eng s)) \<Longrightarrow> same_engine en (eng s) \<Longrightarrow> ready h en (stage_of (eng s) (store s))"
    and old: "\<And>n0. get (host s) (upper_dir (eng s) @ d) = Some n0 \<Longrightarrow> \<not> is_dir n0"
    and staged: "\<And>n. staged n \<Longrightarrow> leaf n \<and> X (abstr n) \<and> replaceable n (get (host s) (upper_dir (eng s) @ d))"
  shows "changes_entry e T d X s
    (bnd (create_missing_upper_parent_directories e (unsegs d))
      (\<lambda>_. publish_staged_operation e (staged_operation (eng s) k (unsegs d)) prepare) s)"
proof -
  let ?en = "eng s" and ?h = "host s" and ?st = "store s" and ?op = "staged_operation (eng s) k (unsegs d)"
  have lay: "layout ?en ?h" and fresh: "get ?h (stage_of ?en ?st) = None" using ps by (auto simp: project_engine_def intro: stages_freeD)
  have dest: "dest_of ?op = unsegs d" using kind(2) by (simp add: dest_of_def staged_operation_facts)
  have rep: "replaceable n (get ?h (upper_dir ?en @ d))" if "staged n" for n using staged [OF that] by simp
  have new: "same_view e d (vis ?en ?h) (vis ?en h1) \<and> (\<exists>x. X x \<and> vis ?en h2 = (vis ?en h1)(d := Some x))"
    if "copied_up e ?en ?h d h1" "staged n" "entry_published h1 ?en (stage_of ?en ?st) d n h2" for h1 n h2
  proof -
    have "vis ?en h2 = (vis ?en h1)(d := Some (abstr n))"
      using that staged [OF that(2)] copied_up_upper_leaf [OF that(1) old] old not_dir_leaf
      by (intro vis_replaced [OF _ apart_recovery(2) [OF copied_up_layout [OF lay that(1)]]])
        (auto simp: entry_published_def)
    then show ?thesis using staged [OF that(2)] copied_up_vis [OF lay that(1)] by blast
  qed
  have kept: "same_view e d (vis ?en ?h) (vis ?en h1) \<and> vis ?en h2 = vis ?en h1"
    if "copied_up e ?en ?h d h1" "untouched h1 ?en h2" for h1 h2
  proof -
    have "outside {recovery_dir ?en} h1 h2" using that(2) by (simp add: untouched_def)
    from outside_vis [OF copied_up_layout [OF lay that(1)] this] copied_up_vis [OF lay that(1)] show ?thesis by blast
  qed
  have "outcome (\<lambda>a t. changes_entry e T d X s (Ok a, t)) (\<lambda>err t. changes_entry e T d X s (Err err, t :: machine))
      (\<lambda>f t. changes_entry e T d X s (Halt f, t))
      (bnd (create_missing_upper_parent_directories e (unsegs d)) (\<lambda>_. publish_staged_operation e ?op prepare) s)"
  proof (rule outcome_mono [OF hoareD [OF copy_up_and_publish
        [OF lay pl d dest _ fresh ready old rep, where F = False]]])
    fix a t assume "holds False (\<lambda>h st en. a = returned \<and>
       (\<exists>h1 n. copied_up e ?en ?h d h1 \<and> staged n \<and> publication_done ?op h1 ?en (stage_of ?en ?st) d [] n h) \<and>
       st = finished_store e (as_published ?op ?st) (journaled_publishing ?op ?st) \<and>
       same_engine en (?en\<lparr>tombstones := apply_tombstones ?op (tombstones ?en)\<rparr>)) t"
    then obtain h1 n where t: "copied_up e ?en ?h d h1" "staged n" "publication_done ?op h1 ?en (stage_of ?en ?st) d [] n (host t)"
      "store t = finished_store e (as_published ?op ?st) (journaled_publishing ?op ?st)"
      "same_engine (eng t) (?en\<lparr>tombstones := apply_tombstones ?op (tombstones ?en)\<rparr>)"
      by (auto simp: holds_def)
    then have pub: "entry_published h1 ?en (stage_of ?en ?st) d n (host t)" and en: "same_engine (eng t) ?en"
      using kind(2) by (auto simp: publication_done_def staged_operation_facts)
    have "project_engine T t"
      by (rule published_ready [OF ps t(1) d(2) _ t(3-5)])
        (use ps kind(2) in \<open>auto simp: staged_operation_facts project_engine_def sql_load_workspace_tombstones_def\<close>)
    moreover have "inside s t" by (rule copied_up_inside [OF lay t(1) publication_done_outside [OF t(3)]]) auto
    ultimately show "changes_entry e T d X s (Ok a, t)"
      using new [OF t(1,2) pub] same_engine_vis [OF en, of "host t"] changes_entry_Ok by metis
  next
    fix err t assume "holds False (\<lambda>h st en. (False \<longrightarrow> (\<exists>q. strict_prefix q d \<and> \<not> shows_dir ?en ?h q)) \<and> same_engine en ?en \<and>
       (\<exists>h1. copied_up e ?en ?h d h1 \<and> half_done ?op h1 ?en (stage_of ?en ?st) d [] staged h)) t"
    then obtain h1 where h1: "copied_up e ?en ?h d h1" "same_engine (eng t) ?en"
      and half: "half_done ?op h1 ?en (stage_of ?en ?st) d [] staged (host t)"
      by (auto simp: holds_def)
    have ins: "inside s t" by (rule copied_up_inside [OF lay h1(1) half_done_outside [OF half]]) auto
    have image: "untouched h1 ?en (host t) \<or> (\<exists>n. staged n \<and> entry_published h1 ?en (stage_of ?en ?st) d n (host t))"
      using half kind(2) by (auto simp: half_done_def staged_operation_facts)
    have v: "vis (eng t) (host t) = vis ?en (host t)" by (rule same_engine_vis [OF h1(2)])
    have "vis (eng t) (host t) = vis ?en h1 \<or> (\<exists>x. X x \<and> vis (eng t) (host t) = (vis ?en h1)(d := Some x))"
      using image unfolding v
    proof (elim disjE exE conjE)
      assume "untouched h1 ?en (host t)"
      from kept [OF h1(1) this] show "vis ?en (host t) = vis ?en h1 \<or> (\<exists>x. X x \<and> vis ?en (host t) = (vis ?en h1)(d := Some x))" by blast
    next
      fix n assume "staged n" "entry_published h1 ?en (stage_of ?en ?st) d n (host t)"
      from new [OF h1(1) this] show "vis ?en (host t) = vis ?en h1 \<or> (\<exists>x. X x \<and> vis ?en (host t) = (vis ?en h1)(d := Some x))" by blast
    qed
    then show "changes_entry e T d X s (Err err, t)"
      by (rule changes_entry_Err [OF ins copied_up_vis [OF lay h1(1)]])
  next
    fix f t assume "holds False (\<lambda>h st en. tribios_failpoint e \<noteq> None \<and>
       (\<exists>h1. copied_up e ?en ?h d h1 \<and> publishable ?op h1 ?st ?en d [] \<and> crash_image e ?op h1 ?st ?en d [] staged h st)) t"
    then obtain h1 where h1: "copied_up e ?en ?h d h1" "publishable ?op h1 ?st ?en d []"
      "crash_image e ?op h1 ?st ?en d [] staged (host t) (store t)"
      by (auto simp: holds_def)
    have "inside s t" by (rule copied_up_inside [OF lay h1(1) crash_image_outside [OF h1(3)]]) auto
    then show "changes_entry e T d X s (Halt f, t)"
      by (rule changes_entry_Halt [OF _ copied_up_vis [OF lay h1(1)] crash_recovers_to [OF ps d kind h1 staged old]])
  qed (use kind(2) in \<open>auto simp: staged_operation_facts holds_def\<close>)
  then show ?thesis by (rule outcome_cases) simp_all
qed

text \<open>Without faults, failpoints and missing directories it returns.\<close>

lemma copy_up_and_publish_returns:
  assumes ps: "project_engine T s" and pl: "plain_path (eng s) (host s) d" and d: "clean d" "d \<noteq> []"
    and kind: "k \<noteq> ''rename''"
    and ready: "\<And>h1 h en. copied_up e (eng s) (host s) d h1 \<Longrightarrow> outside {recovery_dir (eng s)} h1 h \<Longrightarrow>
      dir_at h (recovery_dir (eng s)) \<Longrightarrow> same_engine en (eng s) \<Longrightarrow> ready h en (stage_of (eng s) (store s))"
    and old: "\<And>n0. get (host s) (upper_dir (eng s) @ d) = Some n0 \<Longrightarrow> \<not> is_dir n0"
    and rep: "\<And>n. staged n \<Longrightarrow> replaceable n (get (host s) (upper_dir (eng s) @ d))"
    and calm: "faults s = []" "tribios_io_fault e = None" "tribios_failpoint e = None"
    and dirs: "\<And>q. strict_prefix q d \<Longrightarrow> shows_dir (eng s) (host s) q"
  shows "\<exists>t. bnd (create_missing_upper_parent_directories e (unsegs d))
      (\<lambda>_. publish_staged_operation e (staged_operation (eng s) k (unsegs d)) prepare) s = (Ok returned, t) \<and>
    faults t = []"
proof -
  let ?op = "staged_operation (eng s) k (unsegs d)"
  have lay: "layout (eng s) (host s)" and fresh: "get (host s) (stage_of (eng s) (store s)) = None"
    using ps by (auto simp: project_engine_def intro: stages_freeD)
  have dest: "dest_of ?op = unsegs d" using kind by (simp add: dest_of_def staged_operation_facts)
  have op: "op_kind ?op \<noteq> ''rename''" using kind by (simp add: staged_operation_facts)
  have "outcome (\<lambda>a t. a = returned \<and> faults t = []) (\<lambda>_ _. False) (\<lambda>_ _. False)
      (bnd (create_missing_upper_parent_directories e (unsegs d)) (\<lambda>_. publish_staged_operation e ?op prepare) s)"
    by (rule outcome_mono [OF hoareD [OF copy_up_and_publish [OF lay pl d dest op fresh ready old rep, where F = True]]])
      (use calm dirs in \<open>auto simp: holds_def\<close>)
  then show ?thesis by (rule outcome_cases) auto
qed

end

end
