(* ===== verification/Operations.thy ===== *)
theory Operations
  imports View_Change
begin

text \<open>
  The mutations of the engine as changes of the view: what each of them leaves when it returns, when
  it fails, and after a process exit in its middle; and that it returns when nothing fails.
\<close>

section \<open>Lookup at the start of an operation\<close>

lemma plain_pathD: "plain_path en h p \<Longrightarrow> plain en h p"
  by (simp add: plain_path_def)

lemma project_find_layer:
  "project_engine T s \<Longrightarrow> plain_path (eng s) (host s) p \<Longrightarrow> clean p \<Longrightarrow>
   find_visible_entry_layer (unsegs p) s = layer_at (eng s) (host s) p"
  by (rule find_layer) (auto simp: project_engine_def plain_pathD)

lemma same_view_refl: "same_view e d v v"
  by (simp add: same_view_def)

lemma refused_changes_entry: "changes_entry e T d X s (Err err, s)"
  by (rule changes_entry_Err [OF _ same_view_refl]) simp_all

lemma missing_upper: "layer_at en h p = Missing \<Longrightarrow> get h (upper_dir en @ p) = None"
  by (auto simp: layer_at_def split: option.splits)

lemma layer_upper_node: "get h (upper_dir en @ p) = Some n \<Longrightarrow> layer_at en h p = Upper n"
  by (simp add: layer_at_def)

lemma replaceable_None [simp]: "replaceable n None"
  by (simp add: replaceable_def)

lemma replaceable_leaf: "\<not> is_dir n \<Longrightarrow> (\<And>n0. old = Some n0 \<Longrightarrow> \<not> is_dir n0) \<Longrightarrow> replaceable n old"
  by (auto simp: replaceable_def split: option.splits node.splits)

lemma run_gets_bnd: "bnd (gets g) k s = k (g s) s"
  by (simp add: prog_defs)

section \<open>New entries\<close>

definition fresh_file :: "env \<Rightarrow> perm \<Rightarrow> entry" where
  "fresh_file e mode = VFile (and mode (not (umask e))) []"

definition fresh_dir :: "env \<Rightarrow> perm \<Rightarrow> entry" where
  "fresh_dir e mode = VDir (and mode (not (umask e)))"

lemma staged_new:
  assumes "clean p" "p \<noteq> []" "normalize_relative path = unsegs p" "project_engine T s" "plain_path (eng s) (host s) p"
  shows "create e path mode s = (if layer_at (eng s) (host s) p \<noteq> Missing then (Err EEXIST, s)
      else bnd (create_missing_upper_parent_directories e (unsegs p))
             (\<lambda>_. publish_staged_operation e (staged_operation (eng s) ''create'' (unsegs p))
                (\<lambda>stage. sys_create_file e stage mode)) s)"
    and "mkdir e path mode s = (if layer_at (eng s) (host s) p \<noteq> Missing then (Err EEXIST, s)
      else bnd (create_missing_upper_parent_directories e (unsegs p))
             (\<lambda>_. publish_staged_operation e (staged_operation (eng s) ''mkdir'' (unsegs p))
                (\<lambda>stage. sys_mkdir e stage mode)) s)"
    and "symlink e target path s = (if layer_at (eng s) (host s) p \<noteq> Missing then (Err EEXIST, s)
      else bnd (create_missing_upper_parent_directories e (unsegs p))
             (\<lambda>_. publish_staged_operation e (staged_operation (eng s) ''symlink'' (unsegs p))
                (\<lambda>stage. sys_symlink e target stage)) s)"
  using assms
  by (simp_all add: create_def mkdir_def symlink_def run_gets_bnd project_find_layer prog_defs Let_def)

lemma create_changes_entry:
  assumes "project_engine T s" "plain_path (eng s) (host s) p" "clean p" "p \<noteq> []" "normalize_relative path = unsegs p"
  shows "changes_entry e T p (\<lambda>x. x = fresh_file e mode) s (create e path mode s)"
proof (cases "layer_at (eng s) (host s) p = Missing")
  case True
  have "changes_entry e T p (\<lambda>x. x = fresh_file e mode) s
      (bnd (create_missing_upper_parent_directories e (unsegs p))
        (\<lambda>_. publish_staged_operation e (staged_operation (eng s) ''create'' (unsegs p))
          (\<lambda>stage. sys_create_file e stage mode)) s)"
    by (rule create_stage.changes_entry_outcome [OF assms(1-4)])
      (auto simp: missing_upper [OF True] staged_filesystem_operation_def leaf_def fresh_file_def)
  with True show ?thesis by (simp add: staged_new(1) [OF assms(3-5,1,2)])
qed (simp add: staged_new(1) [OF assms(3-5,1,2)] refused_changes_entry)

text \<open>C11: A \<open>create\<close> changes one entry of the view, to an empty file with the mode that the umask leaves, and this
  holds when it returns, after every error (the old view or the new one) and after a process exit followed by recovery.\<close>
theorem create_is_atomic:
  assumes "project_engine T s" "plain_path (eng s) (host s) p" "clean p" "p \<noteq> []" "normalize_relative path = unsegs p"
  shows "changes_entry e T p (\<lambda>x. x = fresh_file e mode) s (create e path mode s)"
  using assms by (rule create_changes_entry)

text \<open>Nothing fails: no fault is to come, none is injected, and no failpoint is selected.\<close>

definition calm :: "env \<Rightarrow> machine \<Rightarrow> bool" where
  "calm e s \<longleftrightarrow> faults s = [] \<and> tribios_io_fault e = None \<and> tribios_failpoint e = None"

definition under_shown_dirs :: "machine \<Rightarrow> path \<Rightarrow> bool" where
  "under_shown_dirs s p \<longleftrightarrow> (\<forall>q. strict_prefix q p \<longrightarrow> shows_dir (eng s) (host s) q)"

text \<open>C12: When nothing fails, a \<open>create\<close> of a path that shows no entry, below directories that the
  view shows, returns successfully and the path then shows the new file.\<close>
theorem create_returns:
  assumes "project_engine T s" "plain_path (eng s) (host s) p" "clean p" "p \<noteq> []" "normalize_relative path = unsegs p"
    and "calm e s" "under_shown_dirs s p" "vis (eng s) (host s) p = None"
  shows "case create e path mode s of
    (Ok _, t) \<Rightarrow> vis (eng t) (host t) p = Some (fresh_file e mode)
  | _ \<Rightarrow> False"
proof -
  have missing: "layer_at (eng s) (host s) p = Missing" using assms(8) by (simp add: vis_None)
  have "\<exists>t. bnd (create_missing_upper_parent_directories e (unsegs p))
      (\<lambda>_. publish_staged_operation e (staged_operation (eng s) ''create'' (unsegs p))
        (\<lambda>stage. sys_create_file e stage mode)) s = (Ok (), t) \<and> faults t = []"
    by (rule create_stage.copy_up_and_publish_returns [OF assms(1-4)])
      (use assms(6,7) in \<open>auto simp: missing_upper [OF missing] calm_def under_shown_dirs_def\<close>)
  then obtain t where t: "create e path mode s = (Ok (), t)"
    using missing by (auto simp: staged_new(1) [OF assms(3-5,1,2)])
  from create_changes_entry [OF assms(1-5), of e mode] show ?thesis
    by (auto simp: t changes_entry_def)
qed

lemma mkdir_changes_entry:
  assumes "project_engine T s" "plain_path (eng s) (host s) p" "clean p" "p \<noteq> []" "normalize_relative path = unsegs p"
  shows "changes_entry e T p (\<lambda>x. x = fresh_dir e mode) s (mkdir e path mode s)"
proof (cases "layer_at (eng s) (host s) p = Missing")
  case True
  have "changes_entry e T p (\<lambda>x. x = fresh_dir e mode) s
      (bnd (create_missing_upper_parent_directories e (unsegs p))
        (\<lambda>_. publish_staged_operation e (staged_operation (eng s) ''mkdir'' (unsegs p))
          (\<lambda>stage. sys_mkdir e stage mode)) s)"
    by (rule mkdir_stage.changes_entry_outcome [OF assms(1-4)])
      (auto simp: missing_upper [OF True] staged_filesystem_operation_def leaf_def fresh_dir_def)
  with True show ?thesis by (simp add: staged_new(2) [OF assms(3-5,1,2)])
qed (simp add: staged_new(2) [OF assms(3-5,1,2)] refused_changes_entry)

text \<open>C13: A \<open>mkdir\<close> changes one entry of the view, to an empty directory with the mode
  that the umask leaves, whatever the call returns and across a process exit.\<close>
theorem mkdir_is_atomic:
  assumes "project_engine T s" "plain_path (eng s) (host s) p" "clean p" "p \<noteq> []" "normalize_relative path = unsegs p"
  shows "changes_entry e T p (\<lambda>x. x = fresh_dir e mode) s (mkdir e path mode s)"
  using assms by (rule mkdir_changes_entry)

lemma symlink_changes_entry:
  assumes "project_engine T s" "plain_path (eng s) (host s) p" "clean p" "p \<noteq> []" "normalize_relative path = unsegs p"
    and "target \<noteq> []"
  shows "changes_entry e T p (\<lambda>x. x = VLink target) s (symlink e target path s)"
proof (cases "layer_at (eng s) (host s) p = Missing")
  case True
  have "changes_entry e T p (\<lambda>x. x = VLink target) s
      (bnd (create_missing_upper_parent_directories e (unsegs p))
        (\<lambda>_. publish_staged_operation e (staged_operation (eng s) ''symlink'' (unsegs p))
          (\<lambda>stage. sys_symlink e target stage)) s)"
    by (rule symlink_stage.changes_entry_outcome [OF assms(1-4)])
      (use assms(6) in \<open>auto simp: missing_upper [OF True] staged_filesystem_operation_def leaf_def\<close>)
  with True show ?thesis by (simp add: staged_new(3) [OF assms(3-5,1,2)])
qed (simp add: staged_new(3) [OF assms(3-5,1,2)] refused_changes_entry)

text \<open>C14: A \<open>symlink\<close> changes one entry of the view, to a link with the given target,
  whatever the call returns and across a process exit.\<close>
theorem symlink_is_atomic:
  assumes "project_engine T s" "plain_path (eng s) (host s) p" "clean p" "p \<noteq> []" "normalize_relative path = unsegs p"
    and "target \<noteq> []"
  shows "changes_entry e T p (\<lambda>x. x = VLink target) s (symlink e target path s)"
  using assms by (rule symlink_changes_entry)

section \<open>Existing files\<close>

text \<open>The entry is a regular file, in either layer.\<close>

definition file_in_view :: "machine \<Rightarrow> path \<Rightarrow> perm \<Rightarrow> string \<Rightarrow> bool" where
  "file_in_view s p pm c \<longleftrightarrow> vis (eng s) (host s) p = Some (VFile pm c)"

lemma file_layer:
  assumes "vis en h p = Some (VFile pm c)"
  shows "\<exists>sm. layer_node (layer_at en h p) = Some (File sm c) \<and> perm sm = pm"
  using assms layer_at_vis [of en h p]
  by (cases "layer_node (layer_at en h p)") (auto simp: abstr_def split: node.splits)

lemma file_is_ready:
  assumes lay: "layout en0 h0" and pl: "plain en0 h0 p" and p: "clean p" and seen: "vis en0 h0 p = Some (VFile pm c)"
    and c: "copied_up e en0 h0 d h1" and out: "outside {recovery_dir en0} h1 h" and R: "dir_at h (recovery_dir en0)"
    and en: "same_engine en en0"
  shows "file_at en0 p (layer_at en0 h0 p) pm c h en stage"
proof -
  have lay1: "layout en0 h1" and pl1: "plain en0 h1 p" by (rule copied_up_layout [OF lay c], rule copied_up_plain [OF lay c pl])
  have layer1: "layer_at en0 h1 p = layer_at en0 h0 p"
    using file_layer [OF seen] by (intro copied_up_layer [OF lay c]) auto
  have same: "same_entry (get h1 (upper_dir en0 @ q)) (get h (upper_dir en0 @ q))"
      "same_entry (get h1 (base_dir en0 @ q)) (get h (base_dir en0 @ q))" for q
    using outside_same [OF out] layout_apart [OF lay1] by auto
  have "layout en0 h" by (rule outside_layout [OF lay1 out]) (use R in auto)
  moreover have "plain en0 h p"
    using pl1 same_entry_link [OF same(1)] same_entry_link [OF same(2)] by (simp add: plain_def no_link_def)
  moreover have "layer_at en0 h p = layer_at en0 h1 p"
  proof -
    have "\<not> is_dir n" if "layer_node (layer_at en0 h1 p) = Some n" for n
      using that file_layer [OF seen] layer1 by auto
    with same(1) [of p] same(2) [of p] show ?thesis
      by (elim same_entry_cases) (auto simp: layer_at_def split: if_splits)
  qed
  moreover have "layout en h = layout en0 h" "plain en h p = plain en0 h p" "layer_at en h p = layer_at en0 h p"
    using same_engineD [OF en] by (simp_all add: layout_def plain_def layer_at_def split: option.split)
  ultimately show ?thesis
    using file_layer [OF seen] en p layer1 by (simp add: file_at_def entry_at_def)
qed

lemma file_upper_old:
  assumes "vis en h p = Some (VFile pm c)" "get h (upper_dir en @ p) = Some n0"
  shows "\<not> is_dir n0"
  using assms by (cases n0) (auto simp: vis_def)

lemma file_not_root: "layout en h \<Longrightarrow> vis en h p = Some (VFile pm c) \<Longrightarrow> p \<noteq> []"
  by (auto simp: vis_def abstr_def layout_def dir_at_def split: option.splits node.splits)

lemma staged_edit:
  assumes "clean p" "normalize_relative path = unsegs p" "project_engine T s" "plain_path (eng s) (host s) p"
    "vis (eng s) (host s) p = Some (VFile pm c)"
  shows "chmod e path mode s = bnd (create_missing_upper_parent_directories e (unsegs p))
           (\<lambda>_. publish_staged_operation e (staged_operation (eng s) ''chmod'' (unsegs p))
             (\<lambda>stage. bnd (materialize_visible_entry_at e (unsegs p) stage) (\<lambda>_. sys_chmod stage mode))) s"
    and "Workspace_Engine.truncate e path new_size s = bnd (create_missing_upper_parent_directories e (unsegs p))
           (\<lambda>_. publish_staged_operation e (staged_operation (eng s) ''truncate'' (unsegs p))
             (\<lambda>stage. bnd (materialize_visible_entry_at e (unsegs p) stage) (\<lambda>_. sys_truncate stage new_size))) s"
    and "utimens e path a t s = bnd (create_missing_upper_parent_directories e (unsegs p))
           (\<lambda>_. publish_staged_operation e (staged_operation (eng s) ''utimens'' (unsegs p))
             (\<lambda>stage. bnd (materialize_visible_entry_at e (unsegs p) stage) (\<lambda>_. sys_utimes stage a t))) s"
proof -
  obtain sm where "layer_node (layer_at (eng s) (host s) p) = Some (File sm c)"
    using file_layer [OF assms(5)] by blast
  then show "chmod e path mode s = bnd (create_missing_upper_parent_directories e (unsegs p))
           (\<lambda>_. publish_staged_operation e (staged_operation (eng s) ''chmod'' (unsegs p))
             (\<lambda>stage. bnd (materialize_visible_entry_at e (unsegs p) stage) (\<lambda>_. sys_chmod stage mode))) s"
    and "Workspace_Engine.truncate e path new_size s = bnd (create_missing_upper_parent_directories e (unsegs p))
           (\<lambda>_. publish_staged_operation e (staged_operation (eng s) ''truncate'' (unsegs p))
             (\<lambda>stage. bnd (materialize_visible_entry_at e (unsegs p) stage) (\<lambda>_. sys_truncate stage new_size))) s"
    and "utimens e path a t s = bnd (create_missing_upper_parent_directories e (unsegs p))
           (\<lambda>_. publish_staged_operation e (staged_operation (eng s) ''utimens'' (unsegs p))
             (\<lambda>stage. bnd (materialize_visible_entry_at e (unsegs p) stage) (\<lambda>_. sys_utimes stage a t))) s"
    using assms(2) project_find_layer [OF assms(3,4,1)]
    by (cases "layer_at (eng s) (host s) p"; simp add: chmod_def Workspace_Engine.truncate_def utimens_def run_gets_bnd Let_def)+
qed

lemma chmod_changes_entry:
  assumes "project_engine T s" "plain_path (eng s) (host s) p" "clean p" "normalize_relative path = unsegs p"
    and seen: "file_in_view s p pm c"
  shows "changes_entry e T p (\<lambda>x. x = VFile mode c) s (chmod e path mode s)"
proof -
  have v: "vis (eng s) (host s) p = Some (VFile pm c)" and lay: "layout (eng s) (host s)"
    using seen assms(1) by (simp_all add: file_in_view_def project_engine_def)
  note ready = file_is_ready [OF lay plain_pathD [OF assms(2)] assms(3) v]
  show ?thesis
    unfolding staged_edit(1) [OF assms(3,4,1,2) v]
    by (rule chmod_stage.changes_entry_outcome [OF assms(1-3) file_not_root [OF lay v] _ _ ready])
      (auto simp: staged_filesystem_operation_def leaf_def intro!: replaceable_leaf dest: file_upper_old [OF v])
qed

text \<open>C15: A \<open>chmod\<close> of a file changes its mode bits and nothing else of the view: not its
  content, and no other entry.\<close>
theorem chmod_is_atomic:
  assumes "project_engine T s" "plain_path (eng s) (host s) p" "clean p" "normalize_relative path = unsegs p"
    and seen: "file_in_view s p pm c"
  shows "changes_entry e T p (\<lambda>x. x = VFile mode c) s (chmod e path mode s)"
  using assms by (rule chmod_changes_entry)

lemma truncate_changes_entry:
  assumes "project_engine T s" "plain_path (eng s) (host s) p" "clean p" "normalize_relative path = unsegs p"
    and seen: "file_in_view s p pm c" and size: "0 \<le> sint new_size"
  shows "changes_entry e T p (\<lambda>x. x = VFile pm (resized (unat new_size) c)) s (Workspace_Engine.truncate e path new_size s)"
proof -
  have v: "vis (eng s) (host s) p = Some (VFile pm c)" and lay: "layout (eng s) (host s)"
    using seen assms(1) by (simp_all add: file_in_view_def project_engine_def)
  note ready = conjI [OF file_is_ready [OF lay plain_pathD [OF assms(2)] assms(3) v] size]
  show ?thesis
    unfolding staged_edit(2) [OF assms(3,4,1,2) v]
    by (rule truncate_stage.changes_entry_outcome [OF assms(1-3) file_not_root [OF lay v] _ _ ready])
      (auto simp: staged_filesystem_operation_def leaf_def intro!: replaceable_leaf dest: file_upper_old [OF v])
qed

text \<open>C16: A \<open>truncate\<close> of a file changes its content to the given size, cut or filled
  with NUL bytes, and nothing else of the view.\<close>
theorem truncate_is_atomic:
  assumes "project_engine T s" "plain_path (eng s) (host s) p" "clean p" "normalize_relative path = unsegs p"
    and seen: "file_in_view s p pm c" and size: "0 \<le> sint new_size"
  shows "changes_entry e T p (\<lambda>x. x = VFile pm (resized (unat new_size) c)) s (Workspace_Engine.truncate e path new_size s)"
  using assms by (rule truncate_changes_entry)

lemma utimens_changes_entry:
  assumes "project_engine T s" "plain_path (eng s) (host s) p" "clean p" "normalize_relative path = unsegs p"
    and seen: "file_in_view s p pm c"
  shows "changes_entry e T p (\<lambda>x. x = VFile pm c) s (utimens e path a t s)"
proof -
  have v: "vis (eng s) (host s) p = Some (VFile pm c)" and lay: "layout (eng s) (host s)"
    using seen assms(1) by (simp_all add: file_in_view_def project_engine_def)
  note ready = file_is_ready [OF lay plain_pathD [OF assms(2)] assms(3) v]
  show ?thesis
    unfolding staged_edit(3) [OF assms(3,4,1,2) v]
    by (rule utimens_stage.changes_entry_outcome [OF assms(1-3) file_not_root [OF lay v] _ _ ready])
      (auto simp: staged_filesystem_operation_def leaf_def intro!: replaceable_leaf dest: file_upper_old [OF v])
qed

text \<open>C17: Setting the times of a file changes neither its content nor its mode nor any other entry,
  even when the file must first be copied up.\<close>
theorem utimens_is_atomic:
  assumes "project_engine T s" "plain_path (eng s) (host s) p" "clean p" "normalize_relative path = unsegs p"
    and seen: "file_in_view s p pm c"
  shows "changes_entry e T p (\<lambda>x. x = VFile pm c) s (utimens e path a t s)"
  using assms by (rule utimens_changes_entry)

section \<open>A write through an open file\<close>

text \<open>What follows a publication without touching the storage keeps its outcome.\<close>

definition quiet :: "('e, 'a) res \<times> machine \<Rightarrow> machine \<Rightarrow> bool" where
  "quiet r t \<longleftrightarrow> (\<forall>f. fst r \<noteq> Halt f) \<and> host (snd r) = host t \<and> store (snd r) = store t \<and>
     workspace (eng (snd r)) = workspace (eng t) \<and> upper_dir (eng (snd r)) = upper_dir (eng t) \<and>
     base_dir (eng (snd r)) = base_dir (eng t) \<and> tombstones (eng (snd r)) = tombstones (eng t)"

lemma project_engine_cong:
  assumes "project_engine T t" "host t' = host t" "store t' = store t"
    and "workspace (eng t') = workspace (eng t)" "upper_dir (eng t') = upper_dir (eng t)"
      "base_dir (eng t') = base_dir (eng t)" "tombstones (eng t') = tombstones (eng t)"
  shows "project_engine T t'"
proof -
  have dirs: "workspace_dir (eng t') = workspace_dir (eng t)" "recovery_dir (eng t') = recovery_dir (eng t)"
    using assms(5) by (simp_all add: workspace_dir_def recovery_dir_def)
  from assms(1) show ?thesis
    unfolding project_engine_def layout_def housed_def stages_free_def stage_path_def assms(2-) dirs .
qed

lemma changes_entry_then:
  assumes "changes_entry e T d X s (m s)" and "\<And>a t. quiet (k a t) t"
  shows "changes_entry e T d X s (bnd m k s)"
proof -
  obtain r t where m: "m s = (r, t)" by (cases "m s")
  have ins: "inside s t" using assms(1) m by (simp add: changes_entry_def)
  show ?thesis
  proof (cases r)
    case (Ok a)
    obtain w x where w: "same_view e d (vis (eng s) (host s)) w" "X x" "vis (eng t) (host t) = w(d := Some x)"
      and ready: "project_engine T t"
      using assms(1) m Ok by (auto simp: changes_entry_def)
    have q: "quiet (k a t) t" by (rule assms(2))
    obtain r' t' where k: "k a t = (r', t')" by (cases "k a t")
    have v: "vis (eng t') (host t') = w(d := Some x)"
      using q k w(3) vis_cong [of "eng t'" "eng t" "host t"] by (simp add: quiet_def)
    have ins': "inside s t'" using ins q k by (simp add: inside_def quiet_def)
    have "project_engine T t'" using q k by (intro project_engine_cong [OF ready]) (simp_all add: quiet_def)
    show ?thesis
    proof (cases r')
      case (Ok b)
      have "changes_entry e T d X s (Ok b, t')"
        by (rule changes_entry_Ok [where X = X and x = x, OF ins' w(1,2) v \<open>project_engine T t'\<close>])
      with m \<open>r = _\<close> k Ok show ?thesis by (simp add: bnd_def)
    next
      case (Err err)
      have "changes_entry e T d X s (Err err, t')"
        by (rule changes_entry_Err [OF ins' w(1)]) (use w(2) v in blast)
      with m \<open>r = _\<close> k Err show ?thesis by (simp add: bnd_def)
    qed (use q k in \<open>auto simp: quiet_def\<close>)
  next
    case (Err err)
    with assms(1) m show ?thesis by (simp add: bnd_def changes_entry_def)
  next
    case (Halt f)
    with assms(1) m show ?thesis by (simp add: bnd_def changes_entry_def)
  qed
qed

lemma quiet_open: "quiet (sys_open p flags t) t"
  by (auto simp: quiet_def sys_open_def prog_defs kernel_call_def from_host_def split: prod.splits sum.splits)

lemma quiet_reopen:
  "quiet (bnd (catch (bnd (sys_open p flags) (\<lambda>n. on_engine (\<lambda>en. en\<lparr>handles := f (Some n) en\<rparr>)))
      (\<lambda>err. bnd (on_engine (\<lambda>en. en\<lparr>handles := f None en\<rparr>)) (\<lambda>_. fail err))) (\<lambda>_. ret a) t) t"
  using quiet_open [of p flags t]
  by (auto simp: quiet_def bnd_def catch_def on_engine_def prog_defs split: prod.splits res.splits)

lemma bnd_assoc: "bnd (bnd m k) l = bnd m (\<lambda>x. bnd (k x) l)"
  by (auto simp: fun_eq_iff prog_defs split: prod.splits res.splits)

text \<open>The bytes a write takes, which a configured short write cuts.\<close>

definition accepted_bytes :: "env \<Rightarrow> string \<Rightarrow> string" where
  "accepted_bytes e buffer = take (injected_short_write_size e (length buffer)) buffer"

lemma write_handle_changes_entry:
  assumes "project_engine T s" "plain_path (eng s) (host s) p" "clean p"
    and handle: "map_of (handles (eng s)) fd = Some opened" "relative opened = unsegs p" "and (handle_flags opened) O_ACCMODE \<noteq> O_RDONLY"
    and seen: "file_in_view s p pm c" and off: "0 \<le> sint offset"
  shows "changes_entry e T p (\<lambda>x. x = VFile pm (pwrite_bytes (unat offset) (accepted_bytes e buffer) c)) s (write_handle e fd buffer offset s)"
proof -
  have v: "vis (eng s) (host s) p = Some (VFile pm c)" and lay: "layout (eng s) (host s)"
    using seen assms(1) by (simp_all add: file_in_view_def project_engine_def)
  note ready = conjI [OF file_is_ready [OF lay plain_pathD [OF assms(2)] assms(3) v] off]
  let ?publish = "bnd (create_missing_upper_parent_directories e (unsegs p))
      (\<lambda>_. publish_staged_operation e (staged_operation (eng s) ''write'' (unsegs p))
        (\<lambda>stage. bnd (materialize_visible_entry_at e (unsegs p) stage) (\<lambda>_. sys_pwrite stage (accepted_bytes e buffer) offset)))"
  have "changes_entry e T p (\<lambda>x. x = VFile pm (pwrite_bytes (unat offset) (accepted_bytes e buffer) c)) s (?publish s)"
    by (rule write_stage.changes_entry_outcome [OF assms(1-3) file_not_root [OF lay v] _ _ ready])
      (auto simp: staged_filesystem_operation_def leaf_def intro!: replaceable_leaf dest: file_upper_old [OF v])
  then show ?thesis
    unfolding write_handle_def run_gets_bnd prod.case handle(1) option.case Let_def if_not_P [OF handle(3)] handle(2)
      bnd_assoc [symmetric] accepted_bytes_def [symmetric]
    by (rule changes_entry_then) (rule quiet_reopen)
qed

text \<open>C18: A write through an open file puts the accepted bytes at the offset of the file the view
  shows and changes no other entry; after an error or a process exit the file is the old or the
  new one, never a mixture.\<close>
theorem write_handle_is_atomic:
  assumes "project_engine T s" "plain_path (eng s) (host s) p" "clean p"
    and handle: "map_of (handles (eng s)) fd = Some opened" "relative opened = unsegs p" "and (handle_flags opened) O_ACCMODE \<noteq> O_RDONLY"
    and seen: "file_in_view s p pm c" and off: "0 \<le> sint offset"
  shows "changes_entry e T p (\<lambda>x. x = VFile pm (pwrite_bytes (unat offset) (accepted_bytes e buffer) c)) s (write_handle e fd buffer offset s)"
  using assms by (rule write_handle_changes_entry)

end
