(* ===== verification/Removal.thy ===== *)
theory Removal
  imports Operations
begin

text \<open>
  \<open>remove_visible_entry_atomically\<close>: the journal is written, the entry leaves the upper tree, and a
  tombstone hides what the Base tree has at its place.
\<close>

section \<open>Removal of an entry without entries below it\<close>

lemma rm_tree_leaf:
  "leaf n \<Longrightarrow> rm_tree n fs = (case next_fault fs of (f, fs') \<Rightarrow> if f \<noteq> 0 then (f, Some n, fs') else (0, None, fs'))"
  by (cases n) (auto simp: leaf_def split: prod.splits)

lemma fs_remove_all_leaf_spec:
  assumes pre: "\<And>h st en. C h st en \<Longrightarrow> clean p \<and> p \<noteq> [] \<and> (\<exists>n. get h p = Some n \<and> leaf n)"
    and D: "\<And>h st en. C h st en \<Longrightarrow> D (put h p None) st en"
  shows "hoare (holds F C) (fs_remove_all p) (\<lambda>_. holds F D) (\<lambda>_. holds F (\<lambda>h st en. C h st en \<and> \<not> F)) H"
proof (rule hoareI)
  fix s assume s: "holds F C s"
  then have "C (host s) (store s) (eng s)" by (simp add: holds_def)
  from pre [OF this] obtain n where n: "get (host s) p = Some n" "leaf n" and p: "clean p" "p \<noteq> []" by blast
  then have r: "resolve (host s) p False = Inr p" using get_parent_dir by (auto intro: resolve_ok)
  obtain f fs where fs: "next_fault (faults s) = (f, fs)" by (cases "next_fault (faults s)")
  have keep: "put (host s) p (Some n) = host s" using put_get [OF p(2), of "host s"] n(1) by simp
  have "fs_remove_all p s = (if f \<noteq> 0 then (Err f, s\<lparr>faults := fs\<rparr>) else (Ok (), s\<lparr>host := put (host s) p None, faults := fs\<rparr>))"
    using n r fs keep by (simp add: fs_remove_all_def rm_tree_leaf)
  moreover have "faults s = [] \<Longrightarrow> f = 0 \<and> fs = []" using fs by simp
  ultimately show "outcome (\<lambda>_. holds F D) (\<lambda>_. holds F (\<lambda>h st en. C h st en \<and> \<not> F)) H (fs_remove_all p s)"
    using s D by (auto simp: holds_def)
qed

section \<open>The operation\<close>

definition removal_operation :: "engine \<Rightarrow> string \<Rightarrow> string \<Rightarrow> bool \<Rightarrow> recovery_operation" where
  "removal_operation en op_name rel hides_base =
     \<lparr>op_id = 0, op_workspace = workspace en, op_kind = op_name, op_path = rel, op_target = [],
      op_phase = Prepared, add_path_tombstone = hides_base, drop_target_tombstones = False\<rparr>"

lemma removal_operation_facts [simp]:
  "op_kind (removal_operation en k r b) = k" "op_path (removal_operation en k r b) = r"
  "op_workspace (removal_operation en k r b) = workspace en" "op_phase (removal_operation en k r b) = Prepared"
  "op_target (removal_operation en k r b) = []" "add_path_tombstone (removal_operation en k r b) = b"
  "drop_target_tombstones (removal_operation en k r b) = False"
  by (simp_all add: removal_operation_def)

text \<open>What the upper tree may hold at the path: nothing, or an entry of the kind of the call without entries below.\<close>

definition removable :: "bool \<Rightarrow> node option \<Rightarrow> bool" where
  "removable directory x \<longleftrightarrow> (case x of None \<Rightarrow> True | Some n \<Rightarrow> leaf n \<and> is_dir n = directory)"

definition base_shows :: "engine \<Rightarrow> node \<Rightarrow> path \<Rightarrow> bool" where
  "base_shows en h p \<longleftrightarrow> \<not> hid (tombstones en) p \<and> get h (base_dir en @ p) \<noteq> None"

definition with_tombstone :: "bool \<Rightarrow> string \<Rightarrow> engine \<Rightarrow> engine" where
  "with_tombstone b rel en = (if b then en\<lparr>tombstones := insert rel (tombstones en)\<rparr> else en)"

definition removal_image ::
  "env \<Rightarrow> recovery_operation \<Rightarrow> path \<Rightarrow> node \<Rightarrow> store \<Rightarrow> node \<Rightarrow> store \<Rightarrow> bool"
where
  "removal_image e op U h0 st0 h st \<longleftrightarrow>
     h = h0 \<and> st = journaled op st0 \<or>
     (h = h0 \<or> h = put h0 U None) \<and> st = journaled_publishing op st0 \<or>
     h = put h0 U None \<and> st = finished_store e (as_published op st0) (journaled_publishing op st0)"

lemma upper_removed_spec:
  assumes U: "clean U" "U \<noteq> []" "direct h0 U" "is_dir h0" and old: "removable directory (get h0 U)"
  shows "hoare (holds F (\<lambda>h st en. h = h0 \<and> st = st2 \<and> same_engine en en0))
    (remove_from_upper e i U directory)
    (\<lambda>_. holds F (\<lambda>h st en. h = put h0 U None \<and> st = st2 \<and> same_engine en en0))
    (\<lambda>_. holds F (\<lambda>h st en. \<not> F \<and> (h = h0 \<or> h = put h0 U None) \<and> same_engine en en0)) H"
    (is "hoare (holds F ?A) _ ?Q ?E H")
proof (cases "get h0 U")
  case None
  show ?thesis
    unfolding remove_from_upper_def
    by (rule hoare_test [where x = False])
      (use None lstat_ok_direct [OF U(1,3,4)] put_missing [OF U(2) None] in \<open>auto simp: holds_def intro!: hoare_ret\<close>)
next
  case (Some n)
  then have n: "leaf n" "is_dir n = directory" using old by (auto simp: removable_def)
  let ?B = "\<lambda>h st en. h = put h0 U None \<and> st = st2 \<and> same_engine en en0"
  have par: "dir_at h0 (butlast U)" using Some U(2) get_parent_dir by blast
  have E: "hoare (holds F (\<lambda>h st en. ?A h st en \<and> \<not> F)) (bnd (attempt (abandon_recovery_operation e i)) (\<lambda>_. fail EIO)) Q ?E H" for Q :: "unit \<Rightarrow> _"
  proof -
    let ?K = "\<lambda>h st en. \<not> F \<and> h = h0 \<and> same_engine en en0"
    have "hoare (holds F ?K) (abandon_recovery_operation e i) (\<lambda>_. holds F ?K) (\<lambda>_. holds F ?K) H"
      by (rule weaken_error [OF abandon_spec [where D = ?K]]) auto
    from hoare_bnd [OF hoare_ignore [OF this] hoare_fail] show ?thesis
      by (rule hoare_conseq) (auto simp: holds_def)
  qed
  have rm: "hoare (holds F ?A) (if directory then fs_remove_all U else fs_remove U) (\<lambda>_. holds F ?B)
      (\<lambda>_. holds F (\<lambda>h st en. ?A h st en \<and> \<not> F)) H"
  proof (rule hoare_if)
    show "hoare (holds F ?A) (fs_remove_all U) (\<lambda>_. holds F ?B) (\<lambda>_. holds F (\<lambda>h st en. ?A h st en \<and> \<not> F)) H"
      by (rule fs_remove_all_leaf_spec) (use U Some n in auto)
    assume "\<not> directory"
    with n Some have "\<not> dir_at h0 U" by (simp add: dir_at_def)
    then show "hoare (holds F ?A) (fs_remove U) (\<lambda>_. holds F ?B) (\<lambda>_. holds F (\<lambda>h st en. ?A h st en \<and> \<not> F)) H"
      by (intro fs_remove_spec) (use U in auto)
  qed
  have sync: "hoare (holds F ?B) (catch (sync_parent_directory U) (\<lambda>_. fail EIO)) ?Q ?E H"
  proof (rule hoare_catch [OF weaken_error [OF sync_parent_spec] hoare_fail])
    fix x h st en assume a: "?B h st en \<and> (F \<longrightarrow> k_opendir h (butlast U) = Inl x)"
    have "strict_prefix (butlast U) U"
      by (metis append_butlast_last_id U(2) prefixI strict_prefix_def not_prefix_butlast)
    then have "dir_at (put h0 U None) (butlast U)" using par dir_at_put_above by blast
    with k_stat_dir [of "butlast U" "put h0 U None"] U(1) a
    show "\<not> F \<and> (h = h0 \<or> h = put h0 U None) \<and> same_engine en en0" by auto
  qed
  have lst: "lstat_ok h0 U" using lstat_ok_direct [OF U(1,3,4)] Some by simp
  show ?thesis
    unfolding remove_from_upper_def
  proof (rule hoare_test [where x = True])
    show "lstat_ok (host s) U = True" if "holds F ?A s" for s using that lst by (auto simp: holds_def)
  qed (simp only: if_True, rule hoare_bnd [OF hoare_catch [OF rm E] sync])
qed


lemma removal_spec:
  fixes k :: string
  assumes lay: "layout en0 h0" and pl: "plain en0 h0 p" and p: "clean p" "p \<noteq> []"
    and old: "removable directory (get h0 (upper_dir en0 @ p))"
  defines "op \<equiv> removal_operation en0 k (unsegs p) (base_shows en0 h0 p)" and "U \<equiv> upper_dir en0 @ p"
  shows "hoare (holds F (\<lambda>h st en. h = h0 \<and> st = st0 \<and> same_engine en en0))
    (remove_visible_entry_atomically e k (unsegs p) directory)
    (\<lambda>_. holds F (\<lambda>h st en. h = put h0 U None \<and> st = finished_store e (as_published op st0) (journaled_publishing op st0) \<and>
       same_engine en (with_tombstone (base_shows en0 h0 p) (unsegs p) en0)))
    (\<lambda>_. holds F (\<lambda>h st en. \<not> F \<and> (h = h0 \<or> h = put h0 U None) \<and> same_engine en en0))
    (\<lambda>_. holds F (\<lambda>h st en. tribios_failpoint e \<noteq> None \<and> removal_image e op U h0 st0 h st))"
    (is "hoare (holds F ?A0) _ ?Q ?E ?H")
proof -
  define i where "i = operation_seq st0 + 1"
  define st1 where "st1 = journaled op st0"
  define st2 where "st2 = journaled_publishing op st0"
  define st3 where "st3 = finished_store e (as_published op st0) st2"
  let ?A1 = "\<lambda>h st en. h = h0 \<and> st = st1 \<and> same_engine en en0"
  let ?A2 = "\<lambda>h st en. h = h0 \<and> st = st2 \<and> same_engine en en0"
  let ?R2 = "\<lambda>h st en. h = put h0 U None \<and> st = st2 \<and> same_engine en en0"
  let ?R3 = "\<lambda>h st en. h = put h0 U None \<and> st = st3 \<and> same_engine en en0"
  let ?G = "\<lambda>h st en. h = put h0 U None \<and> st = st3 \<and> same_engine en (with_tombstone (base_shows en0 h0 p) (unsegs p) en0)"
  have U: "clean U" "U \<noteq> []" "direct h0 U" "is_dir h0"
    using p layout_clean [OF lay] direct_upper [OF lay pl] layout_dirs [OF lay] by (auto simp: U_def)
  have shows_it: "(base_is_visible en (unsegs p) \<and> lstat_ok h0 (base_path en (unsegs p))) = base_shows en0 h0 p"
    if "same_engine en en0" for en
    using same_engineD [OF that] lookup_base(2) [OF lay pl p(1)] p(1)
    by (auto simp: base_shows_def base_is_visible_def hidden_by_tombstone_hid base_path_def)
  have fp: "hoare (holds F C) (trigger_failpoint e name c) (\<lambda>_. holds F C) ?E ?H"
    if "\<And>h st en. C h st en \<Longrightarrow> removal_image e op U h0 st0 h st" for C name c
    by (rule hoare_conseq [OF failpoint_spec [where C = C]]) (use that in \<open>auto simp: holds_def\<close>)
  have fp1: "hoare (holds F ?A1) (trigger_failpoint e name c) (\<lambda>_. holds F ?A1) ?E ?H" for name c
    by (rule fp) (simp add: removal_image_def st1_def)
  have fp2: "hoare (holds F ?A2) (trigger_failpoint e name c) (\<lambda>_. holds F ?A2) ?E ?H" for name c
    by (rule fp) (simp add: removal_image_def st2_def)
  have fp3: "hoare (holds F ?R2) (trigger_failpoint e name c) (\<lambda>_. holds F ?R2) ?E ?H" for name c
    by (rule fp) (simp add: removal_image_def st2_def)
  have fp4: "hoare (holds F ?G) (trigger_failpoint e name c) (\<lambda>_. holds F ?G) ?E ?H" for name c
    by (rule fp) (simp add: removal_image_def st2_def st3_def)
  have journal: "hoare (holds F ?A0) (catch (begin_recovery_operation e op) (\<lambda>_. fail EIO))
      (\<lambda>j. holds F (\<lambda>h st en. ?A1 h st en \<and> j = i)) ?E ?H"
    by (rule hoare_catch [OF weaken_error [OF begin_spec [where D = "\<lambda>j h st en. ?A1 h st en \<and> j = i"]] hoare_fail])
      (auto simp: st1_def i_def journaled_def)
  have ab: "hoare (holds F (\<lambda>h st en. \<not> F \<and> h = h0 \<and> same_engine en en0))
      (bnd (attempt (abandon_recovery_operation e j)) (\<lambda>_. fail EIO)) Q ?E ?H" for j and Q :: "unit \<Rightarrow> _"
    by (rule hoare_bnd [OF hoare_ignore [OF weaken_error [OF abandon_spec]] hoare_fail]) (auto simp: holds_def)
  have phase: "hoare (holds F ?A1) (catch (set_recovery_operation_phase e i Publishing)
        (\<lambda>_. bnd (attempt (abandon_recovery_operation e i)) (\<lambda>_. fail EIO))) (\<lambda>_. holds F ?A2) ?E ?H"
    by (rule hoare_catch [OF weaken_error [OF phase_spec [where D = ?A2]] ab])
      (auto simp: st1_def st2_def i_def journaled_publishing_def)
  have removed: "hoare (holds F ?A2) (remove_from_upper e i U directory) (\<lambda>_. holds F ?R2) ?E ?H"
    by (rule hoare_conseq [OF upper_removed_spec [OF U old [folded U_def], of F st2 en0 e i ?H]]) (auto simp: holds_def)
  have finish: "hoare (holds F ?R2) (catch (finish_recovery_operation e (op\<lparr>op_id := i, op_phase := Publishing\<rparr>)) (\<lambda>_. fail EIO))
      (\<lambda>_. holds F ?R3) ?E ?H"
    by (rule hoare_catch [OF weaken_error [OF finish_spec [where D = ?R3]] hoare_fail])
      (auto simp: st3_def finished_store_def as_published_def i_def)
  have memory: "hoare (holds F ?R3) (if add_path_tombstone op then on_engine (\<lambda>en. en\<lparr>tombstones := insert (unsegs p) (tombstones en)\<rparr>) else ret ())
      (\<lambda>_. holds F ?G) ?E ?H"
    unfolding on_engine_def
    by (auto simp: op_def with_tombstone_def holds_def intro!: hoare_modify hoare_ret intro: same_engine_tombstones)
  have journaled_part: "hoare (holds F (\<lambda>h st en. ?A1 h st en \<and> j = i)) (remove_journaled_entry e en1 (op\<lparr>op_id := j\<rparr>) directory)
      (\<lambda>_. holds F ?G) ?E ?H" if en1: "same_engine en1 en0" for en1 j
  proof (rule hoare_const [where c = "j = i"])
    have up: "upper_path en1 (unsegs p) = U" "op_id (op\<lparr>op_id := i\<rparr>) = i" "op_path (op\<lparr>op_id := i\<rparr>) = unsegs p"
        "add_path_tombstone (op\<lparr>op_id := i\<rparr>) = add_path_tombstone op"
      using same_engineD [OF en1] p by (simp_all add: upper_path_def U_def op_def)
    assume j: "j = i"
    have "hoare (holds F ?A1) (remove_journaled_entry e en1 (op\<lparr>op_id := i\<rparr>) directory) (\<lambda>_. holds F ?G) ?E ?H"
      unfolding remove_journaled_entry_def Let_def up recovery_operation.simps
      by (intro hoare_bnd [OF fp1 hoare_bnd [OF phase hoare_bnd [OF fp2 hoare_bnd [OF removed
            hoare_bnd [OF fp3 hoare_bnd [OF finish hoare_bnd [OF memory fp4]]]]]]])
    then show "hoare (holds F (\<lambda>h st en. ?A1 h st en \<and> j = i)) (remove_journaled_entry e en1 (op\<lparr>op_id := j\<rparr>) directory)
      (\<lambda>_. holds F ?G) ?E ?H"
      unfolding j by (rule hoare_pre) (simp add: holds_def)
  qed (auto simp: holds_def)
  let ?rest = "\<lambda>en1. (let op = \<lparr>op_id = 0, op_workspace = workspace en1, op_kind = k, op_path = unsegs p,
               op_target = [], op_phase = Prepared, add_path_tombstone = base_shows en0 h0 p,
               drop_target_tombstones = False\<rparr>
     in
     bnd (catch (begin_recovery_operation e op) (\<lambda>_. fail EIO)) (\<lambda>i.
     remove_journaled_entry e en1 (op\<lparr>op_id := i\<rparr>) directory))"
  have start: "hoare (\<lambda>s. holds F ?A0 s \<and> en1 = eng s) (?rest en1) (\<lambda>_. holds F ?G) ?E ?H" for en1
  proof (rule hoare_const [where c = "same_engine en1 en0"])
    assume en1: "same_engine en1 en0"
    then have "\<lparr>op_id = 0, op_workspace = workspace en1, op_kind = k, op_path = unsegs p,
               op_target = [], op_phase = Prepared, add_path_tombstone = base_shows en0 h0 p,
               drop_target_tombstones = False\<rparr> = op"
      using same_engineD [OF en1] by (simp add: op_def removal_operation_def)
    then show "hoare (\<lambda>s. holds F ?A0 s \<and> en1 = eng s) (?rest en1) (\<lambda>_. holds F ?G) ?E ?H"
      unfolding Let_def by (simp only:) (rule hoare_pre [OF hoare_bnd [OF journal journaled_part [OF en1]]], simp)
  qed (auto simp: holds_def)
  have forget: "hoare (holds F ?A0) (forget_cached_directory_entries rel) (\<lambda>_. holds F ?A0) ?E ?H" for rel
    by (rule forget_spec) simp
  show ?thesis
    unfolding remove_visible_entry_atomically_def st3_def [symmetric] st2_def [symmetric]
  proof (rule hoare_test [where x = "base_shows en0 h0 p"])
    show "(base_is_visible (eng s) (unsegs p) \<and> lstat_ok (host s) (base_path (eng s) (unsegs p))) = base_shows en0 h0 p"
      if "holds F ?A0 s" for s using that shows_it by (auto simp: holds_def)
  qed (intro hoare_bnd [OF forget] hoare_gets_bnd start)
qed


section \<open>Recovery of a removal\<close>

lemma direct_outside:
  assumes "outside {p} h0 h" "direct h0 p"
  shows "direct h p"
  unfolding direct_def
proof (intro allI impI)
  fix q assume q: "strict_prefix q p"
  then have "same_entry (get h0 q) (get h q)"
    by (intro outside_same [OF assms(1)]) (auto simp: strict_prefix_def dest: prefix_order.antisym)
  with q assms(2) show "case get h q of Some n \<Rightarrow> \<not> is_link n | None \<Rightarrow> True"
    using same_entry_link by (auto simp: direct_def)
qed

lemma is_dir_outside: "outside {p} h0 h \<Longrightarrow> p \<noteq> [] \<Longrightarrow> is_dir h0 \<Longrightarrow> is_dir h"
  using outside_dir [of "{p}" h0 h "[]"] by (simp add: dir_at_def)

lemma strict_prefix_butlast: "p \<noteq> [] \<Longrightarrow> strict_prefix (butlast p) p"
  by (metis append_butlast_last_id prefixI strict_prefix_def not_prefix_butlast)

lemma succeeds_remove:
  assumes "\<And>h st en. P h st en \<Longrightarrow> clean p \<and> p \<noteq> [] \<and> direct h p \<and> is_dir h \<and> \<not> dir_at h p"
    and "\<And>h st en. P h st en \<Longrightarrow> Q (put h p None) st en"
  shows "succeeds P (fs_remove p) (\<lambda>_. Q)"
  by (rule succeeds_intro [OF fs_remove_spec [where D = Q and F = True]]) (use assms in auto)

lemma succeeds_remove_upper_entry:
  assumes U: "clean U" "U \<noteq> []" "direct h0 U" "is_dir h0" and old: "removable directory (get h0 U)"
  shows "succeeds (\<lambda>h st en. (h = h0 \<or> h = put h0 U None) \<and> st = st2) (remove_upper_entry e U directory)
    (\<lambda>_ h st en. h = put h0 U None \<and> st = st2)"
proof -
  let ?A = "\<lambda>h st (en::engine). h = h0 \<and> get h0 U \<noteq> None \<and> st = st2"
  let ?B = "\<lambda>h st (en::engine). h = put h0 U None \<and> st = st2"
  let ?C = "\<lambda>h st (en::engine). ?B h st en \<and> dir_at h (butlast U)"
  have out: "outside {U} h0 (put h0 U None)" by (rule outside_put [where r = U]) auto
  have gone: "\<not> lstat_ok (put h0 U None) U"
    using lstat_ok_direct [OF U(1) direct_outside [OF out U(3)] is_dir_outside [OF out U(2,4)]] gone_after_put [OF U(2)] by simp
  have absent: "succeeds ?B (remove_upper_entry e U directory) (\<lambda>_. ?B)"
    unfolding remove_upper_entry_def
    by (rule succeeds_test [where x = False]) (use gone in \<open>auto simp: holds_def intro: succeeds_ret\<close>)
  have down: "?C (put h st0 None) st en" if "?A h st en" "st0 = U" for h st en st0
  proof -
    have "dir_at h0 (butlast U)" using that(1) get_parent_dir U(2) by blast
    then show ?thesis using that dir_at_put_above [OF strict_prefix_butlast [OF U(2)]] by simp
  qed
  have rm: "succeeds ?A (if directory then fs_remove_all U else fs_remove U) (\<lambda>_. ?C)"
  proof (rule hoare_if)
    show "succeeds ?A (fs_remove_all U) (\<lambda>_. ?C)"
      by (rule succeeds_remove_all) (use U down in auto)
    assume "\<not> directory"
    then have "\<not> dir_at h0 U" using old by (auto simp: removable_def dir_at_def split: option.splits)
    then show "succeeds ?A (fs_remove U) (\<lambda>_. ?C)" by (intro succeeds_remove) (use U down in auto)
  qed
  have sync: "succeeds ?C (sync_parent_directory U) (\<lambda>_. ?B)"
    by (rule succeeds_conseq [OF succeeds_sync_parent [where P = ?C]]) (use U in auto)
  have present: "succeeds ?A (remove_upper_entry e U directory) (\<lambda>_. ?B)"
    unfolding remove_upper_entry_def
  proof (rule succeeds_test [where x = True])
    fix s assume "holds True ?A s"
    then show "lstat_ok (host s) U = True" using lstat_ok_direct [OF U(1,3,4)] by (auto simp: holds_def)
  qed (simp only: simp_thms if_False, intro succeeds_bnd [OF succeeds_catch [OF rm] succeeds_catch [OF sync]])
  show ?thesis
  proof (rule succeeds_cases [OF _ present absent])
    fix h st and en :: engine assume "(h = h0 \<or> h = put h0 U None) \<and> st = st2"
    then show "?A h st en \<or> ?B h st en" by (cases "get h0 U") (auto simp: put_missing [OF U(2)])
  qed
qed

definition settled_removal ::
  "env \<Rightarrow> recovery_operation \<Rightarrow> path \<Rightarrow> path \<Rightarrow> path \<Rightarrow> node \<Rightarrow> store \<Rightarrow> node \<Rightarrow> store \<Rightarrow> bool"
where
  "settled_removal e op T W U h0 st0 h st \<longleftrightarrow>
     outside (litter T W) (put h0 U None) h \<and>
     st = st0\<lparr>operation_seq := operation_seq st0 + 1, tombstone_rows := finished_rows e op st0\<rparr>"

lemma project_tree_upper:
  assumes tree: "project_tree T W h0" and W: "housed W en" and p: "p \<noteq> []"
    and out: "outside (insert (upper_dir en @ p) (litter T W)) h0 h"
  shows "project_tree T W h"
  by (rule project_tree_outside [OF tree W, where op = "staged_operation en ''create'' []" and d = p and p = "[]"])
    (use out in \<open>simp add: changed_paths_def staged_operation_def\<close>)

lemma removal_is_recovered:
  assumes lay: "layout en0 h0" and pl: "plain en0 h0 p" and p: "clean p" "p \<noteq> []" and W: "housed W en0"
    and tree: "project_tree T W h0" and ok: "journal_ok st0" "pending st0 = []"
    and kind: "k = (if directory then ''rmdir'' else ''unlink'')"
    and old: "removable directory (get h0 (upper_dir en0 @ p))"
    and fp: "tribios_failpoint e' = None" and like: "sql_like e' = sql_like e" and free: "faults s = []"
    and op_def: "op = removal_operation en0 k (unsegs p) b" and U_def: "U = upper_dir en0 @ p"
    and image: "removal_image e op U h0 st0 (host s) (store s)"
  shows "\<exists>s'. recover_interrupted_operations e' root T W s = (Ok (), s') \<and> faults s' = [] \<and> swept W (host s') \<and>
    (settled_old T W h0 st0 (host s') (store s') \<or> settled_removal e op T W U h0 st0 (host s') (store s'))"
proof -
  let ?op1 = "op\<lparr>op_id := operation_seq st0 + 1\<rparr>" and ?op2 = "as_published op st0"
  let ?Old = "\<lambda>h st (en::engine). settled_old T W h0 st0 h st"
  let ?New = "\<lambda>h st (en::engine). settled_removal e op T W U h0 st0 h st"
  let ?recover = "\<lambda>row. recover_operation e' root T W row"
  have U: "clean U" "U \<noteq> []" "direct h0 U" "is_dir h0"
    using p layout_clean [OF lay] direct_upper [OF lay pl] layout_dirs [OF lay] by (auto simp: U_def)
  have outU: "outside (insert U (litter T W)) h0 h" if "outside (litter T W) (put h0 U None) h" for h
    by (rule outside_trans [OF outside_put [OF outside_refl, of U] outside_mono [OF that]]) auto
  have fr: "finished_rows e' op st0 = finished_rows e op st0" by (simp add: finished_rows_def like)
  have clean_old: "succeeds C (recover_interrupted_operations e' root T W) (\<lambda>_ h st en. ?Old h st en \<and> swept W h)"
    if "succeeds C (bnd (load_recovery_operations e') (\<lambda>loaded. for_each loaded ?recover)) (\<lambda>_. ?Old)" for C
  proof (rule clean_up_succeeds [OF _ _ that])
    fix h st en assume "settled_old T W h0 st0 h st"
    then show "project_tree T W h"
      using project_tree_upper [OF tree W p(2), of h] outside_mono [of "litter T W" h0 h] by (auto simp: settled_old_def)
  qed (rule settled_keep(1) [OF W tree])
  have clean_new: "succeeds C (recover_interrupted_operations e' root T W) (\<lambda>_ h st en. ?New h st en \<and> swept W h)"
    if "succeeds C (bnd (load_recovery_operations e') (\<lambda>loaded. for_each loaded ?recover)) (\<lambda>_. ?New)" for C
  proof (rule clean_up_succeeds [OF _ _ that])
    fix h st en assume "settled_removal e op T W U h0 st0 h st"
    then show "project_tree T W h"
      using project_tree_upper [OF tree W p(2), of h] outU by (auto simp: settled_removal_def U_def)
  qed (auto simp: settled_removal_def intro: outside_put)
  have journal: "journal_operation ?op1 en0" "journal_operation ?op2 en0"
    using W kind p normal_relative [OF p]
    by (auto simp: journal_operation_def op_def as_published_def removal_operation_def unsafe_operation_def
        housed_def clean_segment_def valid_recovery_relative_path_def [of "[]"])
  have back_ok: "succeeds (\<lambda>h st en. h = h0 \<and> st = journaled op st0) (recover_interrupted_operations e' root T W) (\<lambda>_ h st en. ?Old h st en \<and> swept W h)"
  proof (rule clean_old, rule one_operation [OF journal_ok_journaled(1) [OF ok(1)]])
    show "pending (journaled op st0) = [?op1]" using pending_journaled(1) [OF ok(1)] ok(2) by simp
    have "untouched h0 en0 h0" using lay by (auto simp: untouched_def recovery_ok_def layout_def)
    with prepared_is_rolled_back [OF journal(1) W fp lay, of "journaled op st0" root T]
    show "succeeds (\<lambda>h st en. h = h0 \<and> st = journaled op st0) (?recover ?op1) (\<lambda>_. ?Old)"
      by (auto simp: op_def elim!: succeeds_conseq
          simp: settled_old_def untouched_settled [OF W] journal_stores(1) [OF ok(1)])
  qed
  have apply_op: "succeeds (\<lambda>h st en. (h = h0 \<or> h = put h0 U None) \<and> st = st2) (apply_operation e' (upper_dir en0) stage ?op2)
      (\<lambda>_ h st en. h = put h0 U None \<and> st = st2)" for stage st2
    using succeeds_remove_upper_entry [OF U old [folded U_def], of st2 e'] p kind
    by (auto simp: apply_operation_def as_published_def op_def U_def split: if_splits)
  have finish: "succeeds (\<lambda>h st en. h = put h0 U None \<and> st = journaled_publishing op st0) (finish_recovery_operation e' ?op2) (\<lambda>_. ?New)"
    by (rule succeeds_finish)
      (simp add: settled_removal_def finished_store_def [symmetric] journal_stores(2) [OF ok(1)] fr)
  have through_ok: "succeeds (\<lambda>h st en. (h = h0 \<or> h = put h0 U None) \<and> st = journaled_publishing op st0)
      (recover_interrupted_operations e' root T W) (\<lambda>_ h st en. ?New h st en \<and> swept W h)"
  proof (rule clean_new, rule one_operation [OF journal_ok_journaled(2) [OF ok(1)]])
    show "pending (journaled_publishing op st0) = [?op2]" using pending_journaled(2) [OF ok(1)] ok(2) by simp
    have ph: "op_phase ?op2 = Publishing" by (simp add: as_published_def)
    show "succeeds (\<lambda>h st en. (h = h0 \<or> h = put h0 U None) \<and> st = journaled_publishing op st0) (?recover ?op2) (\<lambda>_. ?New)"
      unfolding recover_entry_eq [OF journal(2) W fp] Let_def ph
      by (simp, intro succeeds_bnd [OF succeeds_refusing [OF apply_op]] succeeds_bnd [OF succeeds_refusing [OF finish]] succeeds_ret)
  qed
  have idle_ok: "succeeds (\<lambda>h st en. h = put h0 U None \<and> st = finished_store e ?op2 (journaled_publishing op st0))
      (recover_interrupted_operations e' root T W) (\<lambda>_ h st en. ?New h st en \<and> swept W h)"
  proof (rule clean_new, rule no_operation)
    show "journal_ok (finished_store e ?op2 (journaled_publishing op st0))" "pending (finished_store e ?op2 (journaled_publishing op st0)) = []"
      by (rule finished_idle [OF ok])+
  qed (auto simp: settled_removal_def journal_stores(2) [OF ok(1)])
  from image consider "host s = h0 \<and> store s = journaled op st0"
    | "(host s = h0 \<or> host s = put h0 U None) \<and> store s = journaled_publishing op st0"
    | "host s = put h0 U None \<and> store s = finished_store e ?op2 (journaled_publishing op st0)"
    by (auto simp: removal_image_def)
  then show ?thesis
    using hoare_total [OF back_ok, where s = s] hoare_total [OF through_ok, where s = s] hoare_total [OF idle_ok, where s = s] free
    by cases (auto simp: holds_def)
qed


section \<open>The view after a removal\<close>

text \<open>What the Base tree shows through an upper tree without the entry.\<close>

definition base_view :: "engine \<Rightarrow> node \<Rightarrow> path \<Rightarrow> entry option" where
  "base_view en h q = (if hid (tombstones en) q then None else map_option abstr (get h (base_dir en @ q)))"

lemma vis_alt:
  "vis en h q = (case map_option abstr (get h (upper_dir en @ q)) of Some x \<Rightarrow> Some x | None \<Rightarrow> base_view en h q)"
  by (simp add: vis_def base_view_def split: option.split)

definition subtree_becomes ::
  "path \<Rightarrow> (path \<Rightarrow> entry option) \<Rightarrow> (path \<Rightarrow> entry option) \<Rightarrow> (path \<Rightarrow> entry option) \<Rightarrow> bool"
where
  "subtree_becomes p new v w \<longleftrightarrow> (\<forall>q. clean q \<longrightarrow> w q = (if prefix p q then new q else v q))"

abbreviation entry_removed :: "path \<Rightarrow> (path \<Rightarrow> entry option) \<Rightarrow> (path \<Rightarrow> entry option) \<Rightarrow> bool" where
  "entry_removed p \<equiv> subtree_becomes p (\<lambda>_. None)"

lemma upper_gone:
  assumes lay: "layout en h0" and p: "p \<noteq> []"
    and out: "outside S (put h0 (upper_dir en @ p) None) h"
    and S: "\<And>r q. r \<in> S \<Longrightarrow> \<not> prefix r (upper_dir en @ q) \<and> \<not> prefix r (base_dir en @ q)"
  shows "prefix p q \<Longrightarrow> get h (upper_dir en @ q) = None"
    and "\<not> prefix p q \<Longrightarrow> map_option abstr (get h (upper_dir en @ q)) = map_option abstr (get h0 (upper_dir en @ q))"
    and "map_option abstr (get h (base_dir en @ q)) = map_option abstr (get h0 (base_dir en @ q))"
proof -
  let ?U = "upper_dir en @ p"
  have h: "same_entry (get (put h0 ?U None) (upper_dir en @ q)) (get h (upper_dir en @ q))"
    "same_entry (get (put h0 ?U None) (base_dir en @ q)) (get h (base_dir en @ q))" for q
    using S by (intro outside_same [OF out]; blast)+
  have h0: "outside {?U} h0 (put h0 ?U None)" by (rule outside_put [where r = ?U]) auto
  show "get h (upper_dir en @ q) = None" if "prefix p q"
  proof -
    obtain xs where q: "q = p @ xs" using \<open>prefix p q\<close> by (auto simp: prefix_def)
    have "get (put h0 ?U None) (?U @ xs) = None"
      using get_append [of "put h0 ?U None" ?U xs] gone_after_put [of ?U h0] p by simp
    then show ?thesis using same_entry_none [OF h(1) [of q]] q by simp
  qed
  show "map_option abstr (get h (upper_dir en @ q)) = map_option abstr (get h0 (upper_dir en @ q))" if "\<not> prefix p q"
    using same_entry_abstr [OF outside_same [OF h0, of "upper_dir en @ q"]] same_entry_abstr [OF h(1) [of q]] that by simp
  have "\<not> prefix ?U (base_dir en @ q)" using layout_apart(4) [OF lay] by (auto dest: append_prefixD)
  then show "map_option abstr (get h (base_dir en @ q)) = map_option abstr (get h0 (base_dir en @ q))"
    using same_entry_abstr [OF outside_same [OF h0, of "base_dir en @ q"]] same_entry_abstr [OF h(2) [of q]] by simp
qed

lemma hid_insert:
  assumes "clean p" "p \<noteq> []" "clean q"
  shows "hid (insert (unsegs p) T) q \<longleftrightarrow> prefix p q \<or> hid T q"
proof -
  have "unsegs r = unsegs p \<longleftrightarrow> r = p" if "prefix r q" for r
    using that assms by (intro unsegs_inj) (auto simp: prefix_def)
  then show ?thesis using assms(2) by (auto simp: hid_def)
qed

lemma vis_removed:
  assumes lay: "layout en h0" and p: "clean p" "p \<noteq> []"
    and out: "outside S (put h0 (upper_dir en @ p) None) h"
    and S: "\<And>r q. r \<in> S \<Longrightarrow> \<not> prefix r (upper_dir en @ q) \<and> \<not> prefix r (base_dir en @ q)"
  shows "subtree_becomes p (base_view en h0) (vis en h0) (vis en h)"
    and "entry_removed p (vis en h0) (vis (with_tombstone (base_shows en h0 p) (unsegs p) en) h)"
proof -
  note up = upper_gone [OF lay p(2) out S]
  have view: "vis en h q = (if prefix p q then base_view en h0 q else vis en h0 q)" for q
  proof -
    have "base_view en h q = base_view en h0 q" using up(3) [of q] by (simp add: base_view_def)
    with up(1) [of q] up(2) [of q] show ?thesis by (cases "prefix p q") (simp_all add: vis_alt split: option.split)
  qed
  then show "subtree_becomes p (base_view en h0) (vis en h0) (vis en h)" by (simp add: subtree_becomes_def)
  show "entry_removed p (vis en h0) (vis (with_tombstone (base_shows en h0 p) (unsegs p) en) h)"
    unfolding subtree_becomes_def
  proof (intro allI impI)
    fix q assume q: "clean q"
    show "vis (with_tombstone (base_shows en h0 p) (unsegs p) en) h q = (if prefix p q then None else vis en h0 q)"
    proof (cases "base_shows en h0 p")
      case True
      then show ?thesis
        using up(1) [of q] up(2) [of q] up(3) [of q] hid_insert [OF p q]
        by (cases "prefix p q") (simp_all add: with_tombstone_def vis_alt base_view_def split: option.split)
    next
      case False
      have "base_view en h0 q = None" if pq: "prefix p q"
      proof (cases "hid (tombstones en) p")
        case True
        from hid_mono [OF this pq] show ?thesis by (simp add: base_view_def)
      next
        case shown: False
        obtain xs where "q = p @ xs" using pq by (auto simp: prefix_def)
        with False shown show ?thesis
          using get_append [of h0 "base_dir en @ p" xs] by (simp add: base_shows_def base_view_def)
      qed
      with False view show ?thesis by (simp add: with_tombstone_def)
    qed
  qed
qed

definition removes_entry :: "env \<Rightarrow> path \<Rightarrow> path \<Rightarrow> machine \<Rightarrow> (errno, unit) res \<times> machine \<Rightarrow> bool" where
  "removes_entry e T p s r \<longleftrightarrow>
     inside s (snd r) \<and>
     (let v = vis (eng s) (host s) in
      case r of
        (Ok _, t) \<Rightarrow> project_engine T t \<and> entry_removed p v (vis (eng t) (host t))
      | (Err _, t) \<Rightarrow> vis (eng t) (host t) = v \<or>
          subtree_becomes p (base_view (eng s) (host s)) v (vis (eng t) (host t))
      | (Halt _, t) \<Rightarrow> recovers_to e T (eng s) t (\<lambda>w. w = v \<or> entry_removed p v w))"

text \<open>The tombstones the database holds after the closing transaction are those in memory.\<close>

lemma stored_tombstones_removal:
  assumes "set (sql_load_workspace_tombstones (workspace en) st) = tombstones en"
  shows "set (map snd (filter (\<lambda>(w, p). w = workspace en)
      (finished_rows e (removal_operation en k rel b) st))) = tombstones (with_tombstone b rel en)"
proof -
  have rows: "set (finished_rows e (removal_operation en k rel b) st) =
      (if b then insert (workspace en, rel) (set (tombstone_rows st)) else set (tombstone_rows st))"
    by (auto simp: finished_rows_def sql_finish_def sql_add_tombstone_def sql_abandon_recovery_operation_def)
  have "snd ` {x \<in> insert (w, rel) R. case x of (w', p) \<Rightarrow> w' = w} = insert rel (snd ` {x \<in> R. case x of (w', p) \<Rightarrow> w' = w})"
    for w :: string and R
    by force
  with rows assms show ?thesis
    by (simp add: with_tombstone_def sql_load_workspace_tombstones_def)
qed

text \<open>After a removal that returns the storage is ready for the next operation.\<close>

lemma removed_ready:
  assumes ps: "project_engine T s" and pl: "plain (eng s) (host s) p" and p: "clean p" "p \<noteq> []"
    and op_def: "op = removal_operation (eng s) k (unsegs p) b"
    and t: "host t = put (host s) (upper_dir (eng s) @ p) None"
      "store t = finished_store e (as_published op (store s)) (journaled_publishing op (store s))"
      "same_engine (eng t) (with_tombstone b (unsegs p) (eng s))"
  shows "project_engine T t"
proof (rule engine_kept [OF ps])
  let ?en = "eng s" and ?U = "upper_dir (eng s) @ p"
  have lay: "layout ?en (host s)" and ok: "journal_ok (store s)" "pending (store s) = []"
    and free: "stages_free ?en (store s) (host s)"
    and rows: "set (sql_load_workspace_tombstones (workspace ?en) (store s)) = tombstones ?en"
    using ps by (auto simp: project_engine_def)
  have R: "\<not> prefix ?U (recovery_dir ?en @ xs)" "\<not> prefix (recovery_dir ?en @ xs) ?U" for xs
    using layout_apart [OF lay] by (auto dest: append_prefixD)
  have same: "get (host t) (recovery_dir ?en @ xs) = get (host s) (recovery_dir ?en @ xs)" for xs
    using get_put_other R t(1) by simp
  show "outside (insert (upper_dir ?en) (litter T (T @ [''workspaces'']))) (host s) (host t)"
    unfolding t(1) by (rule outside_put [OF outside_refl, where r = "upper_dir ?en"]) auto
  show "dir_at (host t) (upper_dir ?en)"
    unfolding t(1) using layout_dirs [OF lay] p(2) dir_at_put_above [of "upper_dir ?en" ?U "host s" None] by (simp add: strict_prefix_def)
  show "recovery_ok ?en (host t)"
    using lay same [of "[]"] by (simp add: recovery_ok_def layout_def dir_at_def)
  show "workspace (eng t) = workspace ?en" "base_dir (eng t) = base_dir ?en" "upper_dir (eng t) = upper_dir ?en"
    using same_engineD [OF t(3)] by (simp_all add: with_tombstone_def)
  show "journal_ok (store t)" "pending (store t) = []" unfolding t(2) by (rule finished_idle [OF ok])+
  note st = t(2) [unfolded journal_stores(2) [OF ok(1)]]
  show "stages_free ?en (store t) (host t)"
    using free same by (simp add: st stages_free_def stage_path_def)
  show "set (sql_load_workspace_tombstones (workspace ?en) (store t)) = tombstones (eng t)"
    using stored_tombstones_removal [OF rows, of e k "unsegs p" b] same_engineD(3) [OF t(3)]
    by (simp add: st op_def sql_load_workspace_tombstones_def)
qed

lemma removal_outcome:
  assumes ps: "project_engine T s" and pl: "plain (eng s) (host s) p" and p: "clean p" "p \<noteq> []"
    and kind: "k = (if directory then ''rmdir'' else ''unlink'')"
    and old: "removable directory (get (host s) (upper_dir (eng s) @ p))"
  shows "removes_entry e T p s (remove_visible_entry_atomically e k (unsegs p) directory s)"
proof -
  let ?en = "eng s" and ?h = "host s" and ?st = "store s" and ?b = "base_shows (eng s) (host s) p"
  let ?op = "removal_operation (eng s) k (unsegs p) ?b" and ?U = "upper_dir (eng s) @ p" and ?W = "T @ [''workspaces'']"
  have lay: "layout ?en ?h" and W: "housed ?W ?en" and tree: "project_tree T ?W ?h" and ok: "journal_ok ?st" "pending ?st = []"
    and base: "base_dir ?en = T @ [''base'']"
    and rows: "set (sql_load_workspace_tombstones (workspace ?en) ?st) = tombstones ?en"
    using ps by (auto simp: project_engine_def)
  note gone = vis_removed [OF lay p outside_refl [of "{}"], simplified]
  have ins: "inside s t" if "host t = ?h \<or> host t = put ?h ?U None" for t
    using that outside_put [OF outside_refl, of "workspace_dir ?en" "{workspace_dir ?en}" ?U ?h None]
    by (auto simp: inside_def layout_upper [OF lay])
  have "outcome (\<lambda>a t. removes_entry e T p s (Ok a, t)) (\<lambda>err t. removes_entry e T p s (Err err, t))
      (\<lambda>f t. removes_entry e T p s (Halt f, t)) (remove_visible_entry_atomically e k (unsegs p) directory s)"
  proof (rule outcome_mono [OF hoareD [OF removal_spec [OF lay pl p old, where F = False and k = k]]])
    fix a t
    assume t: "holds False (\<lambda>h st en. h = put ?h ?U None \<and> st = finished_store e (as_published ?op ?st) (journaled_publishing ?op ?st) \<and>
       same_engine en (with_tombstone ?b (unsegs p) ?en)) t"
    have "project_engine T t" by (rule removed_ready [OF ps pl p]) (use t in \<open>auto simp: holds_def\<close>)
    with t show "removes_entry e T p s (Ok a, t)"
      using gone(2) same_engine_vis [of "eng t" "with_tombstone ?b (unsegs p) ?en" "host t"]
      by (simp add: removes_entry_def holds_def ins)
  next
    fix err t assume "holds False (\<lambda>h st en. \<not> False \<and> (h = ?h \<or> h = put ?h ?U None) \<and> same_engine en ?en) t"
    then show "removes_entry e T p s (Err err, t)"
      using gone(1) same_engine_vis [of "eng t" ?en "host t"]
      by (auto simp: removes_entry_def holds_def ins)
  next
    fix f t assume image: "holds False (\<lambda>h st en. tribios_failpoint e \<noteq> None \<and> removal_image e ?op ?U ?h ?st h st) t"
    have "recovers_to e T ?en t (\<lambda>w. w = vis ?en ?h \<or> entry_removed p (vis ?en ?h) w)"
      unfolding recovers_to_def
    proof (intro allI impI)
      fix e' :: env and root assume e': "tribios_failpoint e' = None \<and> sql_like e' = sql_like e"
      obtain t' where run: "recover_interrupted_operations e' root T ?W (t\<lparr>faults := []\<rparr>) = (Ok (), t')" "faults t' = []" "swept ?W (host t')"
        and settled: "settled_old T ?W ?h ?st (host t') (store t') \<or> settled_removal e ?op T ?W ?U ?h ?st (host t') (store t')"
        using removal_is_recovered [OF lay pl p W tree ok kind old _ _ _ refl refl, of e' e "t\<lparr>faults := []\<rparr>" ?b root] e' image
        by (auto simp: holds_def)
      have apart: "\<not> prefix r (upper_dir ?en @ q) \<and> \<not> prefix r (base_dir ?en @ q)" if "r \<in> litter T ?W" for r q
        using upper_litter_apart(1) [OF W tree that] apart_litter(1) [OF W tree base lay, of p] that by (auto simp: apart_or_def)
      have st: "operation_rows (store t') = operation_rows ?st" "operation_seq (store t') = operation_seq ?st + 1"
        using settled by (auto simp: settled_old_def settled_removal_def)
      have out: "outside (litter T ?W \<union> {?U}) ?h (host t')"
        using settled by (auto simp: settled_old_def settled_removal_def elim: outside_mono
            intro: outside_trans [OF outside_put [OF outside_refl, of ?U]])
      have c: "copied_up e ?en ?h p ?h" using lay by (simp add: copied_up_refl layout_dirs)
      have "vis (reopened ?en (store t')) (host t') = vis ?en ?h \<or> entry_removed p (vis ?en ?h) (vis (reopened ?en (store t')) (host t'))"
        using settled
      proof
        assume o: "settled_old T ?W ?h ?st (host t') (store t')"
        then have "vis ?en (host t') = vis ?en ?h"
          using vis_kept [OF _ apart_litter(1) [OF W tree base lay], where h = "host t'" and p = p] upper_litter_apart(2) [OF W tree, of _ p]
          by (auto simp: settled_old_def)
        moreover have "vis (reopened ?en (store t')) (host t') = vis ?en (host t')"
          using o rows by (intro vis_cong) (auto simp: reopened_def settled_old_def sql_load_workspace_tombstones_def)
        ultimately show ?thesis by simp
      next
        assume n: "settled_removal e ?op T ?W ?U ?h ?st (host t') (store t')"
        then have "entry_removed p (vis ?en ?h) (vis (with_tombstone ?b (unsegs p) ?en) (host t'))"
          using vis_removed(2) [OF lay p, where S = "litter T ?W"] apart by (simp add: settled_removal_def)
        moreover have "vis (reopened ?en (store t')) (host t') = vis (with_tombstone ?b (unsegs p) ?en) (host t')"
          using n stored_tombstones_removal [OF rows, of e k "unsegs p" ?b]
          by (intro vis_cong) (simp_all add: reopened_def settled_removal_def sql_load_workspace_tombstones_def with_tombstone_def)
        ultimately show ?thesis by simp
      qed
      then show "\<exists>en' t'. restart e' root T ?en (t\<lparr>faults := []\<rparr>) = (Ok en', t') \<and> project_engine T (t'\<lparr>eng := en'\<rparr>) \<and>
        (vis en' (host t') = vis ?en ?h \<or> entry_removed p (vis ?en ?h) (vis en' (host t')))"
        by (intro restarted [OF ps run st c out, where V = "\<lambda>w. w = vis ?en ?h \<or> entry_removed p (vis ?en ?h) w"])
          (use p(2) in \<open>auto simp: strict_prefix_def\<close>)
    qed
    moreover have "inside s t" using image by (intro ins) (auto simp: holds_def removal_image_def)
    ultimately show "removes_entry e T p s (Halt f, t)" by (simp add: removes_entry_def)
  qed (simp add: holds_def)
  then show ?thesis by (rule outcome_cases) simp_all
qed


section \<open>\<^verbatim>\<open>unlink\<close> and \<^verbatim>\<open>rmdir\<close>\<close>

lemma refused_removal [simp]: "removes_entry e T p s (Err err, s)"
  by (simp add: removes_entry_def)

lemma unlink_removes_entry:
  assumes "project_engine T s" "plain_path (eng s) (host s) p" "clean p" "p \<noteq> []" "normalize_relative path = unsegs p"
  shows "removes_entry e T p s (unlink e path s)"
proof (cases "layer_node (layer_at (eng s) (host s) p)")
  case (Some n)
  have "removes_entry e T p s (remove_visible_entry_atomically e ''unlink'' (unsegs p) False s)" if n: "\<not> is_dir n"
  proof (rule removal_outcome)
    show "removable False (get (host s) (upper_dir (eng s) @ p))"
      using Some n not_dir_leaf by (auto simp: removable_def layer_at_def split: option.splits if_splits)
  qed (use assms in \<open>auto simp: plain_path_def\<close>)
  with Some show ?thesis
    by (auto simp: unlink_def run_gets_bnd assms(5) project_find_layer [OF assms(1,2,3)] prog_defs Let_def)
qed (auto simp: unlink_def run_gets_bnd assms(5) project_find_layer [OF assms(1,2,3)] prog_defs Let_def)

text \<open>C19: \<open>unlink\<close> takes the entry out of the view and leaves the rest as it is.\<close>
theorem unlink_is_atomic:
  assumes "project_engine T s" "plain_path (eng s) (host s) p" "clean p" "p \<noteq> []" "normalize_relative path = unsegs p"
  shows "removes_entry e T p s (unlink e path s)"
  using assms by (rule unlink_removes_entry)

lemma omap_set_nonempty: "omap_set k v es \<noteq> []"
  by (cases es) (auto split: if_splits)

lemma foldl_nonempty: "(\<And>es c. g es c \<noteq> []) \<Longrightarrow> es \<noteq> [] \<Longrightarrow> foldl g es cs \<noteq> []"
  by (induction cs arbitrary: es) auto

lemma merged_upper_nonempty:
  assumes "k_opendir (host s) p = Inr cs" "merge_directory s rel p False es = []"
  shows "cs = []"
proof -
  let ?add = "\<lambda>es (name, n). omap_set name
      \<lparr>de_name = name, de_ino = workspace_inode_for (eng s) n, de_kind = node_kind n\<rparr> es"
  have "merge_directory s rel p False es = foldl ?add es cs"
    unfolding merge_directory_def assms(1) by (simp only: sum.case simp_thms if_False)
  with assms(2) have "foldl ?add es cs = []" by simp
  then show ?thesis
  proof (cases cs)
    case (Cons c cs')
    have step: "?add es c \<noteq> []" for es c by (simp add: omap_set_nonempty del: omap_set.simps split: prod.split)
    from foldl_nonempty [of ?add, OF step step] Cons \<open>foldl ?add es cs = []\<close> show ?thesis by simp
  qed
qed

lemma rmdir_removes_entry:
  assumes "project_engine T s" "plain_path (eng s) (host s) p" "clean p" "p \<noteq> []" "normalize_relative path = unsegs p"
  shows "removes_entry e T p s (rmdir e path s)"
proof (cases "layer_node (layer_at (eng s) (host s) p)")
  case (Some n)
  have lay: "layout (eng s) (host s)" using assms(1) by (simp add: project_engine_def)
  have "removes_entry e T p s (remove_visible_entry_atomically e ''rmdir'' (unsegs p) True s)"
    if n: "is_dir n" and empty: "merge_visible_directory_entries (unsegs p) s = []"
  proof (rule removal_outcome)
    show "removable True (get (host s) (upper_dir (eng s) @ p))"
    proof (cases "get (host s) (upper_dir (eng s) @ p)")
      case (Some n')
      with \<open>layer_node _ = Some n\<close> have "n' = n" by (simp add: layer_at_def)
      with n obtain m cs where cs: "n' = Dir m cs" by (blast elim: is_dirE)
      have "k_opendir (host s) (upper_path (eng s) (unsegs p)) = Inr cs"
        using k_opendir_dir [of "upper_dir (eng s) @ p"] Some cs layout_clean [OF lay] assms(3) by (simp add: upper_path_def)
      from merged_upper_nonempty [OF this] empty have "cs = []"
        by (auto simp: merge_visible_directory_entries_def Let_def)
      with Some cs show ?thesis by (simp add: removable_def leaf_def)
    qed (simp add: removable_def)
  qed (use assms in \<open>auto simp: plain_path_def\<close>)
  with Some show ?thesis
    by (auto simp: rmdir_def run_gets_bnd assms(4,5) project_find_layer [OF assms(1,2,3)] prog_defs Let_def)
qed (auto simp: rmdir_def run_gets_bnd assms(4,5) project_find_layer [OF assms(1,2,3)] prog_defs Let_def)


end
