(* ===== verification/Queries.thy ===== *)
theory Queries
  imports Operations
begin

text \<open>
  The queries of the engine against the view: what \<open>getattr\<close>, \<open>readlink\<close>, \<open>readdir\<close> and a read
  through a new handle answer is what the view shows, and none of them changes a tree or a table.
\<close>

section \<open>Attributes and links\<close>

fun shown_as :: "attr \<Rightarrow> entry \<Rightarrow> bool" where
  "shown_as a (VFile mode c) \<longleftrightarrow> at_kind a = REG \<and> at_perm a = mode \<and> at_size a = length c"
| "shown_as a (VLink t) \<longleftrightarrow> at_kind a = LNK \<and> at_size a = length t"
| "shown_as a (VDir mode) \<longleftrightarrow> at_kind a = DIR \<and> at_perm a = mode"
| "shown_as a VSpecial \<longleftrightarrow> at_kind a = SPECIAL"

lemma shown_as_attr: "shown_as (attr_from_stat e n i b) (abstr n)"
  by (cases n) (simp_all add: attr_from_stat_def node_size_def)

lemma shown_attr_from_stat:
  "layer_node (layer_at en h p) = Some n \<Longrightarrow> \<exists>x. vis en h p = Some x \<and> shown_as (attr_from_stat e n i b) x"
  using layer_at_vis [of en h p, symmetric] by (simp add: shown_as_attr)

text \<open>C21: \<open>getattr\<close> answers with the kind, mode bits and size of the entry the view shows, fails with
  \<open>ENOENT\<close> exactly when the view shows none, and changes nothing.\<close>
theorem getattr_refines_view:
  assumes "project_engine T s" "plain_path (eng s) (host s) p" "clean p" "normalize_relative path = unsegs p"
  shows "case getattr e path s of
      (Ok a, t) \<Rightarrow> t = s \<and> (\<exists>x. vis (eng s) (host s) p = Some x \<and> shown_as a x)
    | (Err err, t) \<Rightarrow> t = s \<and> err = ENOENT \<and> vis (eng s) (host s) p = None
    | (Halt f, t) \<Rightarrow> False"
  using assms(4) project_find_layer [OF assms(1-3)] vis_None [of "eng s" "host s" p]
    shown_attr_from_stat [of "eng s" "host s" p _ e]
  by (auto simp: getattr_def run_gets_bnd prog_simps split: layer.split)

text \<open>C22: \<open>readlink\<close> returns the target of the link the view shows; without a fault it fails exactly when
  the view shows no entry (\<open>ENOENT\<close>) or one that is not a link (\<open>EINVAL\<close>), and no tree changes.\<close>
theorem readlink_refines_view:
  assumes "project_engine T s" "plain_path (eng s) (host s) p" "clean p" "normalize_relative path = unsegs p"
  shows "case readlink path s of
      (Ok target, t) \<Rightarrow> vis (eng s) (host s) p = Some (VLink target) \<and> host t = host s \<and> store t = store s
    | (Err err, t) \<Rightarrow> host t = host s \<and> store t = store s \<and>
        (case vis (eng s) (host s) p of
           None \<Rightarrow> err = ENOENT
         | Some (VLink target) \<Rightarrow> err = EIO \<and> faults s \<noteq> []
         | Some _ \<Rightarrow> err = EINVAL)
    | (Halt f, t) \<Rightarrow> False"
proof -
  note find = project_find_layer [OF assms(1-3)]
  show ?thesis
  proof (cases "layer_node (layer_at (eng s) (host s) p)")
    case None
    then show ?thesis
      using layer_at_vis [of "eng s" "host s" p] assms(4) find by (simp add: readlink_def prog_simps)
  next
    case (Some n)
    then have "vis (eng s) (host s) p = Some (abstr n)"
      using layer_at_vis [of "eng s" "host s" p] by simp
    with Some show ?thesis
      using assms(4) find
      by (cases n)
        (auto simp: readlink_def prog_simps kernel_call_def next_fault_def split: prod.splits list.splits)
  qed
qed

section \<open>Listings\<close>

definition entry_of :: "engine \<Rightarrow> string \<Rightarrow> node \<Rightarrow> dir_entry" where
  "entry_of en x n = \<lparr>de_name = x, de_ino = workspace_inode_for en n, de_kind = node_kind n\<rparr>"

lemma merge_fold_lookup:
  assumes "distinct (map fst cs)"
  shows "map_of (foldl (\<lambda>es (x, n). if drops x then es else omap_set x (mk x n) es) es cs) x =
    (case map_of cs x of Some n \<Rightarrow> if drops x then map_of es x else Some (mk x n) | None \<Rightarrow> map_of es x)"
  using assms
proof (induction cs arbitrary: es)
  case (Cons c cs)
  obtain y n where c: "c = (y, n)" by fastforce
  from Cons.prems c have "map_of cs y = None" by (simp add: map_of_eq_None_iff)
  with Cons c show ?case by (auto split: option.split)
qed simp

lemma merge_fold_sorted:
  "sorted_wrt (<) (map fst es) \<Longrightarrow>
   sorted_wrt (<) (map fst (foldl (\<lambda>es (x, n). if drops x then es else omap_set x (mk x n) es) es cs))"
  by (induction cs arbitrary: es) (auto intro!: sorted_omap_set split: prod.split)

definition well_named :: "(string \<times> dir_entry) list \<Rightarrow> bool" where
  "well_named es \<longleftrightarrow> list_all (\<lambda>(x, d). de_name d = x) es"

lemma well_named_omap_set: "well_named es \<Longrightarrow> de_name d = x \<Longrightarrow> well_named (omap_set x d es)"
  by (induction x d es rule: omap_set.induct) (auto simp: well_named_def)

lemma merge_fold_named:
  "(\<And>x n. de_name (mk x n) = x) \<Longrightarrow> well_named es \<Longrightarrow>
   well_named (foldl (\<lambda>es (x, n). if drops x then es else omap_set x (mk x n) es) es cs)"
  by (induction cs arbitrary: es) (auto simp: well_named_omap_set)

lemma well_named_names: "well_named es \<Longrightarrow> map de_name (map snd es) = map fst es"
  by (induction es) (auto simp: well_named_def)

definition tree_names_distinct :: "node \<Rightarrow> bool" where
  "tree_names_distinct h \<longleftrightarrow> (\<forall>q m cs. get h q = Some (Dir m cs) \<longrightarrow> distinct (map fst cs))"

text \<open>The children a listing reads in one layer, none when there is no directory.\<close>

definition children :: "node option \<Rightarrow> (string \<times> node) list" where
  "children x = (case x of Some (Dir m cs) \<Rightarrow> cs | _ \<Rightarrow> [])"

lemma get_child: "get h (q @ [x]) = map_of (children (get h q)) x"
  by (auto simp: get_append children_def split: option.splits node.splits)

lemma distinct_children: "tree_names_distinct h \<Longrightarrow> distinct (map fst (children (get h q)))"
  by (auto simp: tree_names_distinct_def children_def split: option.splits node.splits)

lemma k_stat_get: "clean q \<Longrightarrow> get h q = Some n \<Longrightarrow> \<not> is_link n \<Longrightarrow> k_stat h q = Inr n"
  using get_parent_dir [of h q n] by (cases "q = []") (auto simp: k_stat_def resolve_follow_ok)

lemma opendir_children:
  assumes "clean q" "direct h q" "is_dir h" "no_link (get h q)"
  shows "(case k_opendir h q of Inl _ \<Rightarrow> [] | Inr cs \<Rightarrow> cs) = children (get h q)"
proof (cases "get h q")
  case (Some n)
  then show ?thesis
  proof (cases n)
    case (Dir m cs)
    then show ?thesis using k_opendir_dir [OF assms(1)] Some by (simp add: children_def)
  next
    case (File m c)
    then have "k_stat h q = Inr n" using Some assms(1) by (simp add: k_stat_get)
    with File Some show ?thesis by (simp add: k_opendir_def children_def)
  next
    case (Special m)
    then have "k_stat h q = Inr n" using Some assms(1) by (simp add: k_stat_get)
    with Special Some show ?thesis by (simp add: k_opendir_def children_def)
  qed (use assms(4) Some in \<open>simp add: no_link_def\<close>)
next
  case None
  then have "q \<noteq> []" by auto
  have "\<exists>err. k_stat h q = Inl err"
  proof (cases "dir_at h (butlast q)")
    case True
    with None assms \<open>q \<noteq> []\<close> show ?thesis by (simp add: k_stat_def resolve_follow_ok)
  next
    case False
    with resolve_blocked [OF assms(1-3) False, of True] show ?thesis by (auto simp: k_stat_def)
  qed
  with None show ?thesis by (auto simp: k_opendir_def children_def)
qed

lemma merge_directory_children:
  assumes "(case k_opendir (host s) q of Inl _ \<Rightarrow> [] | Inr cs \<Rightarrow> cs) = cs"
  shows "merge_directory s rel q b es =
    foldl (\<lambda>es (x, n). if b \<and> join_relative rel x \<in> tombstones (eng s) then es
                       else omap_set x (entry_of (eng s) x n) es) es cs"
  using assms unfolding entry_of_def by (cases "k_opendir (host s) q") (auto simp: merge_directory_def)

definition listable :: "machine \<Rightarrow> path \<Rightarrow> bool" where
  "listable s p \<longleftrightarrow> plain_path (eng s) (host s) p \<and> clean p \<and> no_link (get (host s) (upper_dir (eng s) @ p)) \<and>
     no_link (get (host s) (base_dir (eng s) @ p)) \<and> tree_names_distinct (host s)"

lemma merged_is_fold:
  assumes "layout (eng s) (host s)" "listable s p"
  shows "merge_visible_directory_entries (unsegs p) s =
    foldl (\<lambda>es (x, n). if False then es else omap_set x (entry_of (eng s) x n) es)
      (if hid (tombstones (eng s)) p then []
       else foldl (\<lambda>es (x, n). if unsegs (p @ [x]) \<in> tombstones (eng s) then es
                               else omap_set x (entry_of (eng s) x n) es) []
              (children (get (host s) (base_dir (eng s) @ p))))
      (children (get (host s) (upper_dir (eng s) @ p)))"
proof -
  note lay = assms(1)
  have p: "clean p" "plain (eng s) (host s) p" using assms(2) by (auto simp: listable_def plain_pathD)
  note dirs = layout_clean [OF lay] layout_dirs [OF lay]
  have upper: "(case k_opendir (host s) (upper_dir (eng s) @ p) of Inl _ \<Rightarrow> [] | Inr cs \<Rightarrow> cs) =
      children (get (host s) (upper_dir (eng s) @ p))"
    using assms(2) dirs direct_upper [OF lay p(2)] p by (intro opendir_children) (auto simp: listable_def)
  have base: "(case k_opendir (host s) (base_dir (eng s) @ p) of Inl _ \<Rightarrow> [] | Inr cs \<Rightarrow> cs) =
      children (get (host s) (base_dir (eng s) @ p))" if "\<not> hid (tombstones (eng s)) p"
    using assms(2) dirs direct_base [OF lay p(2) that] p by (intro opendir_children) (auto simp: listable_def)
  show ?thesis
    using p base
    by (simp add: merge_visible_directory_entries_def Let_def base_is_visible_def hidden_by_tombstone_hid
        upper_path_def base_path_def merge_directory_children [OF upper] merge_directory_children
        join_relative_unsegs)
qed

lemma merged_lookup:
  assumes "layout (eng s) (host s)" "listable s p"
  shows "map_of (merge_visible_directory_entries (unsegs p) s) x =
    map_option (entry_of (eng s) x) (layer_node (layer_at (eng s) (host s) (p @ [x])))"
proof -
  have d: "distinct (map fst (children (get (host s) q)))" for q
    using assms(2) by (simp add: listable_def distinct_children)
  show ?thesis
    unfolding merged_is_fold [OF assms] merge_fold_lookup [OF d]
    using get_child [of "host s" "upper_dir (eng s) @ p" x] get_child [of "host s" "base_dir (eng s) @ p" x]
    by (auto simp: merge_fold_lookup [OF d] layer_at_def hid_snoc split: option.splits)
qed

lemma merged_sorted:
  assumes "layout (eng s) (host s)" "listable s p"
  shows "sorted_wrt (<) (map fst (merge_visible_directory_entries (unsegs p) s))"
    and "map de_name (map snd (merge_visible_directory_entries (unsegs p) s)) =
      map fst (merge_visible_directory_entries (unsegs p) s)"
proof -
  have b: "sorted_wrt (<) (map fst (foldl (\<lambda>es (x, n). if unsegs (p @ [x]) \<in> tombstones (eng s) then es
      else omap_set x (entry_of (eng s) x n) es) [] cs))" for cs
    by (rule merge_fold_sorted) simp
  show "sorted_wrt (<) (map fst (merge_visible_directory_entries (unsegs p) s))"
    unfolding merged_is_fold [OF assms] by (rule merge_fold_sorted) (simp add: b)
  have "well_named (merge_visible_directory_entries (unsegs p) s)"
    unfolding merged_is_fold [OF assms]
    by (intro merge_fold_named) (auto simp: entry_of_def well_named_def [of "[]"] intro!: merge_fold_named)
  then show "map de_name (map snd (merge_visible_directory_entries (unsegs p) s)) =
      map fst (merge_visible_directory_entries (unsegs p) s)"
    by (rule well_named_names)
qed

lemma shows_dir_layer:
  "shows_dir en h p \<longleftrightarrow> (\<exists>n. layer_node (layer_at en h p) = Some n \<and> is_dir n)"
proof (cases "layer_node (layer_at en h p)")
  case None
  then show ?thesis using layer_at_vis [of en h p, symmetric] by (simp add: shows_dir_def)
next
  case (Some n)
  then show ?thesis using layer_at_vis [of en h p, symmetric] by (cases n) (simp_all add: shows_dir_def)
qed

text \<open>A cached listing is what a listing made now would be.\<close>

definition cached_listing_fresh :: "machine \<Rightarrow> path \<Rightarrow> bool" where
  "cached_listing_fresh s p \<longleftrightarrow>
     (case map_of (directory_entries_cache (eng s)) (unsegs p) of
        None \<Rightarrow> True
      | Some entries \<Rightarrow>
          shows_dir (eng s) (host s) p \<and>
          entries = map snd (merge_visible_directory_entries (unsegs p) s))"

definition lists :: "machine \<Rightarrow> path \<Rightarrow> dir_entry list \<Rightarrow> bool" where
  "lists s p entries \<longleftrightarrow>
     sorted_wrt (<) (map de_name entries) \<and>
     set (map de_name entries) = {x. vis (eng s) (host s) (p @ [x]) \<noteq> None} \<and>
     list_all (\<lambda>d. \<exists>n. layer_node (layer_at (eng s) (host s) (p @ [de_name d])) = Some n \<and>
                       d = entry_of (eng s) (de_name d) n) entries"

lemma merged_lists:
  assumes lay: "layout (eng s) (host s)" and p: "listable s p"
  shows "lists s p (map snd (merge_visible_directory_entries (unsegs p) s))"
proof -
  let ?es = "merge_visible_directory_entries (unsegs p) s"
  note sorted = merged_sorted [OF lay p]
  have distinct: "distinct (map fst ?es)" using sorted(1) by (simp add: strict_sorted_iff)
  have "fst ` set ?es = {x. map_of ?es x \<noteq> None}"
    by (auto simp: map_of_eq_None_iff simp flip: not_None_eq)
  also have "\<dots> = {x. vis (eng s) (host s) (p @ [x]) \<noteq> None}"
    using layer_at_vis [of "eng s" "host s"] by (auto simp: merged_lookup [OF lay p] simp flip: layer_at_vis)
  finally have names: "set (map de_name (map snd ?es)) = {x. vis (eng s) (host s) (p @ [x]) \<noteq> None}"
    using sorted(2) by simp
  have "\<exists>n. layer_node (layer_at (eng s) (host s) (p @ [de_name d])) = Some n \<and> d = entry_of (eng s) (de_name d) n"
    if "(x, d) \<in> set ?es" for x d
  proof -
    have "map_of ?es x = Some d" using distinct that by simp
    then obtain n where "layer_node (layer_at (eng s) (host s) (p @ [x])) = Some n" "d = entry_of (eng s) x n"
      by (auto simp: merged_lookup [OF lay p])
    then show ?thesis by (simp add: entry_of_def)
  qed
  then have "list_all (\<lambda>d. \<exists>n. layer_node (layer_at (eng s) (host s) (p @ [de_name d])) = Some n \<and>
      d = entry_of (eng s) (de_name d) n) (map snd ?es)"
    by (fastforce simp: list_all_iff simp del: map_map)
  with sorted names show ?thesis by (simp only: lists_def)
qed


section \<open>Reading\<close>

text \<open>C24: When nothing fails, reading a path at an offset returns the bytes the file of the view has
  there, as many as were asked for and there are, and leaves the trees, the tables and the handles as they were.\<close>
theorem read_file_reads_view:
  assumes "project_engine T s" "plain_path (eng s) (host s) p" "clean p" "normalize_relative path = unsegs p"
    and seen: "file_in_view s p mode c" and "faults s = []" "0 \<le> sint offset"
    and fresh: "map_of (handles (eng s)) (next_handle (eng s)) = None"
  shows "case read_file e path count offset s of
      (Ok bytes, t) \<Rightarrow> bytes = take count (drop (unat offset) c) \<and> host t = host s \<and> store t = store s \<and>
        map_of (handles (eng t)) = map_of (handles (eng s))
    | _ \<Rightarrow> False"
proof -
  have v: "vis (eng s) (host s) p = Some (VFile mode c)" and lay: "layout (eng s) (host s)"
    using seen assms(1) by (simp_all add: file_in_view_def project_engine_def)
  have ne: "p \<noteq> []" by (rule file_not_root [OF lay v])
  then have rel: "unsegs p \<noteq> []" using assms(3) by simp
  from file_layer [OF v] obtain m where node: "layer_node (layer_at (eng s) (host s) p) = Some (File m c)" by auto
  have stat: "k_stat (host s) (layer_path (eng s) (unsegs p) (layer_at (eng s) (host s) p)) = Inr (File m c)"
    using node assms(3) layout_clean [OF lay]
    by (auto simp: layer_at_def upper_path_def base_path_def k_stat_get split: option.splits if_splits)
  have path: "(if (case layer_at (eng s) (host s) p of Upper _ \<Rightarrow> True | _ \<Rightarrow> False)
      then upper_path (eng s) (unsegs p) else base_path (eng s) (unsegs p)) =
      layer_path (eng s) (unsegs p) (layer_at (eng s) (host s) p)"
    using node by (cases "layer_at (eng s) (host s) p") auto
  let ?h = "\<lparr>backing = Some (File m c), backing_flags = 0, handle_flags = O_RDONLY, relative = unsegs p\<rparr>"
  let ?t = "s\<lparr>eng := (eng s)\<lparr>next_handle := next_handle (eng s) + 1,
                             handles := omap_set (next_handle (eng s)) ?h (handles (eng s))\<rparr>\<rparr>"
  have "open_handle path O_RDONLY e s = (Ok (next_handle (eng s)), ?t)"
    using assms(4,6) rel project_find_layer [OF assms(1-3)] node stat path
    by (simp add: open_handle_def Let_def prog_simps sys_open_def kernel_call_def from_host_def
        on_engine_def O_RDONLY_def)
  moreover have "read_handle (next_handle (eng s)) count offset ?t =
      (Ok (take count (drop (unat offset) c)), ?t)"
    using assms(6,7) by (simp add: read_handle_def prog_simps kernel_call_def O_WRONLY_def O_ACCMODE_def)
  moreover have "map_of (erase_key k m) = (map_of m)(k := None)" for k :: int and m :: "(int \<times> open_handle) list"
    by (induction m) (auto simp: erase_key_def fun_eq_iff)
  ultimately show ?thesis
    using fresh by (auto simp: read_file_def prog_simps close_handle_def on_engine_def fun_eq_iff)
qed

end
