(* ===== verification/Rename.thy ===== *)
theory Rename
  imports Removal Queries
begin

text \<open>
  \<^verbatim>\<open>rename\<close> of a regular file: the copy of the source is published at the target, the source leaves the
  upper tree, and one transaction hides the source in the Base tree and forgets the tombstones of the
  target.
\<close>

section \<open>The tombstones of a rename\<close>

lemma hid_drop:
  assumes "clean d" "d \<noteq> []" "clean q" "\<not> prefix d q"
  shows "hid (drop_tombstones (unsegs d) T) q = hid T q"
proof -
  have "unsegs r \<in> drop_tombstones (unsegs d) T \<longleftrightarrow> unsegs r \<in> T" if r: "r \<noteq> []" "prefix r q" for r
  proof -
    have c: "clean r" using assms(3) r(2) by (auto simp: prefix_def)
    have "r \<noteq> d" "\<not> strict_prefix d r" using assms(4) r(2) by (auto simp: strict_prefix_def)
    then show ?thesis
      using assms(1,2) c descendant_iff [of "unsegs d" "unsegs r"] unsegs_inj [of r d]
      by (simp add: drop_tombstones_def normalI)
  qed
  then show ?thesis by (auto simp: hid_def)
qed

definition rename_operation :: "engine \<Rightarrow> path \<Rightarrow> path \<Rightarrow> bool \<Rightarrow> recovery_operation" where
  "rename_operation en p d hides_base =
     (staged_operation en ''rename'' (unsegs p))\<lparr>op_target := unsegs d, add_path_tombstone := hides_base,
        drop_target_tombstones := True\<rparr>"

lemma rename_operation_facts [simp]:
  "op_kind (rename_operation en p d b) = ''rename''" "op_path (rename_operation en p d b) = unsegs p"
  "op_target (rename_operation en p d b) = unsegs d" "op_workspace (rename_operation en p d b) = workspace en"
  "op_phase (rename_operation en p d b) = Prepared" "add_path_tombstone (rename_operation en p d b) = b"
  "drop_target_tombstones (rename_operation en p d b) = True"
  by (simp_all add: rename_operation_def staged_operation_def)

lemma apply_rename:
  "apply_tombstones (rename_operation en p d b) T = drop_tombstones (unsegs d) (if b then insert (unsegs p) T else T)"
  by (simp add: apply_tombstones_def)

lemma hid_renamed:
  assumes "clean p" "p \<noteq> []" "clean d" "d \<noteq> []" "clean q" "\<not> prefix d q"
  shows "hid (apply_tombstones (rename_operation en p d b) T) q \<longleftrightarrow> b \<and> prefix p q \<or> hid T q"
  using hid_drop [OF assms(3-6)] hid_insert [OF assms(1,2,5), of T] by (simp add: apply_rename)

text \<open>
  The database drops the tombstones of the target without regard to the case of ASCII letters. It
  drops those the engine drops when no tombstone is below the target in another spelling.
\<close>

definition same_spelling :: "string set \<Rightarrow> path \<Rightarrow> bool" where
  "same_spelling T d \<longleftrightarrow>
     (\<forall>t \<in> T. prefix (map ascii_fold (unsegs d @ ''/'')) (map ascii_fold t) \<longrightarrow> prefix (unsegs d @ ''/'') t)"

lemma stored_tombstones_rename:
  assumes rows: "set (sql_load_workspace_tombstones (workspace en) st) = tombstones en" and like: "sqlite_like (sql_like e)"
    and twins: "same_spelling (insert (unsegs p) (tombstones en)) d"
  shows "set (map snd (filter (\<lambda>(w, t). w = workspace en) (finished_rows e (rename_operation en p d b) st))) =
    apply_tombstones (rename_operation en p d b) (tombstones en)"
proof -
  let ?added = "if b then insert (unsegs p) (tombstones en) else tombstones en"
  have like: "sql_like e (escape_like_wildcards (unsegs d) @ ''/%'') t \<longleftrightarrow> prefix (unsegs d @ ''/'') t" if "t \<in> ?added" for t
  proof -
    have "t \<in> insert (unsegs p) (tombstones en)" using that by (auto split: if_splits)
    then have "prefix (map ascii_fold (unsegs d @ ''/'')) (map ascii_fold t) \<longrightarrow> prefix (unsegs d @ ''/'') t"
      using twins unfolding same_spelling_def by (rule bspec [rotated])
    moreover have "prefix (unsegs d @ ''/'') t \<longrightarrow> prefix (map ascii_fold (unsegs d @ ''/'')) (map ascii_fold t)"
      using map_mono_prefix by blast
    ultimately show ?thesis using like unfolding sqlite_like_def by blast
  qed
  have T: "tombstones en = {t. (workspace en, t) \<in> set (tombstone_rows st)}"
    using rows by (force simp: sql_load_workspace_tombstones_def)
  have "set (map snd (filter (\<lambda>(w, t). w = workspace en) (finished_rows e (rename_operation en p d b) st))) =
      {t \<in> ?added. \<not> (t = unsegs d \<or> sql_like e (escape_like_wildcards (unsegs d) @ ''/%'') t)}"
    unfolding T
    by (force simp: finished_rows_def sql_finish_def sql_abandon_recovery_operation_def sql_add_tombstone_def
        sql_remove_tombstones_under_def)
  also have "\<dots> = apply_tombstones (rename_operation en p d b) (tombstones en)"
    using like by (auto simp: apply_rename drop_tombstones_def)
  finally show ?thesis .
qed

section \<open>The view after a rename\<close>

text \<open>No entries lie below the path.\<close>

definition bare :: "node \<Rightarrow> path \<Rightarrow> bool" where
  "bare h q \<longleftrightarrow> (\<forall>xs. xs \<noteq> [] \<longrightarrow> get h (q @ xs) = None)"

lemma bareD: "bare h q \<Longrightarrow> xs \<noteq> [] \<Longrightarrow> get h (q @ xs) = None"
  by (simp add: bare_def)

lemma bare_leaf: "(\<And>n. get h q = Some n \<Longrightarrow> leaf n) \<Longrightarrow> bare h q"
  using get_append [of h q] leaf_below by (auto simp: bare_def split: option.splits)

lemma bare_same: "bare h q \<Longrightarrow> (\<And>xs. same_entry (get h (q @ xs)) (get h' (q @ xs))) \<Longrightarrow> bare h' q"
  using same_entry_none by (fastforce simp: bare_def)

text \<open>The Base tree has at the path no directory with entries.\<close>

definition base_leaf :: "engine \<Rightarrow> node \<Rightarrow> path \<Rightarrow> bool" where
  "base_leaf en h q \<longleftrightarrow> (case get h (base_dir en @ q) of None \<Rightarrow> True | Some n \<Rightarrow> leaf n)"

lemma base_leaf_bare: "base_leaf en h q \<Longrightarrow> bare h (base_dir en @ q)"
  by (rule bare_leaf) (simp add: base_leaf_def)

definition entry_moved ::
  "path \<Rightarrow> path \<Rightarrow> entry \<Rightarrow> (path \<Rightarrow> entry option) \<Rightarrow> (path \<Rightarrow> entry option) \<Rightarrow> bool"
where
  "entry_moved p d x v w \<longleftrightarrow>
     (\<forall>q. clean q \<longrightarrow> w q = (if q = d then Some x else if q = p then None else v q))"

lemma vis_bare: "bare h (upper_dir en @ q) \<Longrightarrow> bare h (base_dir en @ q) \<Longrightarrow> xs \<noteq> [] \<Longrightarrow> vis en h (q @ xs) = None"
  using bareD [of h "upper_dir en @ q" xs] bareD [of h "base_dir en @ q" xs] by (simp add: vis_def)

lemma vis_moved:
  assumes p: "clean p" "p \<noteq> []" and d: "clean d" "d \<noteq> []" and apart: "\<not> prefix p d" "\<not> prefix d p"
    and out: "outside (S \<union> {upper_dir en @ d, upper_dir en @ p}) h1 h"
    and S: "\<And>r q. r \<in> S \<Longrightarrow> \<not> prefix r (upper_dir en @ q) \<and> \<not> prefix r (base_dir en @ q)"
    and trees: "\<And>q r. \<not> prefix (upper_dir en @ r) (base_dir en @ q)"
    and new: "get h (upper_dir en @ d) = Some n" "leaf n" and gone: "get h (upper_dir en @ p) = None"
    and old: "bare h1 (upper_dir en @ p)" "bare h1 (upper_dir en @ d)" "bare h1 (base_dir en @ p)" "bare h1 (base_dir en @ d)"
    and T': "T' = apply_tombstones (rename_operation en p d (base_shows en h1 p)) (tombstones en)"
  shows "entry_moved p d (abstr n) (vis en h1) (vis (en\<lparr>tombstones := T'\<rparr>) h)"
  unfolding entry_moved_def
proof (intro allI impI)
  fix q assume q: "clean q"
  let ?w = "vis (en\<lparr>tombstones := T'\<rparr>) h"
  have base: "map_option abstr (get h (base_dir en @ q)) = map_option abstr (get h1 (base_dir en @ q))"
    using S trees by (intro same_entry_abstr [OF outside_same [OF out], symmetric]) auto
  have none: "get h (base_dir en @ q) = None \<longleftrightarrow> get h1 (base_dir en @ q) = None"
    using base by (metis option.map_disc_iff)
  consider (target) "q = d" | (under_target) xs where "q = d @ xs" "xs \<noteq> []" "\<not> prefix p q"
    | (source) xs where "q = p @ xs" "\<not> prefix d q" | (other) "\<not> prefix d q" "\<not> prefix p q"
    using apart prefix_common [of d q p] by (metis append_Nil2 prefixE)
  then show "?w q = (if q = d then Some (abstr n) else if q = p then None else vis en h1 q)"
  proof cases
    case target
    then show ?thesis using new by (simp add: vis_def)
  next
    case under_target
    then have "get h (upper_dir en @ q) = None"
      using new bareD [OF bare_leaf, of h "upper_dir en @ d" xs] by simp
    moreover have "get h (base_dir en @ q) = None"
      using under_target bareD [OF old(4)] none by simp
    ultimately show ?thesis
      using under_target vis_bare [OF old(2,4), of xs] by (auto simp: vis_def)
  next
    case source
    have up: "get h (upper_dir en @ q) = None"
      using gone source get_append [of h "upper_dir en @ p" xs] by simp
    have "map_option abstr (get h (base_dir en @ q)) = None \<or> hid T' q"
    proof (cases "xs = []")
      case True
      then show ?thesis
        using source hid_renamed [OF p d q source(2)] none by (auto simp: T' base_shows_def)
    qed (use source bareD [OF old(3)] none in simp)
    with up have "?w q = None" by (auto simp: vis_def)
    then show ?thesis
      using source vis_bare [OF old(1,3), of xs] apart by (cases "xs = []") auto
  next
    case other
    have "same_entry (get h1 (upper_dir en @ q)) (get h (upper_dir en @ q))"
      using other S by (intro outside_same [OF out]) auto
    from same_entry_abstr [OF this] other base hid_renamed [OF p d q other(1)] show ?thesis
      by (auto simp: vis_def T' split: option.splits)
  qed
qed
section \<open>The outcome\<close>

text \<open>
  When the call returns, the entry is at the target and not at the source. After an error the view is
  the old one, or the entry is at the target and only the source may have changed besides. After a
  process exit recovery gives the old view or the one of a call that returned.
\<close>

definition renames_entry ::
  "env \<Rightarrow> path \<Rightarrow> path \<Rightarrow> path \<Rightarrow> entry \<Rightarrow> machine \<Rightarrow> (errno, 'a) res \<times> machine \<Rightarrow> bool"
where
  "renames_entry e T p d x s r \<longleftrightarrow>
     inside s (snd r) \<and>
     (\<exists>w. same_view e d (vis (eng s) (host s)) w \<and>
        (case r of
           (Ok _, t) \<Rightarrow> project_engine T t \<and> entry_moved p d x w (vis (eng t) (host t))
         | (Err _, t) \<Rightarrow> vis (eng t) (host t) = w \<or>
             (\<forall>q. prefix p q \<or> vis (eng t) (host t) q = (w(d := Some x)) q)
         | (Halt _, t) \<Rightarrow> recovers_to e T (eng s) t (\<lambda>v. v = w \<or> entry_moved p d x w v)))"

lemma renames_entry_Err:
  "inside s t \<Longrightarrow> same_view e d (vis (eng s) (host s)) w \<Longrightarrow>
   vis (eng t) (host t) = w \<or> (\<forall>q. prefix p q \<or> vis (eng t) (host t) q = (w(d := Some x)) q) \<Longrightarrow>
   renames_entry e T p d x s (Err err, t)"
  unfolding renames_entry_def prod.case res.case snd_conv by blast

text \<open>What the theorems about \<open>rename\<close> ask of the two paths.\<close>

definition renameable :: "machine \<Rightarrow> path \<Rightarrow> path \<Rightarrow> bool" where
  "renameable s p d \<longleftrightarrow>
     clean p \<and> clean d \<and> d \<noteq> [] \<and> \<not> prefix p d \<and> \<not> prefix d p \<and>
     plain_path (eng s) (host s) p \<and> plain_path (eng s) (host s) d \<and>
     base_leaf (eng s) (host s) p \<and> base_leaf (eng s) (host s) d \<and>
     same_spelling (insert (unsegs p) (tombstones (eng s))) d"

text \<open>What copy-up leaves of the conditions.\<close>

lemma copied_up_bare:
  assumes lay: "layout en h0" and c: "copied_up e en h0 d h1"
  shows "bare h0 (base_dir en @ q) \<Longrightarrow> bare h1 (base_dir en @ q)"
    and "base_shows en h1 q = base_shows en h0 q"
    and "(\<And>n. get h0 (upper_dir en @ q) = Some n \<Longrightarrow> \<not> is_dir n) \<Longrightarrow> \<not> strict_prefix q d \<Longrightarrow> bare h1 (upper_dir en @ q)"
proof -
  note base = copied_up_base [OF lay c]
  show "bare h0 (base_dir en @ q) \<Longrightarrow> bare h1 (base_dir en @ q)"
    by (erule bare_same) (use base [of "q @ _"] in simp)
  show "base_shows en h1 q = base_shows en h0 q"
    using same_entry_none [OF base [of q]] by (simp add: base_shows_def)
  assume up: "\<And>n. get h0 (upper_dir en @ q) = Some n \<Longrightarrow> \<not> is_dir n" and q: "\<not> strict_prefix q d"
  have "same_entry (get h0 (upper_dir en @ q)) (get h1 (upper_dir en @ q))" using c q by (auto simp: copied_up_def)
  then have "\<not> is_dir n" if "get h1 (upper_dir en @ q) = Some n" for n
    using up that by (auto elim!: same_entry_cases)
  then show "bare h1 (upper_dir en @ q)" using not_dir_leaf by (intro bare_leaf) blast
qed
lemma vis_source_leaving:
  assumes lay: "layout en h1" and out: "outside {recovery_dir en, upper_dir en @ d, upper_dir en @ p} h1 h"
    and new: "get h (upper_dir en @ d) = Some n" "leaf n" and old: "bare h1 (upper_dir en @ d)" and q: "\<not> prefix p q"
  shows "vis en h q = ((vis en h1)(d := Some (abstr n))) q"
proof -
  note apart = layout_apart [OF lay]
  have "\<not> prefix (upper_dir en @ r) (base_dir en @ q)" for r using apart(4) [of q] by (auto dest: append_prefixD)
  then have base: "map_option abstr (get h (base_dir en @ q)) = map_option abstr (get h1 (base_dir en @ q))"
    using apart(3) [of q] by (intro same_entry_abstr [OF outside_same [OF out], symmetric]) auto
  show ?thesis
  proof (cases "prefix d q")
    case True
    then obtain xs where xs: "q = d @ xs" by (auto simp: prefix_def)
    then show ?thesis
      using new bareD [OF bare_leaf, of h "upper_dir en @ d" xs] bareD [OF old, of xs] base
      by (cases "xs = []") (simp_all add: vis_def)
  next
    case False
    then have "same_entry (get h1 (upper_dir en @ q)) (get h (upper_dir en @ q))"
      using q apart(1) [of q] by (intro outside_same [OF out]) auto
    from same_entry_abstr [OF this] False base show ?thesis by (auto simp: vis_def split: option.splits)
  qed
qed

section \<open>A file moved across a process exit\<close>

text \<open>A file at the source, no directory at the target, and a tree after copy-up.\<close>

definition file_renaming :: "env \<Rightarrow> path \<Rightarrow> machine \<Rightarrow> path \<Rightarrow> path \<Rightarrow> perm \<Rightarrow> string \<Rightarrow> bool" where
  "file_renaming e T s p d pm c \<longleftrightarrow>
     project_engine T s \<and> sqlite_like (sql_like e) \<and> renameable s p d \<and> file_in_view s p pm c \<and>
     \<not> shows_dir (eng s) (host s) d"

abbreviation the_rename :: "machine \<Rightarrow> path \<Rightarrow> path \<Rightarrow> recovery_operation" where
  "the_rename s p d \<equiv> rename_operation (eng s) p d (base_shows (eng s) (host s) p)"

abbreviation file_copy :: "perm \<Rightarrow> string \<Rightarrow> node \<Rightarrow> bool" where
  "file_copy pm c n \<equiv> (\<exists>m. n = File m c \<and> perm m = pm)"

lemma file_renamingD:
  assumes "file_renaming e T s p d pm c"
  shows "layout (eng s) (host s)" "p \<noteq> []" "\<And>n. get (host s) (upper_dir (eng s) @ p) = Some n \<Longrightarrow> \<not> is_dir n"
    "\<And>n. get (host s) (upper_dir (eng s) @ d) = Some n \<Longrightarrow> \<not> is_dir n"
proof -
  show lay: "layout (eng s) (host s)" using assms by (simp add: file_renaming_def project_engine_def)
  have v: "vis (eng s) (host s) p = Some (VFile pm c)" using assms by (simp add: file_renaming_def file_in_view_def)
  show "p \<noteq> []" by (rule file_not_root [OF lay v])
  show "\<not> is_dir n" if "get (host s) (upper_dir (eng s) @ p) = Some n" for n
    by (rule file_upper_old [OF v that])
  show "\<not> is_dir n" if "get (host s) (upper_dir (eng s) @ d) = Some n" for n
    using assms that by (auto simp: file_renaming_def shows_dir_def vis_def elim: is_dirE)
qed

lemma renamed_view:
  assumes ren: "file_renaming e T s p d pm c" and c: "copied_up e (eng s) (host s) d h1"
    and out: "outside (S \<union> {upper_dir (eng s) @ d, upper_dir (eng s) @ p}) h1 h"
    and S: "\<And>r q. r \<in> S \<Longrightarrow> \<not> prefix r (upper_dir (eng s) @ q) \<and> \<not> prefix r (base_dir (eng s) @ q)"
    and new: "get h (upper_dir (eng s) @ d) = Some n" "file_copy pm c n" and gone: "get h (upper_dir (eng s) @ p) = None"
    and en: "upper_dir en = upper_dir (eng s)" "base_dir en = base_dir (eng s)"
      "tombstones en = apply_tombstones (the_rename s p d) (tombstones (eng s))"
  shows "entry_moved p d (VFile pm c) (vis (eng s) h1) (vis en h)"
proof -
  let ?en = "eng s"
  note facts = file_renamingD [OF ren]
  have paths: "clean p" "clean d" "d \<noteq> []" "\<not> prefix p d" "\<not> prefix d p" "base_leaf ?en (host s) p" "base_leaf ?en (host s) d"
    using ren by (auto simp: file_renaming_def renameable_def)
  have trees: "\<not> prefix (upper_dir ?en @ r) (base_dir ?en @ q)" for q r
    using layout_apart(4) [OF facts(1), of q] by (auto dest: append_prefixD)
  note bares = copied_up_bare [OF facts(1) c]
  have upper: "bare h1 (upper_dir ?en @ p)" "bare h1 (upper_dir ?en @ d)"
    using bares(3) [of p] bares(3) [of d] facts(3,4) paths(4) by (auto simp: strict_prefix_def)
  have base: "bare h1 (base_dir ?en @ p)" "bare h1 (base_dir ?en @ d)"
    using bares(1) paths(6,7) base_leaf_bare by blast+
  have leaf: "leaf n" using new(2) by (auto simp: leaf_def)
  have "entry_moved p d (abstr n) (vis ?en h1) (vis (?en\<lparr>tombstones := tombstones en\<rparr>) h)"
    by (rule vis_moved [OF paths(1) facts(2) paths(2-5) out S trees new(1) leaf gone upper base])
      (simp_all add: en(3) bares(2))
  moreover have "vis (?en\<lparr>tombstones := tombstones en\<rparr>) h = vis en h"
    using en by (intro vis_cong) simp_all
  ultimately show ?thesis using new(2) by auto
qed

lemma rename_recovers_to:
  assumes ren: "file_renaming e T s p d pm c" and c: "copied_up e (eng s) (host s) d h1"
    and pub: "publishable (the_rename s p d) h1 (store s) (eng s) d p"
    and image: "crash_image e (the_rename s p d) h1 (store s) (eng s) d p (file_copy pm c) (host s') (store s')"
  shows "recovers_to e T (eng s) s' (\<lambda>v. v = vis (eng s) h1 \<or> entry_moved p d (VFile pm c) (vis (eng s) h1) v)"
  unfolding recovers_to_def
proof (intro allI impI)
  fix e' :: env and root assume e': "tribios_failpoint e' = None \<and> sql_like e' = sql_like e"
  let ?W = "T @ [''workspaces'']" and ?op = "the_rename s p d" and ?en = "eng s"
  let ?s = "s'\<lparr>faults := []\<rparr>"
  note facts = file_renamingD [OF ren]
  have ps: "project_engine T s" and like: "sqlite_like (sql_like e)" and paths: "clean p" "clean d" "d \<noteq> []"
    and twins: "same_spelling (insert (unsegs p) (tombstones ?en)) d"
    using ren by (auto simp: file_renaming_def renameable_def)
  then have W: "housed ?W ?en" and tree: "project_tree T ?W h1" and base: "base_dir ?en = T @ [''base'']"
    and lay: "layout ?en h1" and ok: "journal_ok (store s)" "pending (store s) = []"
    and rows: "set (sql_load_workspace_tombstones (workspace ?en) (store s)) = tombstones ?en"
    using copied_up_tree [OF _ _ c] copied_up_layout [OF _ c] by (auto simp: project_engine_def)
  have op: "entry_operation ?op ?en d p"
    using paths facts(2) by (simp add: entry_operation_def staged_filesystem_operation_def)
  have rep: "replaceable n (get h1 (upper_dir ?en @ d))" if "file_copy pm c n" for n
    using that copied_up_upper_leaf [OF c facts(4)] facts(4) by (auto intro!: replaceable_leaf)
  note apart = apart_litter(1) [OF W tree base lay]
  have image': "crash_image e ?op h1 (store s) ?en d p (file_copy pm c) (host ?s) (store ?s)" using image by simp
  obtain s2 where run: "recover_interrupted_operations e' root T ?W ?s = (Ok (), s2)" "faults s2 = []" "swept ?W (host s2)"
    and settled: "settled_old T ?W h1 (store s) (host s2) (store s2) \<or>
      (\<exists>n. file_copy pm c n \<and> settled_new e ?op T ?W h1 (store s) ?en d p n (host s2) (store s2))"
    using recovery_settles [OF pub op W tree ok _ rep _ _ image', of e' root] e' by auto
  have S: "\<not> prefix r (upper_dir ?en @ q) \<and> \<not> prefix r (base_dir ?en @ q)" if "r \<in> litter T ?W" for r q
    using upper_litter_apart(1) [OF W tree that] apart [of p] that by (auto simp: apart_or_def)
  have st: "operation_rows (store s2) = operation_rows (store s)" "operation_seq (store s2) = operation_seq (store s) + 1"
    using settled by (auto simp: settled_old_def settled_new_def)
  have out: "outside (litter T ?W \<union> {upper_dir ?en @ d, upper_dir ?en @ p}) h1 (host s2)"
    using settled by (auto simp: settled_old_def settled_new_def changed_paths_def elim: outside_mono)
  have "vis (reopened ?en (store s2)) (host s2) = vis ?en h1 \<or>
      entry_moved p d (VFile pm c) (vis ?en h1) (vis (reopened ?en (store s2)) (host s2))"
    using settled
  proof (elim disjE exE conjE)
    assume o: "settled_old T ?W h1 (store s) (host s2) (store s2)"
    then have "vis ?en (host s2) = vis ?en h1"
      using vis_kept [OF _ apart] upper_litter_apart(2) [OF W tree, of _ p] by (auto simp: settled_old_def)
    moreover have "vis (reopened ?en (store s2)) (host s2) = vis ?en (host s2)"
      using o rows by (intro vis_cong) (auto simp: reopened_def settled_old_def sql_load_workspace_tombstones_def)
    ultimately show ?thesis by simp
  next
    fix n m assume n: "settled_new e ?op T ?W h1 (store s) ?en d p n (host s2) (store s2)" "n = File m c" "perm m = pm"
    then have "get (host s2) (upper_dir ?en @ d) = Some n" "get (host s2) (upper_dir ?en @ p) = None"
      by (simp_all add: settled_new_def)
    then show ?thesis
      using n stored_tombstones_rename [OF rows like twins]
      by (intro disjI2 renamed_view [OF ren c out S]) (auto simp: reopened_def settled_new_def sql_load_workspace_tombstones_def)
  qed
  then show "\<exists>en' t. restart e' root T ?en ?s = (Ok en', t) \<and> project_engine T (t\<lparr>eng := en'\<rparr>) \<and>
      (vis en' (host t) = vis ?en h1 \<or> entry_moved p d (VFile pm c) (vis ?en h1) (vis en' (host t)))"
    by (intro restarted [OF ps run st c out, where V = "\<lambda>v. v = vis ?en h1 \<or> entry_moved p d (VFile pm c) (vis ?en h1) v"])
      (use paths(3) facts(2) in \<open>auto simp: strict_prefix_def\<close>)
qed

section \<open>The call\<close>

lemma check_rename_target_pure:
  "check_rename_target n to s = (Ok (), s) \<or> (\<exists>err. check_rename_target n to s = (Err err, s))"
  by (auto simp: check_rename_target_def run_gets_bnd prog_simps split: option.split)

lemma check_rename_target_file:
  "check_rename_target (File m c) to s = (Ok (), s) \<Longrightarrow> layer_node (find_visible_entry_layer to s) = Some n \<Longrightarrow> \<not> is_dir n"
  by (auto simp: check_rename_target_def run_gets_bnd prog_simps split: if_splits)

lemma refused_renames_entry: "renames_entry e T p d x s (Err err, s)"
  unfolding renames_entry_def using same_view_refl by auto

lemma rename_program:
  assumes ren: "file_renaming e T s p d pm c"
  shows "renames_entry e T p d (VFile pm c) s
    (bnd (create_missing_upper_parent_directories e (unsegs d)) (\<lambda>_.
     bnd (gets (\<lambda>s. (eng s, base_is_visible (eng s) (unsegs p) \<and> lstat_ok (host s) (base_path (eng s) (unsegs p)))))
       (\<lambda>(en, hides_base). publish_staged_operation e (rename_operation en p d hides_base)
          (materialize_visible_entry_at e (unsegs p)))) s)"
    (is "_ (bnd ?copy (\<lambda>_. bnd (gets ?look) ?publish) s)")
proof -
  let ?en = "eng s" and ?h = "host s" and ?st = "store s" and ?op = "the_rename s p d"
  let ?start = "\<lambda>h1. holds False (\<lambda>h st en. h = h1 \<and> st = ?st \<and> same_engine en ?en)"
  note facts = file_renamingD [OF ren]
  have ps: "project_engine T s" and v: "vis ?en ?h p = Some (VFile pm c)"
    and paths: "clean p" "clean d" "d \<noteq> []" "\<not> prefix p d" "\<not> prefix d p" "plain_path ?en ?h p" "plain_path ?en ?h d"
    using ren by (auto simp: file_renaming_def renameable_def file_in_view_def)
  have fresh: "get ?h (stage_of ?en ?st) = None" using ps stages_freeD by (simp add: project_engine_def)
  let ?Q = "\<lambda>a. holds False (\<lambda>h st en. (\<exists>h1 n. copied_up e ?en ?h d h1 \<and> file_copy pm c n \<and>
       publication_done ?op h1 ?en (stage_of ?en ?st) d p n h) \<and>
       st = finished_store e (as_published ?op ?st) (journaled_publishing ?op ?st) \<and>
       same_engine en (?en\<lparr>tombstones := apply_tombstones ?op (tombstones ?en)\<rparr>))"
  let ?E = "\<lambda>_. holds False (\<lambda>h st en. same_engine en ?en \<and>
       (\<exists>h1. copied_up e ?en ?h d h1 \<and> half_done ?op h1 ?en (stage_of ?en ?st) d p (file_copy pm c) h))"
  let ?H = "\<lambda>_. holds False (\<lambda>h st en. \<exists>h1. copied_up e ?en ?h d h1 \<and>
       publishable ?op h1 ?st ?en d p \<and> crash_image e ?op h1 ?st ?en d p (file_copy pm c) h st)"
  have publish: "hoare (holds False (\<lambda>h st en. (copied_up e ?en ?h d h1 \<and> dir_at h1 (upper_dir ?en @ butlast d)) \<and>
      h = h1 \<and> st = ?st \<and> same_engine en ?en)) (bnd (gets ?look) ?publish) ?Q ?E ?H" for h1
  proof (rule hoare_const [where c = "copied_up e ?en ?h d h1 \<and> dir_at h1 (upper_dir ?en @ butlast d)"])
    assume h1: "copied_up e ?en ?h d h1 \<and> dir_at h1 (upper_dir ?en @ butlast d)"
    then have c: "copied_up e ?en ?h d h1" ..
    have lay1: "layout ?en h1" and pl1: "plain ?en h1 p"
      by (rule copied_up_layout [OF facts(1) c], rule copied_up_plain [OF facts(1) c plain_pathD [OF paths(6)]])
    have pub: "publishable ?op h1 ?st ?en d p"
      by (rule copied_up_publishable [OF facts(1) c _ _ _ _ fresh])
        (use h1 paths facts(2) plain_pathD in \<open>auto simp: dest_of_def\<close>)
    have ready: "file_at ?en p (layer_at ?en ?h p) pm c h en (stage_of ?en ?st)"
      if "outside {recovery_dir ?en} h1 h" "dir_at h (recovery_dir ?en)" "same_engine en ?en" for h en
      by (rule file_is_ready [OF facts(1) plain_pathD [OF paths(6)] paths(1) v c that])
    have look: "?look s' = (eng s', base_shows ?en ?h p)" and op: "rename_operation (eng s') p d b = rename_operation ?en p d b"
      if "?start h1 s'" for s' b
    proof -
      have en: "same_engine (eng s') ?en" and h: "host s' = h1" using that by (auto simp: holds_def)
      have "base_is_visible (eng s') (unsegs p) \<longleftrightarrow> \<not> hid (tombstones ?en) p"
        using paths(1) same_engineD(3) [OF en] by (simp add: base_is_visible_def hidden_by_tombstone_hid)
      moreover have "\<not> hid (tombstones ?en) p \<Longrightarrow> lstat_ok (host s') (base_path (eng s') (unsegs p)) \<longleftrightarrow> get h1 (base_dir ?en @ p) \<noteq> None"
        using lookup_base(2) [OF lay1 pl1 paths(1)] paths(1) same_engineD(2) [OF en] h by (simp add: base_path_def)
      ultimately show "?look s' = (eng s', base_shows ?en ?h p)"
        using copied_up_bare(2) [OF facts(1) c, of p] by (auto simp: base_shows_def)
      show "rename_operation (eng s') p d b = rename_operation ?en p d b"
        using same_engineD(4) [OF en] by (simp add: rename_operation_def staged_operation_def)
    qed
    have rep: "replaceable n (get ?h (upper_dir ?en @ d))" if "file_copy pm c n" for n
      using that facts(4) by (auto intro!: replaceable_leaf)
    have "hoare (?start h1) (publish_staged_operation e ?op (materialize_visible_entry_at e (unsegs p))) ?Q ?E ?H"
      by (rule hoare_conseq [OF copy_stage.publish_after_copy_up [OF pub c ready facts(4) rep, where F = False]])
        (auto simp: holds_def)
    then have "hoare (\<lambda>s'. ?start h1 s') (bnd (gets ?look) ?publish) ?Q ?E ?H"
      using look op unfolding hoare_def by (auto simp: run_gets_bnd)
    then show ?thesis by (rule hoare_pre) (auto simp: holds_def)
  qed (auto simp: holds_def)
  let ?mid = "\<lambda>h1. holds False (\<lambda>h st en. (copied_up e ?en ?h d h1 \<and> dir_at h1 (upper_dir ?en @ butlast d)) \<and>
      h = h1 \<and> st = ?st \<and> same_engine en ?en)"
  have copy: "hoare (?start ?h) ?copy (\<lambda>_ s. \<exists>h1. ?mid h1 s) ?E ?H"
    by (rule hoare_conseq [OF copy_up_first [OF facts(1) paths(7,2,3), where F = False]])
      (auto simp: holds_def half_done_def)
  have "outcome ?Q ?E ?H (bnd ?copy (\<lambda>_. bnd (gets ?look) ?publish) s)"
    by (rule hoareD [OF hoare_bnd [OF copy hoare_ex [OF publish]]]) (simp add: holds_def)
  then have "outcome (\<lambda>a t. renames_entry e T p d (VFile pm c) s (Ok a, t)) (\<lambda>err t. renames_entry e T p d (VFile pm c) s (Err err, t))
      (\<lambda>f t. renames_entry e T p d (VFile pm c) s (Halt f, t)) (bnd ?copy (\<lambda>_. bnd (gets ?look) ?publish) s)"
  proof (rule outcome_mono)
    fix a t assume "?Q a t"
    then obtain h1 n where c: "copied_up e ?en ?h d h1" and n: "file_copy pm c n"
      and pub: "publication_done ?op h1 ?en (stage_of ?en ?st) d p n (host t)"
      and st: "store t = finished_store e (as_published ?op ?st) (journaled_publishing ?op ?st)"
      and en: "same_engine (eng t) (?en\<lparr>tombstones := apply_tombstones ?op (tombstones ?en)\<rparr>)"
      by (auto simp: holds_def)
    have gone: "source_removed h1 ?en (stage_of ?en ?st) d p n (host t)" using pub by (simp add: publication_done_def)
    have lay1: "layout ?en h1" by (rule copied_up_layout [OF facts(1) c])
    have "project_engine T t"
      by (rule published_ready [OF ps c paths(3) _ pub st en stored_tombstones_rename])
        (use ren facts(2) in \<open>auto simp: file_renaming_def renameable_def project_engine_def\<close>)
    moreover have "entry_moved p d (VFile pm c) (vis ?en h1) (vis (eng t) (host t))"
      by (rule renamed_view [OF ren c _ _ _ n, where S = "{recovery_dir ?en}"])
        (use gone same_engineD [OF en] layout_apart [OF lay1] in \<open>auto simp: source_removed_def insert_commute\<close>)
    moreover have "inside s t" by (rule copied_up_inside [OF facts(1) c publication_done_outside [OF pub]]) auto
    ultimately show "renames_entry e T p d (VFile pm c) s (Ok a, t)"
      using copied_up_vis [OF facts(1) c] by (auto simp: renames_entry_def)
  next
    fix err t assume "?E err t"
    then obtain h1 where c: "copied_up e ?en ?h d h1" and en: "same_engine (eng t) ?en"
      and half: "half_done ?op h1 ?en (stage_of ?en ?st) d p (file_copy pm c) (host t)"
      by (auto simp: holds_def)
    have lay1: "layout ?en h1" by (rule copied_up_layout [OF facts(1) c])
    have bare: "bare h1 (upper_dir ?en @ d)"
      using copied_up_bare(3) [OF facts(1) c facts(4)] by (simp add: strict_prefix_def)
    from half have "vis ?en (host t) = vis ?en h1 \<or> (\<forall>q. prefix p q \<or> vis ?en (host t) q = ((vis ?en h1)(d := Some (VFile pm c))) q)"
      unfolding half_done_def
    proof (elim disjE exE conjE)
      assume "untouched h1 ?en (host t)"
      with outside_vis [OF lay1, of "host t"] show ?thesis by (auto simp: untouched_def)
    next
      fix n m assume n: "n = File m c" "perm m = pm"
        and pub: "entry_published h1 ?en (stage_of ?en ?st) d n (host t)"
      then have out: "outside {recovery_dir ?en, upper_dir ?en @ d, upper_dir ?en @ p} h1 (host t)"
        by (auto simp: entry_published_def elim: outside_mono)
      with vis_source_leaving [OF lay1 out _ _ bare, of n] pub n show ?thesis by (auto simp: entry_published_def leaf_def)
    next
      fix n m assume n: "n = File m c" "perm m = pm" and gone: "source_in_removal h1 ?en d p n (host t)"
      then have out: "outside {recovery_dir ?en, upper_dir ?en @ d, upper_dir ?en @ p} h1 (host t)"
        by (simp add: source_in_removal_def)
      with vis_source_leaving [OF lay1 out _ _ bare, of n] gone n show ?thesis by (auto simp: source_in_removal_def leaf_def)
    qed
    then show "renames_entry e T p d (VFile pm c) s (Err err, t)"
      by (intro renames_entry_Err [OF copied_up_inside [OF facts(1) c half_done_outside [OF half]] copied_up_vis [OF facts(1) c]])
        (auto simp only: same_engine_vis [OF en] insert_iff empty_iff prefix_def)
  next
    fix f t assume H: "?H f t"
    then have "inside s t"
      using copied_up_inside [OF facts(1) _ crash_image_outside] by (fastforce simp: holds_def)
    with H show "renames_entry e T p d (VFile pm c) s (Halt f, t)"
      unfolding renames_entry_def prod.case res.case snd_conv holds_def
      by (blast intro: rename_recovers_to [OF ren] copied_up_vis [OF facts(1)])
  qed
  then show ?thesis by (rule outcome_cases) simp_all
qed

lemma rename_renames_entry:
  assumes "project_engine T s" "sqlite_like (sql_like e)" "renameable s p d" "file_in_view s p pm c"
    and "normalize_relative from = unsegs p" "normalize_relative to = unsegs d"
  shows "renames_entry e T p d (VFile pm c) s (rename e from to s)"
proof -
  have v: "vis (eng s) (host s) p = Some (VFile pm c)" using assms(4) by (simp add: file_in_view_def)
  have paths: "clean p" "clean d" "d \<noteq> []" "\<not> prefix p d" "plain_path (eng s) (host s) p" "plain_path (eng s) (host s) d"
    using assms(3) by (auto simp: renameable_def)
  have p: "p \<noteq> []" using assms(1) file_not_root [OF _ v] by (simp add: project_engine_def)
  note find = project_find_layer [OF assms(1)]
  obtain m where src: "layer_node (layer_at (eng s) (host s) p) = Some (File m c)" using file_layer [OF v] by auto
  have "unsegs p \<noteq> unsegs d" "\<not> prefix (unsegs p @ ''/'') (unsegs d)"
    using paths p unsegs_inj [of p d] descendant_iff [of "unsegs p" "unsegs d"] by (auto simp: normalI)
  then have run: "rename e from to s = bnd (check_rename_target (File m c) (unsegs d)) (\<lambda>_.
      bnd (create_missing_upper_parent_directories e (unsegs d)) (\<lambda>_.
      bnd (gets (\<lambda>s. (eng s, base_is_visible (eng s) (unsegs p) \<and> lstat_ok (host s) (base_path (eng s) (unsegs p)))))
       (\<lambda>(en, hides_base). publish_staged_operation e (rename_operation en p d hides_base)
          (materialize_visible_entry_at e (unsegs p))))) s"
    using paths p src find [of p]
    by (simp add: rename_def assms(5,6) Let_def run_gets_bnd rename_operation_def)
  show ?thesis
  proof (cases "check_rename_target (File m c) (unsegs d) s = (Ok (), s)")
    case True
    have "\<not> shows_dir (eng s) (host s) d"
    proof
      assume "shows_dir (eng s) (host s) d"
      then obtain n where "layer_node (layer_at (eng s) (host s) d) = Some n" "is_dir n"
        unfolding shows_dir_layer by blast
      with check_rename_target_file [OF True, of n] find [of d] paths show False by simp
    qed
    then have "file_renaming e T s p d pm c" using assms by (simp add: file_renaming_def)
    from rename_program [OF this] True run show ?thesis by (simp add: bnd_def)
  next
    case False
    then obtain err where "check_rename_target (File m c) (unsegs d) s = (Err err, s)"
      using check_rename_target_pure by blast
    with run show ?thesis by (simp add: bnd_def refused_renames_entry)
  qed
qed

text \<open>C26: Renaming a file to a path at which no directory with entries is hidden moves its content: the target
  shows the file and the source shows nothing; after an error the file is still at one of the two, and a
  process exit with recovery leaves the old view or the new one.\<close>
theorem rename_is_atomic:
  assumes "project_engine T s" "sqlite_like (sql_like e)" "renameable s p d" "file_in_view s p pm c"
    and "normalize_relative from = unsegs p" "normalize_relative to = unsegs d"
  shows "renames_entry e T p d (VFile pm c) s (rename e from to s)"
  using assms by (rule rename_renames_entry)

end
