(* ===== verification/Utf8.thy ===== *)
theory Utf8
  imports Paths
begin

text \<open>
  The UTF-8 check of \<^verbatim>\<open>core/capture_policy.cpp\<close>, a loop over byte ranges, and the reference it
  meets: the encodings of sequences of Unicode scalar values.
\<close>

abbreviation byte :: "char \<Rightarrow> nat" where "byte c \<equiv> of_char c"

lemma byte_bound: "byte c < 256"
  by (metis of_char_of of_nat_of_char of_char_mod_256 mod_less_divisor zero_less_numeral)

section \<open>UTF-8\<close>

definition utf8_sequence :: "nat \<Rightarrow> (nat \<times> nat \<times> nat) option" where
  "utf8_sequence lead =
     (if 0xC2 \<le> lead \<and> lead \<le> 0xDF then Some (1, 0x80, 0xBF)
      else if 0xE0 \<le> lead \<and> lead \<le> 0xEF
      then Some (2, (if lead = 0xE0 then 0xA0 else 0x80), (if lead = 0xED then 0x9F else 0xBF))
      else if 0xF0 \<le> lead \<and> lead \<le> 0xF4
      then Some (3, (if lead = 0xF0 then 0x90 else 0x80), (if lead = 0xF4 then 0x8F else 0xBF))
      else None)"

function utf8_from :: "string \<Rightarrow> nat \<Rightarrow> bool" where
  "utf8_from text index =
     (if index < length text
      then
        let lead = byte (text ! index) in
        if lead < 0x80 then utf8_from text (index + 1)
        else case utf8_sequence lead of
          None \<Rightarrow> False
        | Some (continuation, second_low, second_high) \<Rightarrow>
            if index + continuation \<ge> length text then False
            else
              let second = byte (text ! (index + 1)) in
              if second < second_low \<or> second > second_high then False
              else if \<not> list_all (\<lambda>offset. and (byte (text ! (index + offset))) 0xC0 = 0x80)
                          [2..<continuation + 1]
              then False
              else utf8_from text (index + continuation + 1)
      else True)"
  by auto
termination by (relation "measure (\<lambda>(text, index). length text - index)") auto

declare utf8_from.simps [simp del]

definition is_valid_utf8 :: "string \<Rightarrow> bool" where
  "is_valid_utf8 text = utf8_from text 0"

section \<open>The UTF-8 check accepts the encodings of scalar values\<close>

text \<open>Unicode scalar values and their encoding.\<close>

definition scalar :: "nat \<Rightarrow> bool" where
  "scalar cp \<longleftrightarrow> cp < 0x110000 \<and> \<not> (0xD800 \<le> cp \<and> cp \<le> 0xDFFF)"

definition utf8_bytes :: "nat \<Rightarrow> nat list" where
  "utf8_bytes cp =
     (if cp < 0x80 then [cp]
      else if cp < 0x800 then [0xC0 + cp div 64, 0x80 + cp mod 64]
      else if cp < 0x10000 then [0xE0 + cp div 4096, 0x80 + cp div 64 mod 64, 0x80 + cp mod 64]
      else [0xF0 + cp div 262144, 0x80 + cp div 4096 mod 64, 0x80 + cp div 64 mod 64, 0x80 + cp mod 64])"

definition encode_scalar :: "nat \<Rightarrow> string" where
  "encode_scalar cp = map char_of (utf8_bytes cp)"

lemma continuation_byte:
  assumes "b < 256"
  shows "and b 0xC0 = (0x80 :: nat) \<longleftrightarrow> 0x80 \<le> b \<and> b \<le> 0xBF"
proof -
  have bits: "bit (0xC0 :: nat) n \<longleftrightarrow> 6 \<le> n \<and> bit (3 :: nat) (n - 6)" for n
    using bit_push_bit_iff_nat [of 6 3 n] by simp
  have "and b 0xC0 = push_bit 6 (and (drop_bit 6 b) 3)"
    by (rule bit_eqI) (auto simp: bit_simps bits)
  also have "and (drop_bit 6 b) 3 = drop_bit 6 b"
  proof -
    have "drop_bit 6 b < 4" using assms by (simp add: drop_bit_eq_div less_mult_imp_div_less)
    then consider "drop_bit 6 b = 0" | "drop_bit 6 b = 1" | "drop_bit 6 b = 2" | "drop_bit 6 b = 3" by linarith
    then show ?thesis by cases simp_all
  qed
  finally have "and b 0xC0 = 64 * (b div 64)" by (simp add: push_bit_eq_mult drop_bit_eq_div)
  then show ?thesis by auto
qed

text \<open>The check on lists of byte values, one sequence at a time.\<close>

fun utf8_list :: "nat list \<Rightarrow> bool" where
  "utf8_list [] = True"
| "utf8_list (lead # bs) =
     (if lead < 0x80 then utf8_list bs
      else case utf8_sequence lead of
        None \<Rightarrow> False
      | Some (continuation, low, high) \<Rightarrow>
          continuation \<le> length bs \<and> low \<le> bs ! 0 \<and> bs ! 0 \<le> high \<and>
          list_all (\<lambda>b. 0x80 \<le> b \<and> b \<le> 0xBF) (take (continuation - 1) (drop 1 bs)) \<and>
          utf8_list (drop continuation bs))"

lemma utf8_from_list: "index \<le> length s \<Longrightarrow> utf8_from s index = utf8_list (map byte (drop index s))"
proof (induction s index rule: utf8_from.induct)
  case (1 s index)
  show ?case
  proof (cases "index < length s")
    case True
    then have d: "drop index s = s ! index # drop (Suc index) s" by (simp add: Cons_nth_drop_Suc)
    show ?thesis
    proof (cases "byte (s ! index) < 0x80")
      case small: True
      with 1(1) [OF True refl small] True d show ?thesis by (subst utf8_from.simps) simp
    next
      case big: False
      show ?thesis
      proof (cases "utf8_sequence (byte (s ! index))")
        case None
        with True big d show ?thesis by (subst utf8_from.simps) simp
      next
        case (Some r)
        obtain k low high where r: "r = (k, low, high)" by (cases r)
        have k: "k = 1 \<or> k = 2 \<or> k = 3" using Some r by (auto simp: utf8_sequence_def split: if_splits)
        let ?t = "drop (Suc index) s"
        have second: "byte (s ! (index + 1)) = map byte ?t ! 0" if "index + k < length s"
          using that k by auto
        have rest: "list_all (\<lambda>offset. and (byte (s ! (index + offset))) 0xC0 = 0x80) [2..<k + 1] =
            list_all (\<lambda>b. 0x80 \<le> b \<and> b \<le> 0xBF) (take (k - 1) (drop 1 (map byte ?t)))" if "index + k < length s"
        proof -
          have "take (k - 1) (drop 1 (map byte ?t)) = map (\<lambda>offset. byte (s ! (index + offset))) [2..<k + 1]"
            using that k by (intro nth_equalityI) (auto simp: less_Suc_eq numeral_3_eq_3 numeral_2_eq_2)
          then show ?thesis using continuation_byte [OF byte_bound] by (simp add: list_all_iff)
        qed
        have step: "utf8_from s index = (index + k < length s \<and> low \<le> byte (s ! (index + 1)) \<and> byte (s ! (index + 1)) \<le> high \<and>
            list_all (\<lambda>offset. and (byte (s ! (index + offset))) 0xC0 = 0x80) [2..<k + 1] \<and> utf8_from s (index + k + 1))"
          using True big Some r by (subst utf8_from.simps) (auto simp: Let_def)
        show ?thesis
        proof (cases "index + k < length s")
          case False
          then have "\<not> k \<le> length (drop (Suc index) s)" using True k by auto
          with False step d big Some r show ?thesis by simp
        next
          case fits: True
          have IH: "utf8_from s (index + k + 1) = utf8_list (map byte (drop (index + k + 1) s))"
            if "low \<le> byte (s ! (index + 1))" "byte (s ! (index + 1)) \<le> high"
              "list_all (\<lambda>offset. and (byte (s ! (index + offset))) 0xC0 = 0x80) [2..<k + 1]"
            by (rule 1(2) [OF True refl big Some]) (use that fits r in auto)
          have dd: "drop (index + k + 1) s = drop k ?t" by (simp add: add.commute)
          show ?thesis
            using step IH fits d big Some r second [OF fits] rest [OF fits]
            by (auto simp: drop_map ac_simps)
        qed
      qed
    qed
  qed (subst utf8_from.simps, simp)
qed

lemma digits64:
  "z < 64 \<Longrightarrow> (x * 64 + z) div 64 = (x :: nat)" "z < 64 \<Longrightarrow> (x * 64 + z) mod 64 = z"
  "z < 64 \<Longrightarrow> y < 64 \<Longrightarrow> (x * 4096 + y * 64 + z) div 4096 = x"
  "z < 64 \<Longrightarrow> y < 64 \<Longrightarrow> (x * 4096 + y * 64 + z) div 64 mod 64 = y"
  "z < 64 \<Longrightarrow> y < 64 \<Longrightarrow> (x * 4096 + y * 64 + z) mod 64 = z"
  "z < 64 \<Longrightarrow> y < 64 \<Longrightarrow> w < 64 \<Longrightarrow> (x * 262144 + w * 4096 + y * 64 + z) div 262144 = x"
  "z < 64 \<Longrightarrow> y < 64 \<Longrightarrow> w < 64 \<Longrightarrow> (x * 262144 + w * 4096 + y * 64 + z) div 4096 mod 64 = w"
  "z < 64 \<Longrightarrow> y < 64 \<Longrightarrow> w < 64 \<Longrightarrow> (x * 262144 + w * 4096 + y * 64 + z) div 64 mod 64 = y"
  "z < 64 \<Longrightarrow> y < 64 \<Longrightarrow> w < 64 \<Longrightarrow> (x * 262144 + w * 4096 + y * 64 + z) mod 64 = z"
proof -
  show "z < 64 \<Longrightarrow> (x * 64 + z) div 64 = (x :: nat)" "z < 64 \<Longrightarrow> (x * 64 + z) mod 64 = z" by simp_all
  have y: "(u * 64 + z) div 64 = u" "(u * 64 + z) mod 64 = z" if "z < 64" for u z :: nat using that by simp_all
  have two: "x * 4096 + y * 64 + z = (x * 64 + y) * 64 + z" for x y z :: nat by simp
  have three: "x * 262144 + w * 4096 + y * 64 + z = ((x * 64 + w) * 64 + y) * 64 + z" for x w y z :: nat by simp
  have q: "n div 4096 = n div 64 div 64" "n div 262144 = n div 64 div 64 div 64" for n :: nat by (simp_all add: div_mult2_eq [symmetric])
  show "z < 64 \<Longrightarrow> y < 64 \<Longrightarrow> (x * 4096 + y * 64 + z) div 4096 = x"
    "z < 64 \<Longrightarrow> y < 64 \<Longrightarrow> (x * 4096 + y * 64 + z) div 64 mod 64 = y"
    "z < 64 \<Longrightarrow> y < 64 \<Longrightarrow> (x * 4096 + y * 64 + z) mod 64 = z"
    unfolding two q by (simp_all only: y)
  show "z < 64 \<Longrightarrow> y < 64 \<Longrightarrow> w < 64 \<Longrightarrow> (x * 262144 + w * 4096 + y * 64 + z) div 262144 = x"
    "z < 64 \<Longrightarrow> y < 64 \<Longrightarrow> w < 64 \<Longrightarrow> (x * 262144 + w * 4096 + y * 64 + z) div 4096 mod 64 = w"
    "z < 64 \<Longrightarrow> y < 64 \<Longrightarrow> w < 64 \<Longrightarrow> (x * 262144 + w * 4096 + y * 64 + z) div 64 mod 64 = y"
    "z < 64 \<Longrightarrow> y < 64 \<Longrightarrow> w < 64 \<Longrightarrow> (x * 262144 + w * 4096 + y * 64 + z) mod 64 = z"
    unfolding three q by (simp_all only: y)
qed

lemma utf8_list_sequences:
  "2 \<le> x \<Longrightarrow> x \<le> 31 \<Longrightarrow> z \<le> 63 \<Longrightarrow> utf8_list ((0xC0 + x) # (0x80 + z) # bs) = utf8_list bs"
  "x \<le> 15 \<Longrightarrow> y \<le> 63 \<Longrightarrow> z \<le> 63 \<Longrightarrow> (x = 0 \<longrightarrow> 32 \<le> y) \<Longrightarrow> (x = 13 \<longrightarrow> y \<le> 31) \<Longrightarrow>
   utf8_list ((0xE0 + x) # (0x80 + y) # (0x80 + z) # bs) = utf8_list bs"
  "x \<le> 4 \<Longrightarrow> w \<le> 63 \<Longrightarrow> y \<le> 63 \<Longrightarrow> z \<le> 63 \<Longrightarrow> (x = 0 \<longrightarrow> 16 \<le> w) \<Longrightarrow> (x = 4 \<longrightarrow> w \<le> 15) \<Longrightarrow>
   utf8_list ((0xF0 + x) # (0x80 + w) # (0x80 + y) # (0x80 + z) # bs) = utf8_list bs"
  by (simp_all add: utf8_sequence_def numeral_3_eq_3 numeral_2_eq_2)

lemma mod_window: "q * 64 \<le> m \<Longrightarrow> m < q * 64 + 64 \<Longrightarrow> m mod 64 = m - q * 64" for m q :: nat
proof -
  assume a: "q * 64 \<le> m" "m < q * 64 + 64"
  then obtain k where k: "m = q * 64 + k" by (auto dest: le_Suc_ex)
  with a have "k < 64" by simp
  with k show ?thesis by simp
qed

lemma utf8_list_encoded:
  assumes "scalar cp"
  shows "utf8_list (utf8_bytes cp @ bs) = utf8_list bs"
proof -
  have low: "x mod 64 \<le> 63" for x :: nat using mod_less_divisor [of 64 x] by simp
  consider "cp < 0x80" | "0x80 \<le> cp" "cp < 0x800" | "0x800 \<le> cp" "cp < 0x10000" | "0x10000 \<le> cp" "cp < 0x110000"
    using assms by (auto simp: scalar_def not_less [symmetric])
  then show ?thesis
  proof cases
    case 2
    then have "2 \<le> cp div 64" "cp div 64 \<le> 31" by auto
    from utf8_list_sequences(1) [OF this low] 2 show ?thesis by (simp add: utf8_bytes_def del: utf8_list.simps)
  next
    case 3
    have d: "cp div 4096 \<le> 15" using 3 by auto
    have e: "cp div 4096 = 0 \<Longrightarrow> 32 \<le> cp div 64 mod 64" "cp div 4096 = 13 \<Longrightarrow> cp div 64 mod 64 \<le> 31"
    proof -
      show "cp div 4096 = 0 \<Longrightarrow> 32 \<le> cp div 64 mod 64" using 3 by auto
      assume "cp div 4096 = 13"
      then have r: "cp < 57344" "53248 \<le> cp" by auto
      have "cp < 55296" using assms r(1) unfolding scalar_def by linarith
      then have "cp div 64 < 864" by (simp add: div_less_iff_less_mult)
      moreover have "832 \<le> cp div 64" using div_le_mono [OF r(2), of 64] by simp
      ultimately have "832 \<le> cp div 64" "cp div 64 < 864" by blast+
      then show "cp div 64 mod 64 \<le> 31" using mod_window [of 13 "cp div 64"] by simp
    qed
    have "utf8_bytes cp = [0xE0 + cp div 4096, 0x80 + cp div 64 mod 64, 0x80 + cp mod 64]"
      using 3 by (simp add: utf8_bytes_def)
    with utf8_list_sequences(2) [OF d low low impI [OF e(1)] impI [OF e(2)], of cp] show ?thesis
      by (simp only: append.simps)
  next
    case 4
    have d: "cp div 262144 \<le> 4" using 4 by auto
    have e: "cp div 262144 = 0 \<Longrightarrow> 16 \<le> cp div 4096 mod 64" "cp div 262144 = 4 \<Longrightarrow> cp div 4096 mod 64 \<le> 15"
    proof -
      assume "cp div 262144 = 0"
      with 4 have "cp < 262144" by auto
      with 4 have "16 \<le> cp div 4096" "cp div 4096 < 64" by auto
      then show "16 \<le> cp div 4096 mod 64" by simp
    next
      assume "cp div 262144 = 4"
      with 4 have "256 \<le> cp div 4096" "cp div 4096 < 272" by auto
      then show "cp div 4096 mod 64 \<le> 15" using mod_window [of 4 "cp div 4096"] by simp
    qed
    have "utf8_bytes cp = [0xF0 + cp div 262144, 0x80 + cp div 4096 mod 64, 0x80 + cp div 64 mod 64, 0x80 + cp mod 64]"
      using 4 by (simp add: utf8_bytes_def)
    with utf8_list_sequences(3) [OF d low low low impI [OF e(1)] impI [OF e(2)], of "cp div 64" cp] show ?thesis
      by (simp only: append.simps)
  qed (simp add: utf8_bytes_def)
qed

lemma utf8_list_decoded: "utf8_list bs \<Longrightarrow> \<exists>cps. list_all scalar cps \<and> bs = concat (map utf8_bytes cps)"
proof (induction bs rule: utf8_list.induct)
  case 1
  show ?case by (rule exI [of _ "[]"]) simp
next
  case (2 lead bs)
  have extend: "\<exists>cps. list_all scalar cps \<and> lead # bs = concat (map utf8_bytes cps)"
    if "scalar cp" "lead # bs = utf8_bytes cp @ rest" "\<exists>cps. list_all scalar cps \<and> rest = concat (map utf8_bytes cps)" for cp rest
  proof -
    from that(3) obtain cps where "list_all scalar cps" "rest = concat (map utf8_bytes cps)" by blast
    with that(1,2) show ?thesis by (intro exI [of _ "cp # cps"]) simp
  qed
  show ?case
  proof (cases "lead < 0x80")
    case True
    then have rest: "\<exists>cps. list_all scalar cps \<and> bs = concat (map utf8_bytes cps)" using 2(1) 2(3) by simp
    have "scalar lead" "lead # bs = utf8_bytes lead @ bs" using True by (simp_all add: scalar_def utf8_bytes_def)
    from extend [OF this rest] show ?thesis .
  next
    case False
    with 2(3) obtain k low high where seq: "utf8_sequence lead = Some (k, low, high)" by (auto split: option.splits)
    from 2(3) False seq have v: "k \<le> length bs" "low \<le> bs ! 0" "bs ! 0 \<le> high"
      "list_all (\<lambda>b. 0x80 \<le> b \<and> b \<le> 0xBF) (take (k - 1) (drop 1 bs))" "utf8_list (drop k bs)" by auto
    have rest: "\<exists>cps. list_all scalar cps \<and> drop k bs = concat (map utf8_bytes cps)"
      using 2(2) [OF False seq refl refl v(5)] .
    consider "k = 1" | "k = 2" | "k = 3" using seq by (auto simp: utf8_sequence_def split: if_splits)
    then show ?thesis
    proof cases
      case 1
      with v obtain b bs' where bs: "bs = b # bs'" by (cases bs) auto
      have c: "0xC0 + 2 \<le> lead" "lead \<le> 0xDF" "0x80 \<le> b" "b \<le> 0xBF"
        using seq 1 v bs by (auto simp: utf8_sequence_def split: if_splits)
      obtain x z where xz: "lead = 0xC0 + x" "b = 0x80 + z" using c le_Suc_ex [of "0xC0" lead] le_Suc_ex [of "0x80" b] by auto
      with c have b: "2 \<le> x" "x \<le> 31" "z < 64" by auto
      let ?cp = "x * 64 + z"
      have "0x80 \<le> ?cp" "?cp < 0x800" using b by linarith+
      then have "scalar ?cp" "lead # bs = utf8_bytes ?cp @ bs'"
        using digits64(1,2) [OF b(3), of x] bs xz by (simp_all add: scalar_def utf8_bytes_def)
      moreover have "\<exists>cps. list_all scalar cps \<and> bs' = concat (map utf8_bytes cps)" using rest bs 1 by simp
      ultimately show ?thesis by (rule extend)
    next
      case 2
      with v obtain b1 b2 bs' where bs: "bs = b1 # b2 # bs'" by (cases bs; cases "tl bs") auto
      have c: "0xE0 \<le> lead" "lead \<le> 0xEF" "0x80 \<le> b1" "b1 \<le> 0xBF" "0x80 \<le> b2" "b2 \<le> 0xBF"
        "lead = 0xE0 \<Longrightarrow> 0xA0 \<le> b1" "lead = 0xED \<Longrightarrow> b1 \<le> 0x9F"
        using seq 2 v bs by (auto simp: utf8_sequence_def split: if_splits)
      obtain x y z where xyz: "lead = 0xE0 + x" "b1 = 0x80 + y" "b2 = 0x80 + z"
        using c(1,3,5) le_Suc_ex by metis
      with c have b: "x \<le> 15" "y < 64" "z < 64" "x = 0 \<Longrightarrow> 32 \<le> y" "x = 13 \<Longrightarrow> y \<le> 31" by auto
      let ?cp = "x * 4096 + y * 64 + z"
      have low: "0x800 \<le> ?cp" using b(4) by (cases "x = 0") auto
      have high: "?cp < 0x10000" using b(1-3) by linarith
      have gap: "\<not> (0xD800 \<le> ?cp \<and> ?cp \<le> 0xDFFF)"
      proof -
        consider "x \<le> 12" | "x = 13" | "14 \<le> x" by linarith
        then show ?thesis
        proof cases
          case 2
          with b(5) have "y \<le> 31" by simp
          with 2 b(3) show ?thesis by simp
        qed (use b(2,3) in linarith)+
      qed
      from low high gap have "scalar ?cp" "lead # bs = utf8_bytes ?cp @ bs'"
        using digits64(3-5) [OF b(3,2), of x] bs xyz by (simp_all add: scalar_def utf8_bytes_def)
      moreover have "\<exists>cps. list_all scalar cps \<and> bs' = concat (map utf8_bytes cps)" using rest bs 2 by (simp add: numeral_2_eq_2)
      ultimately show ?thesis by (rule extend)
    next
      case 3
      with v obtain b1 b2 b3 bs' where bs: "bs = b1 # b2 # b3 # bs'" by (cases bs; cases "tl bs"; cases "tl (tl bs)") auto
      have c: "0xF0 \<le> lead" "lead \<le> 0xF4" "0x80 \<le> b1" "b1 \<le> 0xBF" "0x80 \<le> b2" "b2 \<le> 0xBF" "0x80 \<le> b3" "b3 \<le> 0xBF"
        "lead = 0xF0 \<Longrightarrow> 0x90 \<le> b1" "lead = 0xF4 \<Longrightarrow> b1 \<le> 0x8F"
        using seq 3 v bs by (auto simp: utf8_sequence_def numeral_2_eq_2 split: if_splits)
      obtain x w y z where xyz: "lead = 0xF0 + x" "b1 = 0x80 + w" "b2 = 0x80 + y" "b3 = 0x80 + z"
        using c(1,3,5,7) le_Suc_ex by metis
      with c have b: "x \<le> 4" "w < 64" "y < 64" "z < 64" "x = 0 \<Longrightarrow> 16 \<le> w" "x = 4 \<Longrightarrow> w \<le> 15" by auto
      let ?cp = "x * 262144 + w * 4096 + y * 64 + z"
      have low: "0x10000 \<le> ?cp" using b(5) by (cases "x = 0") auto
      have high: "?cp < 0x110000"
      proof (cases "x = 4")
        case True
        with b(6) have "w \<le> 15" by simp
        with True b(3,4) show ?thesis by simp
      next
        case False
        with b(1) have "x \<le> 3" by simp
        with b(2-4) show ?thesis by linarith
      qed
      from low high have "scalar ?cp" "lead # bs = utf8_bytes ?cp @ bs'"
        using digits64(6-9) [OF b(4,3,2), of x] bs xyz by (simp_all add: scalar_def utf8_bytes_def)
      moreover have "\<exists>cps. list_all scalar cps \<and> bs' = concat (map utf8_bytes cps)" using rest bs 3 by (simp add: numeral_3_eq_3)
      ultimately show ?thesis by (rule extend)
    qed
  qed
qed

lemma utf8_bytes_bound: "scalar cp \<Longrightarrow> b \<in> set (utf8_bytes cp) \<Longrightarrow> b < 256"
proof -
  assume cp: "scalar cp" and b: "b \<in> set (utf8_bytes cp)"
  have m: "128 + x mod 64 < 256" for x :: nat using mod_less_divisor [of 64 x] by simp
  have "cp < 0x800 \<Longrightarrow> 192 + cp div 64 < 256" "cp < 0x10000 \<Longrightarrow> 224 + cp div 4096 < 256" "240 + cp div 262144 < 256"
    using cp by (auto simp: scalar_def)
  with b m show "b < 256" by (auto simp: utf8_bytes_def split: if_splits)
qed

text \<open>C3: The UTF-8 check of the policy accepts exactly the encodings of sequences of Unicode scalar values.\<close>
theorem is_valid_utf8_iff:
  "is_valid_utf8 source \<longleftrightarrow> (\<exists>cps. list_all scalar cps \<and> source = concat (map encode_scalar cps))"
proof
  assume "is_valid_utf8 source"
  then have "utf8_list (map byte source)" using utf8_from_list [of 0 source] by (simp add: is_valid_utf8_def)
  then obtain cps where cps: "list_all scalar cps" "map byte source = concat (map utf8_bytes cps)"
    using utf8_list_decoded by blast
  have "source = map char_of (map byte source)" by (simp add: comp_def)
  also have "\<dots> = concat (map encode_scalar cps)"
    by (simp add: cps(2) map_concat encode_scalar_def [abs_def] comp_def)
  finally show "\<exists>cps. list_all scalar cps \<and> source = concat (map encode_scalar cps)" using cps(1) by blast
next
  assume "\<exists>cps. list_all scalar cps \<and> source = concat (map encode_scalar cps)"
  then obtain cps where cps: "list_all scalar cps" "source = concat (map encode_scalar cps)" by blast
  have "map byte (encode_scalar cp) = utf8_bytes cp" if "scalar cp" for cp
    using utf8_bytes_bound [OF that] by (auto simp: encode_scalar_def of_char_of intro!: map_idI)
  then have "map byte source = concat (map utf8_bytes cps)"
    using cps by (auto simp: map_concat list_all_iff intro!: arg_cong [of _ _ concat])
  moreover have "utf8_list (concat (map utf8_bytes cps))"
    using cps(1) by (induction cps) (simp_all add: utf8_list_encoded)
  ultimately show "is_valid_utf8 source" using utf8_from_list [of 0 source] by (simp add: is_valid_utf8_def)
qed
end
