(* ===== verification/Capture_Glob.thy ===== *)
theory Capture_Glob
  imports Utf8
begin

text \<open>
  The capture policy of a Project (\<^verbatim>\<open>core/capture_policy.cpp\<close>): the lines of
  \<^verbatim>\<open>.tribiosignore\<close> and their compilation into patterns, and the wildcard matcher with its table
  of failed states, which is shown to decide a declarative relation between globs and paths.
\<close>

definition kCapturePolicyFileName :: string where
  "kCapturePolicyFileName = ''.tribiosignore''"

abbreviation backslash :: char where "backslash \<equiv> CHR 0x5C"

section \<open>Character classes\<close>

text \<open>The loop that looks for the closing bracket; an escaped byte never closes.\<close>

function class_end_loop :: "string \<Rightarrow> nat \<Rightarrow> nat" where
  "class_end_loop glob index =
     (if index < length glob \<and> glob ! index \<noteq> CHR '']''
      then class_end_loop glob ((if glob ! index = backslash then index + 1 else index) + 1)
      else index)"
  by auto
termination by (relation "measure (\<lambda>(glob, index). length glob - index)") auto

declare class_end_loop.simps [simp del]

definition find_class_end :: "string \<Rightarrow> nat \<Rightarrow> nat option" where
  "find_class_end glob open_at =
     (let i0 = open_at + 1;
          i1 = (if i0 < length glob \<and> (glob ! i0 = CHR ''!'' \<or> glob ! i0 = CHR ''^'') then i0 + 1 else i0);
          i2 = (if i1 < length glob \<and> glob ! i1 = CHR '']'' then i1 + 1 else i1);
          i = class_end_loop glob i2
      in if i < length glob then Some (i + 1) else None)"

function class_loop :: "string \<Rightarrow> nat \<Rightarrow> char \<Rightarrow> nat \<Rightarrow> bool \<Rightarrow> bool" where
  "class_loop glob close c index matched =
     (if index < close
      then
        let i = (if glob ! index = backslash then index + 1 else index);
            low = byte (glob ! i);
            (high, next) =
              (if i + 1 + 1 < close \<and> glob ! (i + 1) = CHR ''-''
               then let j = (if glob ! (i + 2) = backslash \<and> i + 2 + 1 < close then i + 3 else i + 2)
                    in (byte (glob ! j), j + 1)
               else (low, i + 1))
        in class_loop glob close c next (matched \<or> low \<le> byte c \<and> byte c \<le> high)
      else matched)"
  by auto
termination
  by (relation "measure (\<lambda>(glob, close, c, index, matched). close - index)")
    (auto simp: Let_def split: if_splits)

declare class_loop.simps [simp del]

definition class_matches :: "string \<Rightarrow> nat \<Rightarrow> nat \<Rightarrow> char \<Rightarrow> bool" where
  "class_matches glob open_at end_at c =
     (let close = end_at - 1; i = open_at + 1;
          negated = (glob ! i = CHR ''!'' \<or> glob ! i = CHR ''^'')
      in class_loop glob close c (if negated then i + 1 else i) False \<noteq> negated)"

lemma class_end_loop_ge: "index \<le> class_end_loop glob index"
proof (induction glob index rule: class_end_loop.induct)
  case (1 glob index)
  then show ?case by (subst class_end_loop.simps) (auto split: if_splits)
qed

lemma find_class_end_bounds:
  assumes "find_class_end glob i = Some j"
  shows "i + 1 < j" "j \<le> length glob"
proof -
  from assms obtain k where "j = class_end_loop glob k + 1" "class_end_loop glob k < length glob" "i + 1 \<le> k"
    by (auto simp: find_class_end_def Let_def split: if_splits)
  then show "i + 1 < j" "j \<le> length glob" using class_end_loop_ge [of k glob] by auto
qed

section \<open>Pattern lines\<close>

record capture_pattern =
  pattern_text :: string
  pattern_line :: int
  pattern_glob :: string
  pattern_negated :: bool
  pattern_directory_only :: bool
  pattern_anchored :: bool

text \<open>The number of backslashes before the last byte.\<close>

definition trailing_backslashes :: "string \<Rightarrow> nat" where
  "trailing_backslashes l = length (takeWhile (\<lambda>c. c = backslash) (tl (rev l)))"

function trim_unescaped_trailing_whitespace :: "string \<Rightarrow> string" where
  "trim_unescaped_trailing_whitespace l =
     (if l \<noteq> [] \<and> (last l = CHR '' '' \<or> last l = CHR 0x09) \<and> trailing_backslashes l mod 2 \<noteq> 1
      then trim_unescaped_trailing_whitespace (butlast l)
      else l)"
  by auto
termination by (relation "measure length") auto

declare trim_unescaped_trailing_whitespace.simps [simp del]

function validate_from :: "string \<Rightarrow> nat \<Rightarrow> string + unit" where
  "validate_from glob index =
     (if index < length glob
      then if glob ! index = backslash
           then if index + 1 = length glob then Inl ''pattern ends with an unfinished escape''
                else validate_from glob (index + 2)
           else if glob ! index = CHR ''[''
           then (case find_class_end glob index of
                   None \<Rightarrow> Inl ''unterminated character class''
                 | Some end_at \<Rightarrow> validate_from glob end_at)
           else validate_from glob (index + 1)
      else Inr ())"
  by auto
termination
  by (relation "measure (\<lambda>(glob, index). length glob - index)")
    (auto dest: find_class_end_bounds)

declare validate_from.simps [simp del]

definition validate_glob :: "string \<Rightarrow> string + unit" where
  "validate_glob glob = validate_from glob 0"

definition drop_front :: "char \<Rightarrow> string \<Rightarrow> bool \<times> string" where
  "drop_front c s = (if s \<noteq> [] \<and> hd s = c then (True, tl s) else (False, s))"

definition drop_back :: "char \<Rightarrow> string \<Rightarrow> bool \<times> string" where
  "drop_back c s = (if s \<noteq> [] \<and> last s = c then (True, butlast s) else (False, s))"

definition parse_pattern_line :: "string \<Rightarrow> int \<Rightarrow> string + capture_pattern option" where
  "parse_pattern_line l0 number =
     (let l1 = snd (drop_back (CHR 0x0D) l0) in
      if l1 = [] \<or> hd l1 = CHR ''#'' then Inr None
      else
        let l = trim_unescaped_trailing_whitespace l1 in
        if l = [] then Inr None
        else
          let (negated, g1) = drop_front (CHR ''!'') l;
              (directory_only, g2) = drop_back (CHR ''/'') g1;
              (rooted, g) = drop_front (CHR ''/'') g2;
              anchored = (rooted \<or> CHR ''/'' \<in> set g)
          in
          if g = [] then Inl ''pattern names no path''
          else if hd g = CHR ''/'' \<or> last g = CHR ''/'' \<or> sublist ''//'' g
          then Inl ''pattern contains an empty path segment''
          else case validate_glob g of
            Inl message \<Rightarrow> Inl message
          | Inr _ \<Rightarrow>
              Inr (Some \<lparr>pattern_text = l, pattern_line = number, pattern_glob = g,
                         pattern_negated = negated, pattern_directory_only = directory_only,
                         pattern_anchored = anchored\<rparr>))"

definition final_segment :: "string \<Rightarrow> string" where
  "final_segment relative =
     (case rfind_char (CHR ''/'') relative of None \<Rightarrow> relative | Some slash \<Rightarrow> drop (slash + 1) relative)"

section \<open>The matcher\<close>

definition after_stars :: "string \<Rightarrow> nat \<Rightarrow> nat" where
  "after_stars glob i = i + length (takeWhile (\<lambda>c. c = CHR ''*'') (drop i glob))"

text \<open>Two stars or more that make up a whole segment of the pattern.\<close>

definition whole_segment_stars :: "string \<Rightarrow> nat \<Rightarrow> bool" where
  "whole_segment_stars glob i \<longleftrightarrow>
     (let after = after_stars glob i in
      after - i \<ge> 2 \<and> (i = 0 \<or> glob ! (i - 1) = CHR ''/'') \<and>
      (after = length glob \<or> glob ! after = CHR ''/''))"

definition state_index :: "string \<Rightarrow> nat \<Rightarrow> nat \<Rightarrow> nat" where
  "state_index text glob_index text_index = glob_index * (length text + 1) + text_index"

lemma after_stars_bounds:
  "i \<le> after_stars glob i"
  "i \<le> length glob \<Longrightarrow> after_stars glob i \<le> length glob"
  "i < length glob \<Longrightarrow> glob ! i = CHR ''*'' \<Longrightarrow> i < after_stars glob i"
proof -
  show "i \<le> after_stars glob i" by (simp add: after_stars_def)
  have "length (takeWhile (\<lambda>c. c = CHR ''*'') (drop i glob)) \<le> length glob - i"
    using length_takeWhile_le [of _ "drop i glob"] by simp
  then show "i \<le> length glob \<Longrightarrow> after_stars glob i \<le> length glob" by (simp add: after_stars_def)
  show "i < after_stars glob i" if "i < length glob" "glob ! i = CHR ''*''"
  proof -
    have "drop i glob = CHR ''*'' # drop (Suc i) glob" using that Cons_nth_drop_Suc [of i glob] by simp
    then show ?thesis by (simp add: after_stars_def)
  qed
qed

lemma after_stars_measure:
  "i < length glob \<Longrightarrow> glob ! i = CHR ''*'' \<Longrightarrow>
   Suc (Suc (length glob)) - after_stars glob i < Suc (Suc (length glob)) - i"
  by (rule diff_less_mono2 [OF after_stars_bounds(3)]) simp_all

lemma find_char_from_bounds:
  "find_char_from c s i = Some j \<Longrightarrow> i \<le> j \<and> j < length s"
  by (auto simp: find_char_from_def dest!: find_char_Some)

function (sequential)
  match_capture_glob_from :: "string \<Rightarrow> string \<Rightarrow> nat \<Rightarrow> nat \<Rightarrow> bool list \<Rightarrow> bool \<times> bool list"
  and match_run :: "string \<Rightarrow> string \<Rightarrow> nat \<Rightarrow> nat \<Rightarrow> nat \<Rightarrow> bool list \<Rightarrow> bool \<times> bool list"
  and match_directories :: "string \<Rightarrow> string \<Rightarrow> nat \<Rightarrow> nat \<Rightarrow> nat \<Rightarrow> bool list \<Rightarrow> bool \<times> bool list"
  and match_stars :: "string \<Rightarrow> string \<Rightarrow> nat \<Rightarrow> nat \<Rightarrow> nat \<Rightarrow> bool list \<Rightarrow> bool \<times> bool list"
where
  "match_capture_glob_from glob text gi ti failed =
     (if failed ! state_index text gi ti then (False, failed)
      else match_run glob text (state_index text gi ti) gi ti failed)"
| "match_run glob text start_state gi ti failed =
     (let remember_failure = (False, failed[start_state := True]) in
      if gi < length glob
      then if glob ! gi = CHR ''*''
           then let after = after_stars glob gi in
                if whole_segment_stars glob gi
                then if after = length glob then (True, failed)
                     else match_directories glob text start_state after ti failed
                else match_stars glob text start_state after ti failed
           else if ti \<ge> length text then remember_failure
           else
             let current = text ! ti in
             if glob ! gi = CHR ''?''
             then if current = CHR ''/'' then remember_failure
                  else match_run glob text start_state (gi + 1) (ti + 1) failed
             else if glob ! gi = CHR ''[''
             then (case find_class_end glob gi of
                     None \<Rightarrow> remember_failure
                   | Some end_at \<Rightarrow>
                       if current = CHR ''/'' \<or> \<not> class_matches glob gi end_at current then remember_failure
                       else match_run glob text start_state end_at (ti + 1) failed)
             else
               let literal = (if glob ! gi = backslash then gi + 1 else gi) in
               if literal \<ge> length glob \<or> glob ! literal \<noteq> current then remember_failure
               else match_run glob text start_state (literal + 1) (ti + 1) failed
      else if ti = length text then (True, failed) else remember_failure)"
| "match_directories glob text start_state after start failed =
     (case match_capture_glob_from glob text (after + 1) start failed of
        (True, failed') \<Rightarrow> (True, failed')
      | (False, failed') \<Rightarrow>
          (case find_char_from (CHR ''/'') text start of
             None \<Rightarrow> (False, failed'[start_state := True])
           | Some slash \<Rightarrow> match_directories glob text start_state after (slash + 1) failed'))"
| "match_stars glob text start_state after start failed =
     (if start \<le> length text
      then case match_capture_glob_from glob text after start failed of
          (True, failed') \<Rightarrow> (True, failed')
        | (False, failed') \<Rightarrow>
            if start < length text \<and> text ! start = CHR ''/''
            then (False, failed'[start_state := True])
            else match_stars glob text start_state after (start + 1) failed'
      else (False, failed[start_state := True]))"
  by pat_completeness auto
termination
  by (relation "measures
      [case_sum (case_sum (\<lambda>(g, t, gi, ti, f). length g + 2 - gi) (\<lambda>(g, t, s, gi, ti, f). length g + 2 - gi))
         (case_sum (\<lambda>(g, t, s, after, start, f). length g + 2 - after) (\<lambda>(g, t, s, after, start, f). length g + 2 - after)),
       case_sum (case_sum (\<lambda>_. 1) (\<lambda>_. 0)) (\<lambda>_. 2),
       case_sum (\<lambda>_. 0) (case_sum (\<lambda>(g, t, s, after, start, f). length t + 1 - start)
         (\<lambda>(g, t, s, after, start, f). length t + 1 - start))]")
    (auto simp: after_stars_measure dest: find_class_end_bounds find_char_from_bounds)

definition match_capture_glob :: "string \<Rightarrow> string \<Rightarrow> bool" where
  "match_capture_glob glob text =
     fst (match_capture_glob_from glob text 0 0
            (replicate ((length glob + 1) * (length text + 1)) False))"


declare match_capture_glob_from.simps [simp del] match_run.simps [simp del]
  match_directories.simps [simp del] match_stars.simps [simp del]

section \<open>What a glob means\<close>

text \<open>
  \<open>globs g t i j\<close>: the pattern from position \<open>i\<close> on matches the path from position \<open>j\<close> on. Stars
  that make up a segment skip whole directories; other stars, \<^verbatim>\<open>?\<close> and classes stay in their segment.
\<close>

inductive globs :: "string \<Rightarrow> string \<Rightarrow> nat \<Rightarrow> nat \<Rightarrow> bool" for g t where
  at_end: "globs g t (length g) (length t)"
| all_below: "i < length g \<Longrightarrow> g ! i = CHR ''*'' \<Longrightarrow> whole_segment_stars g i \<Longrightarrow> after_stars g i = length g \<Longrightarrow>
    globs g t i j"
| directories: "i < length g \<Longrightarrow> g ! i = CHR ''*'' \<Longrightarrow> whole_segment_stars g i \<Longrightarrow> after_stars g i < length g \<Longrightarrow>
    j \<le> k \<Longrightarrow> k \<le> length t \<Longrightarrow> k = j \<or> t ! (k - 1) = CHR ''/'' \<Longrightarrow>
    globs g t (after_stars g i + 1) k \<Longrightarrow> globs g t i j"
| stars: "i < length g \<Longrightarrow> g ! i = CHR ''*'' \<Longrightarrow> \<not> whole_segment_stars g i \<Longrightarrow>
    j \<le> k \<Longrightarrow> k \<le> length t \<Longrightarrow> (\<And>m. j \<le> m \<Longrightarrow> m < k \<Longrightarrow> t ! m \<noteq> CHR ''/'') \<Longrightarrow>
    globs g t (after_stars g i) k \<Longrightarrow> globs g t i j"
| any: "i < length g \<Longrightarrow> g ! i = CHR ''?'' \<Longrightarrow> j < length t \<Longrightarrow> t ! j \<noteq> CHR ''/'' \<Longrightarrow>
    globs g t (i + 1) (j + 1) \<Longrightarrow> globs g t i j"
| in_class: "i < length g \<Longrightarrow> g ! i = CHR ''['' \<Longrightarrow> j < length t \<Longrightarrow> t ! j \<noteq> CHR ''/'' \<Longrightarrow>
    find_class_end g i = Some k \<Longrightarrow> class_matches g i k (t ! j) \<Longrightarrow>
    globs g t k (j + 1) \<Longrightarrow> globs g t i j"
| escaped: "i + 1 < length g \<Longrightarrow> g ! i = backslash \<Longrightarrow> j < length t \<Longrightarrow> g ! (i + 1) = t ! j \<Longrightarrow>
    globs g t (i + 2) (j + 1) \<Longrightarrow> globs g t i j"
| literal: "i < length g \<Longrightarrow> g ! i \<notin> {CHR ''*'', CHR ''?'', CHR ''['', backslash} \<Longrightarrow>
    j < length t \<Longrightarrow> g ! i = t ! j \<Longrightarrow> globs g t (i + 1) (j + 1) \<Longrightarrow> globs g t i j"

inductive_simps globs_end: "globs g t (length g) j"

text \<open>The table marks only states that do not match.\<close>

definition sound_table :: "string \<Rightarrow> string \<Rightarrow> bool list \<Rightarrow> bool" where
  "sound_table g t failed \<longleftrightarrow>
     length failed = (length g + 1) * (length t + 1) \<and>
     (\<forall>i \<le> length g. \<forall>j \<le> length t. failed ! state_index t i j \<longrightarrow> \<not> globs g t i j)"

lemma table_row: "j < n \<Longrightarrow> (i * n + j) div n = (i :: nat)" "j < n \<Longrightarrow> (i * n + j) mod n = j"
  by simp_all

lemma state_index_bound:
  assumes "i \<le> a" "j \<le> length t"
  shows "state_index t i j < (a + 1) * (length t + 1)"
proof -
  have "i * (length t + 1) + j < i * (length t + 1) + (length t + 1)" using assms by simp
  also have "\<dots> = (i + 1) * (length t + 1)" by simp
  also have "\<dots> \<le> (a + 1) * (length t + 1)" using assms by (intro mult_le_mono1) simp
  finally show ?thesis by (simp only: state_index_def)
qed

lemma state_index_inj:
  assumes "j \<le> length t" "j' \<le> length t" "state_index t i j = state_index t i' j'"
  shows "i = i' \<and> j = j'"
  using assms table_row [of j "length t + 1" i] table_row [of j' "length t + 1" i']
  unfolding state_index_def by (metis less_Suc_eq_le Suc_eq_plus1)

lemma sound_table_update:
  assumes "sound_table g t failed" "i0 \<le> length g" "j0 \<le> length t" "\<not> globs g t i0 j0"
  shows "sound_table g t (failed[state_index t i0 j0 := True])"
  unfolding sound_table_def
proof (intro conjI allI impI)
  show "length (failed[state_index t i0 j0 := True]) = (length g + 1) * (length t + 1)"
    using assms(1) by (simp add: sound_table_def)
  fix i j assume ij: "i \<le> length g" "j \<le> length t" "failed[state_index t i0 j0 := True] ! state_index t i j"
  show "\<not> globs g t i j"
  proof (cases "state_index t i0 j0 = state_index t i j")
    case True
    from state_index_inj [OF assms(3) ij(2) this] assms(4) show ?thesis by simp
  next
    case False
    with ij assms(1) show ?thesis by (simp add: sound_table_def)
  qed
qed

definition decides :: "string \<Rightarrow> string \<Rightarrow> bool \<Rightarrow> bool \<times> bool list \<Rightarrow> bool" where
  "decides g t b r \<longleftrightarrow> fst r = b \<and> sound_table g t (snd r)"


lemma decides_failure:
  "sound_table g t failed \<Longrightarrow> i0 \<le> length g \<Longrightarrow> j0 \<le> length t \<Longrightarrow> s = state_index t i0 j0 \<Longrightarrow> \<not> globs g t i0 j0 \<Longrightarrow>
   decides g t (globs g t i0 j0) (False, failed[s := True])"
  by (simp add: decides_def sound_table_update)

lemma decides_success: "sound_table g t failed \<Longrightarrow> b \<Longrightarrow> decides g t b (True, failed)"
  by (simp add: decides_def)

text \<open>One step of the relation for each form the pattern can have at a position.\<close>

lemma globs_at_end: "globs g t (length g) j \<longleftrightarrow> j = length t"
  by (auto simp: globs_end intro: globs.at_end)

lemma globs_all_below:
  "i < length g \<Longrightarrow> g ! i = CHR ''*'' \<Longrightarrow> whole_segment_stars g i \<Longrightarrow> after_stars g i = length g \<Longrightarrow> globs g t i j"
  by (rule globs.all_below)

lemma globs_directories:
  "i < length g \<Longrightarrow> g ! i = CHR ''*'' \<Longrightarrow> whole_segment_stars g i \<Longrightarrow> after_stars g i < length g \<Longrightarrow>
   globs g t i j \<longleftrightarrow>
     (\<exists>k. j \<le> k \<and> k \<le> length t \<and> (k = j \<or> t ! (k - 1) = CHR ''/'') \<and> globs g t (after_stars g i + 1) k)"
  by (subst globs.simps) auto

lemma globs_stars:
  "i < length g \<Longrightarrow> g ! i = CHR ''*'' \<Longrightarrow> \<not> whole_segment_stars g i \<Longrightarrow>
   globs g t i j \<longleftrightarrow>
     (\<exists>k. j \<le> k \<and> k \<le> length t \<and> (\<forall>m. j \<le> m \<and> m < k \<longrightarrow> t ! m \<noteq> CHR ''/'') \<and> globs g t (after_stars g i) k)"
  by (subst globs.simps) auto

lemma globs_byte:
  assumes "i < length g" "g ! i \<noteq> CHR ''*''"
  shows "globs g t i j \<longleftrightarrow> j < length t \<and>
     (if g ! i = CHR ''?'' then t ! j \<noteq> CHR ''/'' \<and> globs g t (i + 1) (j + 1)
      else if g ! i = CHR ''[''
      then t ! j \<noteq> CHR ''/'' \<and>
        (\<exists>k. find_class_end g i = Some k \<and> class_matches g i k (t ! j) \<and> globs g t k (j + 1))
      else let l = (if g ! i = backslash then i + 1 else i) in
        l < length g \<and> g ! l = t ! j \<and> globs g t (l + 1) (j + 1))"
  using assms by (subst globs.simps) (auto simp: Let_def)


definition directory_starts :: "string \<Rightarrow> string \<Rightarrow> nat \<Rightarrow> nat \<Rightarrow> bool" where
  "directory_starts g t after start \<longleftrightarrow>
     (\<exists>k. start \<le> k \<and> k \<le> length t \<and> (k = start \<or> t ! (k - 1) = CHR ''/'') \<and> globs g t (after + 1) k)"

definition segment_starts :: "string \<Rightarrow> string \<Rightarrow> nat \<Rightarrow> nat \<Rightarrow> bool" where
  "segment_starts g t after start \<longleftrightarrow>
     (\<exists>k. start \<le> k \<and> k \<le> length t \<and> (\<forall>m. start \<le> m \<and> m < k \<longrightarrow> t ! m \<noteq> CHR ''/'') \<and> globs g t after k)"

lemma find_char_from_None:
  assumes "find_char_from c t i = None" "i \<le> k" "k < length t"
  shows "t ! k \<noteq> c"
proof -
  have "drop i t ! (k - i) \<in> set (drop i t)" using assms(2,3) by (intro nth_mem) simp
  moreover have "drop i t ! (k - i) = t ! k" using assms(2,3) by simp
  moreover have "c \<notin> set (drop i t)" using assms(1) by (simp add: find_char_from_def find_char_None)
  ultimately show ?thesis by metis
qed

lemma find_char_from_first:
  assumes "find_char_from c t i = Some s"
  shows "t ! s = c" "i \<le> k \<Longrightarrow> k < s \<Longrightarrow> t ! k \<noteq> c"
proof -
  obtain m where m: "find_char c (drop i t) = Some m" "s = i + m" using assms by (auto simp: find_char_from_def)
  from find_char_Some [OF m(1)] m(2) show "t ! s = c" by (cases "i \<le> length t") auto
  assume k: "i \<le> k" "k < s"
  have "k - i < m" "m < length (drop i t)" using k m find_char_Some [OF m(1)] by auto
  then have "drop i t ! (k - i) \<in> set (take m (drop i t))"
    by (metis in_set_conv_nth length_take min.strict_order_iff min_less_iff_conj nth_take)
  moreover have "drop i t ! (k - i) = t ! k" using k find_char_from_bounds [OF assms] by simp
  ultimately show "t ! k \<noteq> c" using find_char_Some [OF m(1)] by metis
qed

lemma directory_starts_step:
  assumes "start \<le> length t"
  shows "directory_starts g t after start \<longleftrightarrow> globs g t (after + 1) start \<or>
     (case find_char_from (CHR ''/'') t start of None \<Rightarrow> False | Some slash \<Rightarrow> directory_starts g t after (slash + 1))"
proof (cases "find_char_from (CHR ''/'') t start")
  case None
  have "k = start" if "start \<le> k" "k \<le> length t" "k = start \<or> t ! (k - 1) = CHR ''/''" for k
  proof (rule ccontr)
    assume "k \<noteq> start"
    with that have "start \<le> k - 1" "k - 1 < length t" by auto
    from find_char_from_None [OF None this] that \<open>k \<noteq> start\<close> show False by simp
  qed
  with None assms show ?thesis by (auto simp: directory_starts_def)
next
  case (Some slash)
  note first = find_char_from_first [OF Some] and bounds = find_char_from_bounds [OF Some]
  have "k = start \<or> slash + 1 \<le> k" if "start \<le> k" "k = start \<or> t ! (k - 1) = CHR ''/''" for k
  proof (rule ccontr)
    assume k: "\<not> (k = start \<or> slash + 1 \<le> k)"
    with that have "start \<le> k - 1" "k - 1 < slash" by auto
    from first(2) [OF this] that k show False by simp
  qed
  note later = this
  have "directory_starts g t after start \<longleftrightarrow>
      globs g t (after + 1) start \<or> (\<exists>k. slash + 1 \<le> k \<and> k \<le> length t \<and> t ! (k - 1) = CHR ''/'' \<and> globs g t (after + 1) k)"
    (is "?l \<longleftrightarrow> ?r")
  proof
    assume ?l
    then obtain k where k: "start \<le> k" "k \<le> length t" "k = start \<or> t ! (k - 1) = CHR ''/''" "globs g t (after + 1) k"
      by (auto simp: directory_starts_def)
    then show ?r using later [OF k(1,3)] by (cases "k = start") blast+
  next
    assume ?r
    then show ?l
    proof (elim disjE exE conjE)
      assume "globs g t (after + 1) start"
      then show ?l using assms unfolding directory_starts_def by blast
    next
      fix k assume k: "slash + 1 \<le> k" "k \<le> length t" "t ! (k - 1) = CHR ''/''" "globs g t (after + 1) k"
      then have "start \<le> k" using bounds by simp
      with k show ?l unfolding directory_starts_def by blast
    qed
  qed
  moreover have "directory_starts g t after (slash + 1) \<longleftrightarrow>
      (\<exists>k. slash + 1 \<le> k \<and> k \<le> length t \<and> t ! (k - 1) = CHR ''/'' \<and> globs g t (after + 1) k)"
    using first(1) unfolding directory_starts_def by auto
  ultimately show ?thesis using Some by simp
qed

lemma segment_starts_step:
  assumes "start \<le> length t"
  shows "segment_starts g t after start \<longleftrightarrow> globs g t after start \<or>
     \<not> (start < length t \<and> t ! start = CHR ''/'') \<and> segment_starts g t after (start + 1)"
    (is "?l \<longleftrightarrow> ?r")
proof
  assume ?l
  then obtain k where k: "start \<le> k" "k \<le> length t" "\<forall>m. start \<le> m \<and> m < k \<longrightarrow> t ! m \<noteq> CHR ''/''" "globs g t after k"
    by (auto simp: segment_starts_def)
  show ?r
  proof (cases "k = start")
    case False
    with k have "start + 1 \<le> k" "t ! start \<noteq> CHR ''/''" by auto
    with k show ?thesis unfolding segment_starts_def by (meson Suc_leD add_leE)
  qed (use k in simp)
next
  assume ?r
  then show ?l
  proof (elim disjE conjE)
    assume "globs g t after start"
    then show ?l using assms unfolding segment_starts_def by (intro exI [of _ start]) auto
  next
    assume a: "\<not> (start < length t \<and> t ! start = CHR ''/'')" "segment_starts g t after (start + 1)"
    then obtain k where "start + 1 \<le> k" "k \<le> length t" "\<forall>m. start + 1 \<le> m \<and> m < k \<longrightarrow> t ! m \<noteq> CHR ''/''" "globs g t after k"
      by (auto simp: segment_starts_def)
    moreover from this a(1) have "t ! m \<noteq> CHR ''/''" if "start \<le> m" "m < k" for m
      using that by (cases "m = start") auto
    ultimately show ?l unfolding segment_starts_def
      by (intro exI [of _ k]) simp
  qed
qed

lemma segment_starts_end: "\<not> start \<le> length t \<Longrightarrow> \<not> segment_starts g t after start"
  by (auto simp: segment_starts_def)

lemma match_decides:
  "sound_table g t failed \<Longrightarrow> gi \<le> length g \<Longrightarrow> ti \<le> length t \<Longrightarrow>
    decides g t (globs g t gi ti) (match_capture_glob_from g t gi ti failed)"
  "sound_table g t failed \<Longrightarrow> gi \<le> length g \<Longrightarrow> ti \<le> length t \<Longrightarrow>
    (\<exists>i0 \<le> length g. \<exists>j0 \<le> length t. s = state_index t i0 j0 \<and> globs g t i0 j0 = globs g t gi ti) \<Longrightarrow>
    decides g t (globs g t gi ti) (match_run g t s gi ti failed)"
  "sound_table g t failed \<Longrightarrow> after < length g \<Longrightarrow> start \<le> length t \<Longrightarrow>
    (\<exists>i0 \<le> length g. \<exists>j0 \<le> length t. s = state_index t i0 j0 \<and> (directory_starts g t after start \<longleftrightarrow> globs g t i0 j0)) \<Longrightarrow>
    decides g t (directory_starts g t after start) (match_directories g t s after start failed)"
  "sound_table g t failed \<Longrightarrow> after \<le> length g \<Longrightarrow> start \<le> length t + 1 \<Longrightarrow>
    (\<exists>i0 \<le> length g. \<exists>j0 \<le> length t. s = state_index t i0 j0 \<and> (segment_starts g t after start \<longleftrightarrow> globs g t i0 j0)) \<Longrightarrow>
    decides g t (segment_starts g t after start) (match_stars g t s after start failed)"
proof (induction g t gi ti failed and g t s gi ti failed and g t s after start failed and g t s after start failed
    rule: match_capture_glob_from_match_run_match_directories_match_stars.induct)
  case (1 g t gi ti failed)
  show ?case
  proof (cases "failed ! state_index t gi ti")
    case True
    with 1 show ?thesis by (simp add: match_capture_glob_from.simps decides_def sound_table_def)
  next
    case False
    with 1 show ?thesis by (simp add: match_capture_glob_from.simps) blast
  qed
next
  case (2 g t s gi ti failed)
  note sound = 2(6) and bounds = 2(7,8) and IH = 2(1-5)
  obtain i0 j0 where 0: "i0 \<le> length g" "j0 \<le> length t" "s = state_index t i0 j0" "globs g t i0 j0 = globs g t gi ti"
    using 2(9) by blast
  have fails: "decides g t (globs g t gi ti) (False, failed[s := True])" if "\<not> globs g t gi ti"
    using decides_failure [OF sound 0(1-3)] 0(4) that by simp
  note run = match_run.simps [of g t s gi ti failed]
  consider (finished) "gi = length g" | (star) "gi < length g" "g ! gi = CHR ''*''" | (byte) "gi < length g" "g ! gi \<noteq> CHR ''*''"
    using bounds by fastforce
  then show ?case
  proof cases
    case finished
    then have "match_run g t s gi ti failed = (if ti = length t then (True, failed) else (False, failed[s := True]))"
      by (subst run) (simp add: Let_def)
    with fails decides_success [OF sound] finished globs_at_end [of g t ti] show ?thesis by simp
  next
    case star
    let ?after = "after_stars g gi"
    have after: "?after \<le> length g" using after_stars_bounds(2) star by simp
    show ?thesis
    proof (cases "whole_segment_stars g gi")
      case True
      show ?thesis
      proof (cases "?after = length g")
        case False
        then have eq: "globs g t gi ti = directory_starts g t ?after ti"
          using globs_directories [OF star True] after by (simp add: directory_starts_def)
        have "decides g t (directory_starts g t ?after ti) (match_directories g t s ?after ti failed)"
          using IH(1) [OF refl star refl True False sound] bounds after False 0 eq by auto
        moreover have "match_run g t s gi ti failed = match_directories g t s ?after ti failed"
          by (subst run) (simp add: Let_def star True False)
        ultimately show ?thesis using eq by simp
      next
        case at_end: True
        have "match_run g t s gi ti failed = (True, failed)"
          by (subst run) (simp add: Let_def star True at_end)
        with globs_all_below [OF star True at_end] decides_success [OF sound] show ?thesis by simp
      qed
    next
      case False
      then have eq: "globs g t gi ti = segment_starts g t ?after ti"
        using globs_stars [OF star False] by (simp add: segment_starts_def)
      have "decides g t (segment_starts g t ?after ti) (match_stars g t s ?after ti failed)"
        using IH(2) [OF refl star refl False sound] bounds after 0 eq by auto
      moreover have "match_run g t s gi ti failed = match_stars g t s ?after ti failed"
        by (subst run) (simp add: Let_def star False)
      ultimately show ?thesis using eq by simp
    qed
  next
    case byte
    note meaning = globs_byte [OF byte, of t ti]
    show ?thesis
    proof (cases "ti < length t")
      case False
      then have "match_run g t s gi ti failed = (False, failed[s := True])"
        by (subst run) (simp add: Let_def byte)
      with fails meaning False show ?thesis by simp
    next
      case here: True
      then have "\<not> length t \<le> ti" by simp
      note IHs = IH(3-5) [OF refl byte this refl]
      consider (any) "g ! gi = CHR ''?''" | (cls) "g ! gi = CHR ''[''" | (lit) "g ! gi \<noteq> CHR ''?''" "g ! gi \<noteq> CHR ''[''" by blast
      then show ?thesis
      proof cases
        case any
        then have r: "match_run g t s gi ti failed = (if t ! ti = CHR ''/'' then (False, failed[s := True])
            else match_run g t s (gi + 1) (ti + 1) failed)"
          by (subst run) (use here byte in \<open>simp add: Let_def\<close>)
        show ?thesis
        proof (cases "t ! ti = CHR ''/''")
          case False
          then have eq: "globs g t gi ti = globs g t (gi + 1) (ti + 1)" using meaning any here by simp
          from IHs(1) [OF any False sound] 0 eq byte here show ?thesis unfolding r eq by (auto simp: False)
        qed (use fails meaning any here r in simp)
      next
        case cls
        then have r: "match_run g t s gi ti failed = (case find_class_end g gi of None \<Rightarrow> (False, failed[s := True])
            | Some k \<Rightarrow> if t ! ti = CHR ''/'' \<or> \<not> class_matches g gi k (t ! ti) then (False, failed[s := True])
                else match_run g t s k (ti + 1) failed)"
          by (subst run) (use here byte in \<open>simp add: Let_def\<close>)
        have notany: "g ! gi \<noteq> CHR ''?''" using cls by simp
        show ?thesis
        proof (cases "find_class_end g gi")
          case None
          with fails meaning cls here r show ?thesis by simp
        next
          case (Some k)
          show ?thesis
          proof (cases "t ! ti = CHR ''/'' \<or> \<not> class_matches g gi k (t ! ti)")
            case True
            with fails meaning cls here r Some show ?thesis by auto
          next
            case False
            then have eq: "globs g t gi ti = globs g t k (ti + 1)" using meaning cls here Some by simp
            from IHs(2) [OF notany cls Some False sound] 0 eq here find_class_end_bounds [OF Some]
            show ?thesis unfolding r eq by (auto simp: Some False)
          qed
        qed
      next
        case lit
        let ?l = "if g ! gi = backslash then gi + 1 else gi"
        have r: "match_run g t s gi ti failed = (if ?l \<ge> length g \<or> g ! ?l \<noteq> t ! ti then (False, failed[s := True])
            else match_run g t s (?l + 1) (ti + 1) failed)"
          by (subst run) (use here byte lit in \<open>simp add: Let_def\<close>)
        have m: "globs g t gi ti \<longleftrightarrow> ?l < length g \<and> g ! ?l = t ! ti \<and> globs g t (?l + 1) (ti + 1)"
          using meaning lit here by (simp add: Let_def)
        show ?thesis
        proof (cases "?l \<ge> length g \<or> g ! ?l \<noteq> t ! ti")
          case True
          then have "\<not> globs g t gi ti" using m by auto
          from fails [OF this] show ?thesis unfolding r if_P [OF True] .
        next
          case False
          then have eq: "globs g t gi ti = globs g t (?l + 1) (ti + 1)" using m by auto
          have from_state: "\<exists>i0 \<le> length g. \<exists>j0 \<le> length t. s = state_index t i0 j0 \<and> globs g t i0 j0 = globs g t (?l + 1) (ti + 1)"
            using 0 eq by blast
          have "?l + 1 \<le> length g" "ti + 1 \<le> length t" using False here by auto
          then have "decides g t (globs g t (?l + 1) (ti + 1)) (match_run g t s (?l + 1) (ti + 1) failed)"
            by (rule IHs(3) [OF lit refl False sound _ _ from_state])
          then show ?thesis unfolding r if_not_P [OF False] eq .
        qed
      qed
    qed
  qed
next
  case (3 g t s after start failed)
  obtain i0 j0 where 0: "i0 \<le> length g" "j0 \<le> length t" "s = state_index t i0 j0" "directory_starts g t after start = globs g t i0 j0"
    using 3(6) by blast
  note step = directory_starts_step [OF 3(5)] and run = match_directories.simps [of g t s after start failed]
  obtain b f' where r: "match_capture_glob_from g t (after + 1) start failed = (b, f')" by fastforce
  note run = run [unfolded r prod.case]
  have f: "sound_table g t f'" "b = globs g t (after + 1) start" using 3(1) [OF 3(3)] 3(4,5) r by (auto simp: decides_def)
  show ?case
  proof (cases b)
    case True
    with f step decides_success [OF f(1)] show ?thesis by (simp add: run)
  next
    case False
    show ?thesis
    proof (cases "find_char_from CHR ''/'' t start")
      case None
      with step f False have "\<not> directory_starts g t after start" by simp
      with None decides_failure [OF f(1) 0(1-3)] 0(4) show ?thesis by (simp add: run False)
    next
      case (Some slash)
      with step f False have eq: "directory_starts g t after start = directory_starts g t after (slash + 1)" by simp
      have "decides g t (directory_starts g t after (slash + 1)) (match_directories g t s after (slash + 1) f')"
        by (rule 3(2) [OF r [symmetric] _ Some f(1) 3(4)]) (use False 0 eq find_char_from_bounds [OF Some] in auto)
      with Some eq show ?thesis by (simp add: run False)
    qed
  qed
next
  case (4 g t s after start failed)
  obtain i0 j0 where 0: "i0 \<le> length g" "j0 \<le> length t" "s = state_index t i0 j0" "segment_starts g t after start = globs g t i0 j0"
    using 4(6) by blast
  note run = match_stars.simps [of g t s after start failed]
  show ?case
  proof (cases "start \<le> length t")
    case False
    then have "match_stars g t s after start failed = (False, failed[s := True])" by (subst run) simp
    with decides_failure [OF 4(3) 0(1-3)] 0(4) segment_starts_end [OF False] show ?thesis by simp
  next
    case here: True
    note step = segment_starts_step [OF here]
    obtain b f' where r: "match_capture_glob_from g t after start failed = (b, f')" by fastforce
    note run = run [unfolded r prod.case]
    have f: "sound_table g t f'" "b = globs g t after start" using 4(1) [OF here 4(3,4) here] r by (auto simp: decides_def)
    show ?thesis
    proof (cases b)
      case True
      with f step decides_success [OF f(1)] here show ?thesis by (simp add: run)
    next
      case False
      show ?thesis
      proof (cases "start < length t \<and> t ! start = CHR ''/''")
        case True
        with step f False have "\<not> segment_starts g t after start" by simp
        with True decides_failure [OF f(1) 0(1-3)] 0(4) here show ?thesis by (simp add: run False)
      next
        case no_slash: False
        with step f False have eq: "segment_starts g t after start = segment_starts g t after (start + 1)" by blast
        have "decides g t (segment_starts g t after (start + 1)) (match_stars g t s after (start + 1) f')"
          by (rule 4(2) [OF here r [symmetric] _ no_slash f(1) 4(4)]) (use False 0 eq here in auto)
        moreover have "match_stars g t s after start failed = match_stars g t s after (start + 1) f'"
          by (subst run) (use here False no_slash in auto)
        ultimately show ?thesis using eq by simp
      qed
    qed
  qed
qed

text \<open>C1: The matcher with its table of failed states decides the declarative meaning of a glob.\<close>
theorem match_capture_glob_meaning: "match_capture_glob glob path \<longleftrightarrow> globs glob path 0 0"
proof -
  have "sound_table glob path (replicate ((length glob + 1) * (length path + 1)) False)"
    unfolding sound_table_def
  proof (intro conjI allI impI)
    fix i j assume "i \<le> length glob" "j \<le> length path"
      "replicate ((length glob + 1) * (length path + 1)) False ! state_index path i j"
    then show "\<not> globs glob path i j" using nth_replicate [OF state_index_bound] by metis
  qed (simp only: length_replicate)
  from match_decides(1) [OF this, of 0 0] show ?thesis by (simp add: match_capture_glob_def decides_def)
qed

end
