(* ===== verification/Capture_Policy.thy ===== *)
theory Capture_Policy
  imports Machine Capture_Glob
begin

text \<open>
  The capture policy of a Project (\<^verbatim>\<open>core/capture_policy.cpp\<close>): compiling \<^verbatim>\<open>.tribiosignore\<close>,
  loading it from the Project root, deciding one path, and explaining the decision with the
  fixed rules and the rule that nothing below an excluded directory is captured. Single patterns
  and the matcher are in the theory Capture_Glob.
\<close>

section \<open>The policy\<close>

record capture_policy =
  policy_present :: bool
  policy_source_mode :: perm
  policy_source :: string
  policy_patterns :: "capture_pattern list"

record capture_decision =
  decision_excluded :: bool
  decision_pattern :: int

record capture_explanation =
  explained_excluded :: bool
  explained_reason :: string

definition empty_policy :: capture_policy where
  "empty_policy =
     \<lparr>policy_present = False, policy_source_mode = 0x180, policy_source = [], policy_patterns = []\<rparr>"

function compile_lines ::
  "string \<Rightarrow> nat \<Rightarrow> int \<Rightarrow> capture_pattern list \<Rightarrow> string + capture_pattern list"
where
  "compile_lines source line_start line_number patterns =
     (if line_start < length source
      then
        let line_end = (case find_char_from (CHR 0x0A) source line_start of
                          None \<Rightarrow> length source | Some i \<Rightarrow> i);
            number = line_number + 1
        in
          case parse_pattern_line (take (line_end - line_start) (drop line_start source)) number of
            Inl message \<Rightarrow>
              Inl (kCapturePolicyFileName @ '':'' @ show_int number @ '': '' @ message)
          | Inr parsed \<Rightarrow>
              compile_lines source (line_end + 1) number
                (patterns @ (case parsed of None \<Rightarrow> [] | Some p \<Rightarrow> [p]))
      else Inr patterns)"
  by auto
termination
  by (relation "measure (\<lambda>(source, line_start, _, _). length source - line_start)")
    (auto simp: find_char_from_def split: option.splits)

declare compile_lines.simps [simp del]

definition compile :: "string \<Rightarrow> string + capture_policy" where
  "compile source =
     (if CHR 0x00 \<in> set source then Inl (kCapturePolicyFileName @ '': contains a NUL byte'')
      else if \<not> is_valid_utf8 source then Inl (kCapturePolicyFileName @ '': is not valid UTF-8'')
      else case compile_lines source 0 0 [] of
        Inl message \<Rightarrow> Inl message
      | Inr patterns \<Rightarrow>
          Inr (empty_policy\<lparr>policy_present := True, policy_patterns := patterns,
                 policy_source := source\<rparr>))"

definition load_from_project :: "path \<Rightarrow> capture_policy control" where
  "load_from_project project_root =
     (let path = project_root @ [kCapturePolicyFileName] in
      bnd (gets (\<lambda>s. k_lstat (host s) path)) (\<lambda>found.
        case found of
          Inl code \<Rightarrow>
            if code = ENOENT then ret empty_policy else fail (''cannot inspect '' @ path_string path)
        | Inr n \<Rightarrow>
            if node_kind n \<noteq> REG then fail (path_string path @ '' must be a regular file'')
            else
              bnd (catch kernel_call (\<lambda>_. fail (''cannot read '' @ path_string path))) (\<lambda>_.
              bnd (catch kernel_call (\<lambda>_. fail (''cannot read '' @ path_string path))) (\<lambda>_.
              bnd (gets (\<lambda>s. case k_stat (host s) path of Inr (File m c) \<Rightarrow> c | _ \<Rightarrow> [])) (\<lambda>source.
                case compile source of
                  Inl message \<Rightarrow> fail message
                | Inr policy \<Rightarrow> ret (policy\<lparr>policy_source_mode := perm (node_meta n)\<rparr>))))))"

section \<open>Decisions\<close>

definition applies :: "capture_pattern \<Rightarrow> string \<Rightarrow> bool \<Rightarrow> bool" where
  "applies pattern rel is_directory \<longleftrightarrow>
     \<not> (pattern_directory_only pattern \<and> \<not> is_directory) \<and>
     match_capture_glob (pattern_glob pattern)
       (if pattern_anchored pattern then rel else final_segment rel)"

definition decide_step ::
  "string \<Rightarrow> bool \<Rightarrow> capture_decision \<Rightarrow> nat \<times> capture_pattern \<Rightarrow> capture_decision"
where
  "decide_step rel is_directory decision indexed =
     (case indexed of (index, pattern) \<Rightarrow>
        if applies pattern rel is_directory
        then \<lparr>decision_excluded = (\<not> pattern_negated pattern), decision_pattern = int index\<rparr>
        else decision)"

definition decide :: "capture_policy \<Rightarrow> string \<Rightarrow> bool \<Rightarrow> capture_decision" where
  "decide policy rel is_directory =
     foldl (decide_step rel is_directory) \<lparr>decision_excluded = False, decision_pattern = -1\<rparr>
       (List.enumerate 0 (policy_patterns policy))"

definition describe_pattern :: "capture_policy \<Rightarrow> capture_decision \<Rightarrow> string" where
  "describe_pattern policy decision =
     (if decision_pattern decision < 0 then ''no pattern matches''
      else let pattern = policy_patterns policy ! nat (decision_pattern decision)
           in kCapturePolicyFileName @ '':'' @ show_int (pattern_line pattern) @ '': '' @
              pattern_text pattern)"

section \<open>Explanations\<close>

text \<open>The parts of a path before each of its slashes, the shortest first.\<close>

definition ancestors_of :: "string \<Rightarrow> string list" where
  "ancestors_of rel =
     map (\<lambda>slash. take slash rel)
       (filter (\<lambda>i. rel ! i = CHR ''/'') [0..<length rel])"

fun explain_ancestors ::
  "node \<Rightarrow> path \<Rightarrow> nat \<Rightarrow> capture_policy \<Rightarrow> string list \<Rightarrow> capture_explanation option"
where
  "explain_ancestors root project_root root_dev policy [] = None"
| "explain_ancestors root project_root root_dev policy (ancestor # rest) =
     (let fixed =
            (case k_lstat root (fs_join project_root ancestor) of
               Inl _ \<Rightarrow> None
             | Inr n \<Rightarrow>
                 if is_link n
                 then Some (''Tribios rule: '' @ ancestor @ '' is a symlink and capture never follows it'')
                 else if dev (node_meta n) \<noteq> root_dev
                 then Some (''Tribios rule: '' @ ancestor @ '' is a nested mount'')
                 else None)
      in case fixed of
           Some reason \<Rightarrow> Some \<lparr>explained_excluded = True, explained_reason = reason\<rparr>
         | None \<Rightarrow>
             let decision = decide policy ancestor True in
             if decision_excluded decision
             then Some \<lparr>explained_excluded = True,
                    explained_reason =
                      describe_pattern policy decision @ '', matched parent directory '' @ ancestor\<rparr>
             else explain_ancestors root project_root root_dev policy rest)"

definition is_capturable_type :: "node \<Rightarrow> bool" where
  "is_capturable_type n \<longleftrightarrow> node_kind n = REG \<or> node_kind n = DIR \<or> node_kind n = LNK"

definition first_path_segment :: "string \<Rightarrow> string" where
  "first_path_segment rel =
     (case find_char (CHR ''/'') rel of None \<Rightarrow> rel | Some slash \<Rightarrow> take slash rel)"

definition explain_entry ::
  "node \<Rightarrow> path \<Rightarrow> nat \<Rightarrow> capture_policy \<Rightarrow> string \<Rightarrow> bool \<Rightarrow> capture_explanation"
where
  "explain_entry root project_root root_dev policy rel named_as_directory =
     (let decided = (\<lambda>is_directory.
            let decision = decide policy rel is_directory in
            \<lparr>explained_excluded = decision_excluded decision,
             explained_reason = describe_pattern policy decision\<rparr>)
      in case k_lstat root (fs_join project_root rel) of
           Inl _ \<Rightarrow> decided named_as_directory
         | Inr n \<Rightarrow>
             if dev (node_meta n) \<noteq> root_dev
             then \<lparr>explained_excluded = True,
                   explained_reason = ''Tribios rule: nested mounts are never captured''\<rparr>
             else if \<not> is_capturable_type n
             then \<lparr>explained_excluded = True,
                   explained_reason = ''Tribios rule: special files are never captured''\<rparr>
             else decided (is_dir n))"

definition explain_capture_decision ::
  "node \<Rightarrow> path \<Rightarrow> capture_policy \<Rightarrow> string \<Rightarrow> string + capture_explanation"
where
  "explain_capture_decision root project_root policy rel_path =
     (let rel = normalize_relative rel_path in
      if rel = [] then Inl ''the Project root itself is always captured''
      else if first_path_segment rel = kGitDirName \<or> first_path_segment rel = kTribiosDirName
      then Inr \<lparr>explained_excluded = True,
             explained_reason = ''Tribios rule: Git and Tribios metadata are never captured''\<rparr>
      else if rel = kCapturePolicyFileName
      then Inr \<lparr>explained_excluded = False,
             explained_reason = ''Tribios rule: the capture policy file is always captured''\<rparr>
      else case k_lstat root project_root of
        Inl _ \<Rightarrow> Inl (''cannot inspect '' @ path_string project_root)
      | Inr project \<Rightarrow>
          (case explain_ancestors root project_root (dev (node_meta project)) policy
                  (ancestors_of rel) of
             Some explanation \<Rightarrow> Inr explanation
           | None \<Rightarrow>
               Inr (explain_entry root project_root (dev (node_meta project)) policy rel
                      (suffix ''/'' rel_path))))"

section \<open>The last matching pattern decides\<close>

text \<open>The greatest index of a pattern that applies, found from the end.\<close>

definition last_applying :: "capture_pattern list \<Rightarrow> string \<Rightarrow> bool \<Rightarrow> nat option" where
  "last_applying patterns rel is_directory =
     find (\<lambda>i. applies (patterns ! i) rel is_directory) (rev [0..<length patterns])"

lemma last_applying_snoc:
  "last_applying (ps @ [p]) rel is_directory =
     (if applies p rel is_directory then Some (length ps) else last_applying ps rel is_directory)"
proof -
  have "find (\<lambda>i. applies ((ps @ [p]) ! i) rel is_directory) (rev [0..<length ps]) =
      find (\<lambda>i. applies (ps ! i) rel is_directory) (rev [0..<length ps])"
    by (rule find_cong) (auto simp: nth_append)
  then show ?thesis by (simp add: last_applying_def)
qed

lemma last_applying_Some:
  "last_applying ps rel is_directory = Some i \<longleftrightarrow>
     i < length ps \<and> applies (ps ! i) rel is_directory \<and>
     (\<forall>j. i < j \<and> j < length ps \<longrightarrow> \<not> applies (ps ! j) rel is_directory)"
proof (induction ps rule: rev_induct)
  case (snoc p ps)
  then show ?case
    by (auto simp: last_applying_snoc nth_append less_Suc_eq)
qed (simp add: last_applying_def)

lemma decide_last_applying:
  "decide policy rel is_directory =
     (case last_applying (policy_patterns policy) rel is_directory of
        None \<Rightarrow> \<lparr>decision_excluded = False, decision_pattern = -1\<rparr>
      | Some i \<Rightarrow>
          \<lparr>decision_excluded = (\<not> pattern_negated (policy_patterns policy ! i)),
           decision_pattern = int i\<rparr>)"
proof -
  have "foldl (decide_step rel is_directory) d0 (List.enumerate 0 ps) =
      (case last_applying ps rel is_directory of
         None \<Rightarrow> d0
       | Some i \<Rightarrow> \<lparr>decision_excluded = (\<not> pattern_negated (ps ! i)), decision_pattern = int i\<rparr>)"
    for d0 and ps :: "capture_pattern list"
  proof (induction ps rule: rev_induct)
    case (snoc p ps)
    then show ?case
      by (auto simp: last_applying_snoc decide_step_def enumerate_append_eq nth_append
          dest: last_applying_Some [THEN iffD1] split: option.splits)
  qed (simp add: last_applying_def)
  then show ?thesis by (simp add: decide_def)
qed

lemma last_applying_None:
  "last_applying ps rel is_directory = None \<longleftrightarrow>
     (\<forall>p \<in> set ps. \<not> applies p rel is_directory)"
  by (force simp: last_applying_def find_None_iff in_set_conv_nth)

lemma last_applying_drop:
  "last_applying ps rel is_directory = Some i \<longleftrightarrow>
     i < length ps \<and> applies (ps ! i) rel is_directory \<and>
     (\<forall>p \<in> set (drop (Suc i) ps). \<not> applies p rel is_directory)"
proof -
  have "(\<forall>j. i < j \<and> j < length ps \<longrightarrow> \<not> applies (ps ! j) rel is_directory) \<longleftrightarrow>
      (\<forall>p \<in> set (drop (Suc i) ps). \<not> applies p rel is_directory)"
    by (fastforce simp: set_conv_nth Suc_le_eq dest: less_imp_Suc_add)
  then show ?thesis by (simp add: last_applying_Some)
qed

text \<open>C2: The last pattern that applies to a path decides it: the decision is to exclude exactly when
  that pattern is not negated, it names that pattern, and it is the default, naming none, when no
  pattern applies.\<close>
theorem last_pattern_decides:
  "(decision_pattern (decide policy rel is_directory) = int i \<longleftrightarrow>
      i < length (policy_patterns policy) \<and>
      applies (policy_patterns policy ! i) rel is_directory \<and>
      \<not> list_ex (\<lambda>p. applies p rel is_directory) (drop (Suc i) (policy_patterns policy))) \<and>
   (decision_excluded (decide policy rel is_directory) \<longleftrightarrow>
      (\<exists>before p after. policy_patterns policy = before @ p # after \<and>
         applies p rel is_directory \<and> \<not> pattern_negated p \<and>
         \<not> list_ex (\<lambda>q. applies q rel is_directory) after))"
proof -
  let ?ps = "policy_patterns policy"
  note found = last_applying_drop [of _ rel is_directory]
  have "(\<exists>before p after. ?ps = before @ p # after \<and> applies p rel is_directory \<and>
        \<not> pattern_negated p \<and> (\<forall>q \<in> set after. \<not> applies q rel is_directory)) \<longleftrightarrow>
      (\<exists>i. last_applying ?ps rel is_directory = Some i \<and> \<not> pattern_negated (?ps ! i))"
  proof (intro iffI; elim exE conjE)
    fix before p after
    assume "?ps = before @ p # after" "applies p rel is_directory" "\<not> pattern_negated p"
      "\<forall>q \<in> set after. \<not> applies q rel is_directory"
    then show "\<exists>i. last_applying ?ps rel is_directory = Some i \<and> \<not> pattern_negated (?ps ! i)"
      by (intro exI [of _ "length before"]) (simp add: found)
  next
    fix i assume i: "last_applying ?ps rel is_directory = Some i" "\<not> pattern_negated (?ps ! i)"
    with found [of ?ps i] show "\<exists>before p after. ?ps = before @ p # after \<and>
        applies p rel is_directory \<and>
        \<not> pattern_negated p \<and> (\<forall>q \<in> set after. \<not> applies q rel is_directory)"
      by (intro exI [of _ "take i ?ps"] exI [of _ "?ps ! i"] exI [of _ "drop (Suc i) ?ps"])
        (simp add: id_take_nth_drop [symmetric])
  qed
  moreover have "decision_pattern (decide policy rel is_directory) = int i \<longleftrightarrow>
      last_applying ?ps rel is_directory = Some i"
    and "decision_excluded (decide policy rel is_directory) \<longleftrightarrow>
      (\<exists>i. last_applying ?ps rel is_directory = Some i \<and> \<not> pattern_negated (?ps ! i))"
    by (auto simp: decide_last_applying split: option.splits)
  moreover have "\<not> list_ex P xs \<longleftrightarrow> (\<forall>q \<in> set xs. \<not> P q)" for P and xs :: "capture_pattern list"
    by (simp add: list_ex_iff)
  ultimately show ?thesis by (simp only: found)
qed

end
