(* ===== verification/Base_Capture.thy ===== *)
theory Base_Capture
  imports Capture_Policy Workspace_Engine
begin

text \<open>
  Capturing the Base state (\<^verbatim>\<open>core/base_capture.cpp\<close>): one walk of the Project that either copies
  every captured entry below the Base directory or, in a dry run, only counts. The statistics the
  source updates through a reference are the value that is passed along. Measured times come from
  the environment, one number for each interval.
\<close>

section \<open>Statistics\<close>

record capture_exclusion =
  exclusion_path :: string
  exclusion_directory :: bool
  exclusion_reason :: string

record capture_stats =
  captured_entries :: int
  captured_bytes :: int
  capture_duration_ms :: int
  excluded_entries :: int
  excluded_bytes :: int
  exclusions :: "capture_exclusion list"

definition no_stats :: capture_stats where
  "no_stats =
     \<lparr>captured_entries = 0, captured_bytes = 0, capture_duration_ms = 0, excluded_entries = 0,
      excluded_bytes = 0, exclusions = []\<rparr>"

text \<open>\<^verbatim>\<open>CaptureWalk\<close>; no Base directory is a dry run.\<close>

record capture_walk =
  walk_source :: path
  walk_base :: "path option"
  walk_policy :: capture_policy
  walk_device :: nat

text \<open>A loop over a container that passes a value along.\<close>

fun fold_each :: "'b list \<Rightarrow> ('b \<Rightarrow> 'a \<Rightarrow> ('s, 'e, 'a) prog) \<Rightarrow> 'a \<Rightarrow> ('s, 'e, 'a) prog" where
  "fold_each [] f acc = ret acc"
| "fold_each (x # xs) f acc = bnd (f x acc) (fold_each xs f)"

section \<open>The walk\<close>

text \<open>
  Each level of recursion descends one directory, and the number bounds the depth; the walk starts
  above the size of the whole tree.
\<close>

fun count_excluded_tree ::
  "nat \<Rightarrow> env \<Rightarrow> path \<Rightarrow> node \<Rightarrow> nat \<Rightarrow> capture_stats \<Rightarrow> (machine, 'e, capture_stats) prog"
where
  "count_excluded_tree 0 e p n device stats = ret stats"
| "count_excluded_tree (Suc fuel) e p n device stats =
     (let counted = stats\<lparr>excluded_entries := excluded_entries stats + 1,
                      excluded_bytes := excluded_bytes stats +
                        (if node_kind n = REG then int (node_size e n) else 0)\<rparr>
      in if \<not> is_dir n then ret counted
         else
           bnd (attempt (bnd kernel_call (\<lambda>_. from_host (\<lambda>r. k_opendir r p)))) (\<lambda>opened.
             case opened of
               Inl _ \<Rightarrow> ret counted
             | Inr entries \<Rightarrow>
                 fold_each (map fst entries)
                   (\<lambda>name acc.
                      bnd (gets (\<lambda>s. k_lstat (host s) (p @ [name]))) (\<lambda>found.
                        case found of
                          Inl _ \<Rightarrow> ret acc
                        | Inr child \<Rightarrow>
                            if dev (node_meta child) \<noteq> device \<or> \<not> is_capturable_type child
                            then ret acc
                            else count_excluded_tree fuel e (p @ [name]) child device acc))
                   counted))"

text \<open>A stream that is closed explicitly and then asked whether all of it went well.\<close>

definition write_closed_stream :: "env \<Rightarrow> path \<Rightarrow> string \<Rightarrow> unit io" where
  "write_closed_stream e p text =
     bnd (gets (\<lambda>s. k_stat (host s) p)) (\<lambda>old.
     bnd (case old of
            Inl _ \<Rightarrow> sys_create_file e p 0x1B6
          | Inr _ \<Rightarrow> sys_edit p (\<lambda>_. [])) (\<lambda>_.
     bnd (sys_edit p (\<lambda>_. text)) (\<lambda>_. kernel_call)))"

definition write_compiled_policy :: "env \<Rightarrow> capture_walk \<Rightarrow> path \<Rightarrow> perm \<Rightarrow> unit control" where
  "write_compiled_policy e w target mode =
     (if walk_base w = None then ret ()
      else
        bnd (catch (write_closed_stream e target (policy_source (walk_policy w)))
               (\<lambda>_. fail (''base capture: cannot write '' @ path_string target))) (\<lambda>_.
        catch (sys_chmod target mode)
          (\<lambda>_. fail (''base capture: cannot preserve policy permissions '' @ path_string target))))"

text \<open>One entry that the policy does not exclude; \<open>descend\<close> captures the directory below it.\<close>

definition capture_link :: "env \<Rightarrow> capture_walk \<Rightarrow> path \<Rightarrow> string \<Rightarrow> string \<Rightarrow> unit control" where
  "capture_link e w source child target_text =
     (case walk_base w of
        None \<Rightarrow> ret ()
      | Some base \<Rightarrow>
          bnd (attempt kernel_call) (\<lambda>read.
          catch (sys_symlink e (case read of Inl _ \<Rightarrow> [] | Inr _ \<Rightarrow> target_text) (fs_join base child))
            (\<lambda>_. fail (''base capture: cannot recreate symlink '' @ child))))"

definition capture_new_directory :: "env \<Rightarrow> capture_walk \<Rightarrow> string \<Rightarrow> meta \<Rightarrow> unit control" where
  "capture_new_directory e w child m =
     (case walk_base w of
        None \<Rightarrow> ret ()
      | Some base \<Rightarrow>
          bnd (catch (fs_create_directories e (fs_join base child))
                 (\<lambda>_. fail (''base capture: cannot create '' @ path_string (fs_join base child)))) (\<lambda>_.
          bnd (attempt (sys_chmod (fs_join base child) (perm m))) (\<lambda>_. ret ())))"

definition capture_file :: "env \<Rightarrow> capture_walk \<Rightarrow> path \<Rightarrow> string \<Rightarrow> meta \<Rightarrow> unit control" where
  "capture_file e w source child m =
     (case walk_base w of
        None \<Rightarrow> ret ()
      | Some base \<Rightarrow>
          bnd (catch (fs_copy_file e source (fs_join base child) True)
                 (\<lambda>code. fail (''base capture: cannot copy '' @ child @ '': '' @ error_text e code))) (\<lambda>_.
          bnd (attempt (sys_chmod (fs_join base child) (perm m))) (\<lambda>_. ret ())))"

definition count_entry :: "nat \<Rightarrow> capture_stats \<Rightarrow> capture_stats" where
  "count_entry bytes stats =
     stats\<lparr>captured_entries := captured_entries stats + 1,
           captured_bytes := captured_bytes stats + int bytes\<rparr>"

definition exclude_entry ::
  "nat \<Rightarrow> env \<Rightarrow> capture_walk \<Rightarrow> path \<Rightarrow> string \<Rightarrow> node \<Rightarrow> capture_decision \<Rightarrow> capture_stats \<Rightarrow>
   capture_stats control"
where
  "exclude_entry fuel e w source child n decision stats =
     bnd (count_excluded_tree fuel e source n (walk_device w) stats) (\<lambda>counted.
     ret (counted\<lparr>exclusions := exclusions counted @
            [\<lparr>exclusion_path = child, exclusion_directory = is_dir n,
              exclusion_reason = describe_pattern (walk_policy w) decision\<rparr>]\<rparr>))"

definition never_captured_at_root :: "string \<Rightarrow> string \<Rightarrow> bool" where
  "never_captured_at_root rel name \<longleftrightarrow>
     rel = [] \<and> (name = kGitDirName \<or> name = kTribiosDirName \<or> name = kCapturePolicyFileName)"

fun capture_directory ::
  "nat \<Rightarrow> env \<Rightarrow> capture_walk \<Rightarrow> string \<Rightarrow> capture_stats \<Rightarrow> capture_stats control"
where
  "capture_directory 0 e w rel stats = fail ''base capture: out of fuel''"
| "capture_directory (Suc fuel) e w rel stats =
     (let source = (if rel = [] then walk_source w else fs_join (walk_source w) rel) in
      bnd (catch (bnd kernel_call (\<lambda>_. from_host (\<lambda>r. k_opendir r source)))
             (\<lambda>code. fail (''base capture: cannot read '' @ path_string source @ '': '' @
                           error_text e code))) (\<lambda>entries.
      fold_each (map fst entries)
        (\<lambda>name acc.
           if never_captured_at_root rel name then ret acc
           else
             bnd (gets (\<lambda>s. k_lstat (host s) (source @ [name]))) (\<lambda>found.
               case found of
                 Inl _ \<Rightarrow> ret acc
               | Inr n \<Rightarrow>
                   if dev (node_meta n) \<noteq> walk_device w then ret acc
                   else if \<not> is_capturable_type n then ret acc
                   else
                     let child = join_relative rel name;
                         decision = decide (walk_policy w) child (is_dir n)
                     in
                       if decision_excluded decision
                       then exclude_entry (Suc fuel) e w (source @ [name]) child n decision acc
                       else
                         case n of
                           Link m t \<Rightarrow>
                             bnd (capture_link e w (source @ [name]) child t)
                               (\<lambda>_. ret (count_entry 0 acc))
                         | Dir m cs \<Rightarrow>
                             bnd (capture_new_directory e w child m) (\<lambda>_.
                             bnd (capture_directory fuel e w child acc)
                               (\<lambda>below. ret (count_entry 0 below)))
                         | _ \<Rightarrow>
                             bnd (capture_file e w (source @ [name]) child (node_meta n))
                               (\<lambda>_. ret (count_entry (node_size e n) acc))))
        stats))"

definition walk_project ::
  "env \<Rightarrow> path \<Rightarrow> path option \<Rightarrow> capture_policy \<Rightarrow> capture_stats control"
where
  "walk_project e project_root base_root policy =
     bnd (gets (\<lambda>s. k_lstat (host s) project_root)) (\<lambda>found.
       case found of
         Inr (Dir m cs) \<Rightarrow>
           bnd (case base_root of
                  None \<Rightarrow> ret ()
                | Some base \<Rightarrow>
                    catch (fs_create_directories e base)
                      (\<lambda>_. fail (''base capture: cannot create '' @ path_string base))) (\<lambda>_.
           (let w = \<lparr>walk_source = project_root, walk_base = base_root, walk_policy = policy,
                     walk_device = dev m\<rparr>
            in
              bnd (if policy_present policy
                   then
                     bnd (write_compiled_policy e w
                            (case base_root of None \<Rightarrow> [] | Some base \<Rightarrow> base @ [kCapturePolicyFileName])
                            (policy_source_mode policy))
                       (\<lambda>_. ret (count_entry (length (policy_source policy)) no_stats))
                   else ret no_stats) (\<lambda>stats.
              bnd (gets (\<lambda>s. Suc (size (host s)))) (\<lambda>fuel.
              bnd (capture_directory fuel e w [] stats) (\<lambda>walked.
              ret (walked\<lparr>capture_duration_ms := elapsed e ''capture''\<rparr>))))))
       | _ \<Rightarrow> fail (''base capture: '' @ path_string project_root @ '' is not a directory''))"

definition capture_base_state ::
  "env \<Rightarrow> path \<Rightarrow> path \<Rightarrow> capture_policy \<Rightarrow> capture_stats control"
where
  "capture_base_state e project_root base_root policy =
     walk_project e project_root (Some base_root) policy"

definition plan_base_state_capture :: "env \<Rightarrow> path \<Rightarrow> capture_policy \<Rightarrow> capture_stats control" where
  "plan_base_state_capture e project_root policy = walk_project e project_root None policy"

end
