(* ===== verification/Project_Manager.thy ===== *)
theory Project_Manager
  imports Base_Capture Git_Worktree Recovery
begin

text \<open>
  One configured Project (\<^verbatim>\<open>core/project_manager.cpp\<close>): its directories, configuring it, opening it
  again after recovery, and creating and removing Workspaces. The manager keeps one engine for each
  active Workspace; a call on a Workspace runs with that engine as the engine of the machine. A
  reclamation thread is an entry of the list of reclaimers, and its work is one step that runs later.
\<close>

unbundle bit_operations_syntax

section \<open>Names and paths\<close>

definition is_alnum :: "char \<Rightarrow> bool" where
  "is_alnum c \<longleftrightarrow>
     (let n = (of_char c :: nat) in
      48 \<le> n \<and> n \<le> 57 \<or> 65 \<le> n \<and> n \<le> 90 \<or> 97 \<le> n \<and> n \<le> 122)"

definition is_valid_workspace_name :: "string \<Rightarrow> bool" where
  "is_valid_workspace_name name \<longleftrightarrow>
     \<not> (name = [] \<or> length name > 64 \<or> name = ''.'' \<or> name = ''..'') \<and>
     list_all (\<lambda>c. is_alnum c \<or> c = CHR ''-'' \<or> c = CHR ''_'' \<or> c = CHR ''.'') name"

definition stable_project_path_hash :: "string \<Rightarrow> 64 word" where
  "stable_project_path_hash text =
     foldl (\<lambda>hash byte. (hash XOR word_of_nat (of_char byte)) * 1099511628211) 14695981039346656037 text"

definition hex_digit_of :: "nat \<Rightarrow> char" where
  "hex_digit_of d = char_of (if d < 10 then 48 + d else 87 + d)"

definition show_hex16 :: "64 word \<Rightarrow> string" where
  "show_hex16 w = map (\<lambda>i. hex_digit_of (unat (drop_bit (4 * (15 - i)) w AND 15))) [0..<16]"

record project_paths =
  pp_root :: path
  pp_tribios_dir :: path
  pp_base_dir :: path
  pp_workspaces_dir :: path
  pp_staging_dir :: path
  pp_database :: path
  pp_socket :: path
  pp_mount_point :: path
  pp_log :: path

definition from_project_root :: "node \<Rightarrow> path \<Rightarrow> project_paths" where
  "from_project_root h project_root =
     (let root = (case weakly_canonical h [] project_root of Inl _ \<Rightarrow> project_root | Inr p \<Rightarrow> p);
          tribios_dir = root @ [kTribiosDirName]
      in \<lparr>pp_root = root, pp_tribios_dir = tribios_dir,
          pp_base_dir = tribios_dir @ [''base''], pp_workspaces_dir = tribios_dir @ [''workspaces''],
          pp_staging_dir = tribios_dir @ [''staging''], pp_database = tribios_dir @ [''meta.db''],
          pp_socket = [''tmp'', ''tribios-'' @ show_hex16 (stable_project_path_hash (path_string root)) @
                                ''.sock''],
          pp_mount_point = tribios_dir @ [''mnt''], pp_log = tribios_dir @ [''daemon.log'']\<rparr>)"

definition workspace_upper_directory :: "project_paths \<Rightarrow> string \<Rightarrow> path" where
  "workspace_upper_directory paths name = fs_join (pp_workspaces_dir paths) name @ [''upper'']"

section \<open>Durable writes\<close>

definition write_file_durably :: "env \<Rightarrow> path \<Rightarrow> string \<Rightarrow> unit control" where
  "write_file_durably e p contents =
     bnd (catch (bnd (gets (\<lambda>s. k_stat (host s) p)) (\<lambda>old.
                   case old of
                     Inl _ \<Rightarrow> sys_create_file e p 0x1A4
                   | Inr _ \<Rightarrow> sys_edit p (\<lambda>_. [])))
            (\<lambda>_. fail (''cannot create '' @ path_string p))) (\<lambda>_.
     bnd (if contents = [] then ret ()
          else catch (sys_edit p (\<lambda>_. contents)) (\<lambda>_. fail (''cannot write '' @ path_string p))) (\<lambda>_.
     bnd (catch (sync_file_data p) (\<lambda>_. fail (''cannot flush '' @ path_string p))) (\<lambda>_.
     catch (sync_parent_directory p)
       (\<lambda>_. fail (''cannot flush directory '' @ path_string (butlast p))))))"

definition verify_durable_backing_layout :: "env \<Rightarrow> project_paths \<Rightarrow> unit control" where
  "verify_durable_backing_layout e paths =
     (let staged_probe = pp_staging_dir paths @ [''.backing-layout-probe''];
          published_probe = pp_workspaces_dir paths @ [''.backing-layout-probe''];
          remove_probes = bnd (attempt (fs_remove staged_probe)) (\<lambda>_.
                          bnd (attempt (fs_remove published_probe)) (\<lambda>_. ret ()));
          refuse = (\<lambda>message. bnd remove_probes (\<lambda>_. fail message))
      in
        bnd (catch (write_file_durably e staged_probe ''tribios'')
               (\<lambda>why. refuse (''backing storage does not provide durable staged writes: '' @ why))) (\<lambda>_.
        bnd (catch (sys_rename staged_probe published_probe)
               (\<lambda>code. refuse (''backing storage cannot atomically publish staged Workspace data: '' @
                               error_text e code))) (\<lambda>_.
        bnd (catch (bnd (sync_directory (pp_staging_dir paths))
                      (\<lambda>_. sync_directory (pp_workspaces_dir paths)))
               (\<lambda>_. refuse ''backing storage cannot durably flush a published Workspace entry'')) (\<lambda>_.
        bnd remove_probes (\<lambda>_.
        catch (sync_directory (pp_workspaces_dir paths))
          (\<lambda>_. fail ''backing storage cannot durably remove a published Workspace entry''))))))"

text \<open>The number bounds the depth of the tree; a caller starts it above the size of the tree.\<close>

fun sync_tree_durably :: "nat \<Rightarrow> env \<Rightarrow> path \<Rightarrow> unit control" where
  "sync_tree_durably 0 e p = fail ''out of fuel''"
| "sync_tree_durably (Suc fuel) e p =
     bnd (gets (\<lambda>s. k_lstat (host s) p)) (\<lambda>found.
       case found of
         Inl _ \<Rightarrow> fail (''cannot inspect '' @ path_string p)
       | Inr (File m c) \<Rightarrow>
           catch (sync_file_data p) (\<lambda>_. fail (''cannot flush '' @ path_string p))
       | Inr (Dir m cs) \<Rightarrow>
           bnd (attempt (bnd kernel_call (\<lambda>_. from_host (\<lambda>r. k_opendir r p)))) (\<lambda>opened.
           bnd (for_each (case opened of Inl _ \<Rightarrow> [] | Inr entries \<Rightarrow> map fst entries)
                  (\<lambda>name. sync_tree_durably fuel e (p @ [name]))) (\<lambda>_.
           catch (sync_directory p) (\<lambda>_. fail (''cannot flush '' @ path_string p))))
       | Inr _ \<Rightarrow> ret ())"

section \<open>The database file\<close>

text \<open>
  Opening creates the file when it is missing, and a new database has the empty tables of
  \<^verbatim>\<open>kSchema\<close>. The three calls that can fail open it, run the schema and read the version.
\<close>

definition open_database :: "env \<Rightarrow> path \<Rightarrow> unit control" where
  "open_database e database =
     bnd (catch (bnd (gets (\<lambda>s. k_stat (host s) database)) (\<lambda>old.
                   case old of
                     Inl _ \<Rightarrow> bnd (sys_create_file e database 0x1A4)
                                (\<lambda>_. modify (\<lambda>s. s\<lparr>store := empty_store\<rparr>))
                   | Inr _ \<Rightarrow> kernel_call))
            (\<lambda>code. fail (sql_error e code))) (\<lambda>_.
     bnd (sql_step e) (\<lambda>_.
     catch kernel_call (\<lambda>_. fail ''metadata store: unsupported metadata format version'')))"

section \<open>Configuring a Project\<close>

definition create_project_directories :: "env \<Rightarrow> project_paths \<Rightarrow> unit control" where
  "create_project_directories e paths =
     for_each [pp_tribios_dir paths, pp_workspaces_dir paths, pp_staging_dir paths, pp_mount_point paths]
       (\<lambda>dir. catch (fs_create_directories e dir)
                (\<lambda>code. fail (''cannot create '' @ path_string dir @ '': '' @ error_text e code)))"

definition configured_record ::
  "env \<Rightarrow> project_paths \<Rightarrow> string \<Rightarrow> int \<Rightarrow> capture_stats \<Rightarrow> project_record"
where
  "configured_record e paths mount_point now captured =
     \<lparr>pr_root = path_string (pp_root paths),
      pr_mount_point = path_string (if mount_point = [] then pp_mount_point paths
                                    else fs_join (current_directory e) mount_point),
      pr_base_captured_at = now, pr_base_capture_ms = capture_duration_ms captured,
      pr_base_entry_count = captured_entries captured, pr_base_bytes = captured_bytes captured\<rparr>"

definition capture_project :: "env \<Rightarrow> project_paths \<Rightarrow> capture_policy \<Rightarrow> capture_stats control" where
  "capture_project e paths policy =
     bnd (capture_base_state e (pp_root paths) (pp_base_dir paths) policy) (\<lambda>captured.
     bnd (gets (\<lambda>s. Suc (size (host s)))) (\<lambda>fuel.
     bnd (sync_tree_durably fuel e (pp_base_dir paths)) (\<lambda>_.
     bnd (capture_base_git_index e (pp_root paths) (pp_base_dir paths) (pp_tribios_dir paths)) (\<lambda>_.
     ret captured))))"

definition configure :: "env \<Rightarrow> path \<Rightarrow> string \<Rightarrow> bool \<Rightarrow> capture_stats control" where
  "configure e project_root mount_point force =
     bnd (gets (\<lambda>s. from_project_root (host s) project_root)) (\<lambda>paths.
     bnd (gets (\<lambda>s. (fs_is_directory (pp_root paths) s, is_git_project (pp_root paths) s,
                     fs_exists (pp_database paths) s))) (\<lambda>(directory, git, configured).
     if \<not> directory then fail (path_string (pp_root paths) @ '' is not a directory'')
     else if \<not> git then fail (path_string (pp_root paths) @ '' is not a Git Project'')
     else if configured \<and> \<not> force
     then fail ''project is already configured; the Base state is captured once''
     else
       bnd (load_from_project (pp_root paths)) (\<lambda>policy.
       bnd (if force then bnd (attempt (fs_remove_all (pp_tribios_dir paths))) (\<lambda>_. ret ())
            else ret ()) (\<lambda>_.
       bnd (create_project_directories e paths) (\<lambda>_.
       bnd (verify_durable_backing_layout e paths) (\<lambda>_.
       bnd (capture_project e paths policy) (\<lambda>captured.
       bnd (open_database e (pp_database paths)) (\<lambda>_.
       bnd (gets clock) (\<lambda>now.
       bnd (save_project_record e (configured_record e paths mount_point now captured)) (\<lambda>_.
       bnd (catch (bnd (sync_directory (pp_tribios_dir paths))
                     (\<lambda>_. sync_parent_directory (pp_tribios_dir paths)))
              (\<lambda>_. fail ''cannot flush Project metadata directories'')) (\<lambda>_.
       ret captured)))))))))))"

section \<open>The manager\<close>

record project =
  mach :: machine
  project_dirs :: project_paths
  opened_record :: project_record
  engines :: "(string \<times> engine) list"
  reclaimers :: "(string \<times> int) list"

type_synonym 'a managed = "(project, string, 'a) prog"

definition on_machine :: "(machine, 'e, 'a) prog \<Rightarrow> (project, 'e, 'a) prog" where
  "on_machine m p = (case m (mach p) of (r, t) \<Rightarrow> (r, p\<lparr>mach := t\<rparr>))"

definition record_diagnostic :: "env \<Rightarrow> project_paths \<Rightarrow> string \<Rightarrow> 'a control" where
  "record_diagnostic e paths message =
     bnd (attempt (record_recovery_diagnostic e (path_string (pp_root paths)) message)) (\<lambda>recorded.
       case recorded of
         Inr diagnostic \<Rightarrow>
           fail (''recovery diagnostic R'' @ show_int diagnostic @ '': '' @ message)
       | Inl _ \<Rightarrow> fail message)"

fun open_engines ::
  "env \<Rightarrow> project_paths \<Rightarrow> workspace_record list \<Rightarrow> (string \<times> engine) list \<Rightarrow>
   (machine, 'e, (string \<times> engine) list) prog"
where
  "open_engines e paths [] opened = ret opened"
| "open_engines e paths (r # rs) opened =
     (if ws_state r = Active
      then bnd (new_engine e (ws_name r) (pp_base_dir paths) (workspace_upper_directory paths (ws_name r)))
             (\<lambda>en. open_engines e paths rs
                     (case map_of opened (ws_name r) of
                        Some _ \<Rightarrow> opened | None \<Rightarrow> omap_set (ws_name r) en opened))
      else open_engines e paths rs opened)"

definition open_configured_project ::
  "env \<Rightarrow> path \<Rightarrow> (project_paths \<times> project_record \<times> (string \<times> engine) list) control"
where
  "open_configured_project e project_root =
     bnd (gets (\<lambda>s. from_project_root (host s) project_root)) (\<lambda>paths0.
     bnd (gets (fs_exists (pp_database paths0))) (\<lambda>configured.
     if \<not> configured then fail ''project is not configured: run `tribios configure` first''
     else
       bnd (open_database e (pp_database paths0)) (\<lambda>_.
       bnd (load_project_record e) (\<lambda>loaded.
         case loaded of
           None \<Rightarrow> fail ''project record is missing from the metadata store''
         | Some r \<Rightarrow>
             let paths = paths0\<lparr>pp_mount_point := segs (pr_mount_point r)\<rparr> in
             bnd (catch (recover_interrupted_operations e (pp_root paths) (pp_tribios_dir paths)
                           (pp_workspaces_dir paths))
                    (record_diagnostic e paths)) (\<lambda>_.
             bnd (catch (validate_project_storage_invariants e (pp_root paths) (pp_base_dir paths)
                           (pp_workspaces_dir paths))
                    (record_diagnostic e paths)) (\<lambda>_.
             bnd (load_all_workspace_records e) (\<lambda>records.
             bnd (open_engines e paths records []) (\<lambda>opened.
             ret (paths, r, opened)))))))))"

end
