(* ===== verification/Frames.thy ===== *)
theory Frames
  imports Base_Capture Git_Worktree Recovery Project_Manager
begin

text \<open>
  What the programs leave alone. Two frame conditions are instances of the locale \<open>frame\<close>: a program
  that only reads leaves host, database and engine as they are, and a program that only works on
  the host leaves the database and the engine as they are.
\<close>

section \<open>The two relations\<close>

definition only_read :: "machine \<Rightarrow> machine \<Rightarrow> bool" where
  "only_read s t \<longleftrightarrow> host t = host s \<and> store t = store s \<and> eng t = eng s"

definition only_host :: "machine \<Rightarrow> machine \<Rightarrow> bool" where
  "only_host s t \<longleftrightarrow> store t = store s \<and> eng t = eng s"

interpretation reads: frame only_read
  by unfold_locales (auto simp: only_read_def)

interpretation hosts: frame only_host
  by unfold_locales (auto simp: only_host_def)

lemma keeps_weaken: "keeps R m \<Longrightarrow> (\<And>s t. R s t \<Longrightarrow> Q s t) \<Longrightarrow> keeps Q m"
  by (auto simp: keeps_def)

lemma only_read_host: "only_read s t \<Longrightarrow> only_host s t"
  by (simp add: only_read_def only_host_def)

named_theorems reading "programs that only read"
named_theorems hosting "programs that only work on the host"

section \<open>Programs that only read\<close>

lemma kernel_call_reads [reading]: "keeps only_read kernel_call"
  by (auto simp: keeps_def kernel_call_def only_read_def split: prod.split)

lemma from_host_reads [reading]: "keeps only_read (from_host f)"
  by (auto simp: keeps_def from_host_def only_read_def split: sum.split)

lemma sync_file_data_reads [reading]: "keeps only_read (sync_file_data p)"
  and sync_directory_reads [reading]: "keeps only_read (sync_directory p)"
  unfolding sync_file_data_def sync_directory_def
  by (intro reads.keeps_intros reading)+

lemma sync_parent_directory_reads [reading]: "keeps only_read (sync_parent_directory p)"
  unfolding sync_parent_directory_def by (rule reading)

lemma fold_each_reads: "(\<And>x a. keeps only_read (f x a)) \<Longrightarrow> keeps only_read (fold_each xs f a)"
  by (induction xs arbitrary: a) (auto intro!: reads.keeps_intros)

lemma count_excluded_tree_reads [reading]: "keeps only_read (count_excluded_tree fuel e p n dv stats)"
proof (induction fuel arbitrary: p n dv stats)
  case (Suc fuel)
  show ?case
    by (auto intro!: reads.keeps_intros reading fold_each_reads Suc split: sum.split simp: Let_def)
qed (simp add: reads.keeps_ret)

lemma exclude_entry_reads [reading]: "keeps only_read (exclude_entry fuel e w p child n d stats)"
  unfolding exclude_entry_def by (intro reads.keeps_intros reading)

lemma capture_directory_reads:
  assumes "walk_base w = None"
  shows "keeps only_read (capture_directory fuel e w rel stats)"
proof (induction fuel arbitrary: rel stats)
  case (Suc fuel)
  show ?case
    using assms
    by (auto intro!: reads.keeps_intros reading fold_each_reads Suc split: sum.split node.split
        simp: Let_def capture_link_def capture_new_directory_def capture_file_def)
qed (simp add: reads.keeps_fail)

lemma walk_project_reads: "keeps only_read (walk_project e project_root None policy)"
  unfolding walk_project_def
  by (auto intro!: reads.keeps_intros capture_directory_reads
      split: sum.split node.split simp: Let_def write_compiled_policy_def)

lemma load_from_project_reads [reading]: "keeps only_read (load_from_project project_root)"
  unfolding load_from_project_def
  by (auto intro!: reads.keeps_intros reading split: sum.split simp: Let_def)

text \<open>C25: Planning a capture changes neither the host nor the database nor an engine, however it ends.\<close>
theorem plan_changes_nothing:
  "only_read s (snd (plan_base_state_capture e project_root policy s))"
  unfolding plan_base_state_capture_def by (rule keepsD [OF walk_project_reads])

section \<open>Programs that only work on the host\<close>

lemmas reading_hosts [hosting] = reading [THEN keeps_weaken, OF only_read_host]

lemma on_host_hosts [hosting]: "keeps only_host (on_host f)"
  by (auto simp: keeps_def on_host_def only_host_def split: sum.split)

lemma fresh_meta_hosts [hosting]: "keeps only_host (fresh_meta e p mode)"
  by (auto simp: keeps_def fresh_meta_def only_host_def)

lemma sys_hosts [hosting]: "keeps only_host (sys f)"
  unfolding sys_def by (intro hosts.keeps_intros hosting)

lemma new_entry_hosts [hosting]: "keeps only_host (new_entry e p mode mk)"
  unfolding new_entry_def by (intro hosts.keeps_intros hosting)

lemma sys_calls_host [hosting]:
  "keeps only_host (sys_mkdir e p mode)" "keeps only_host (sys_create_file e p mode)"
  "keeps only_host (sys_symlink e t p)" "keeps only_host (sys_unlink p)" "keeps only_host (sys_rmdir p)"
  "keeps only_host (sys_rename p q)" "keeps only_host (sys_edit p f)" "keeps only_host (sys_chmod p mode)"
  "keeps only_host (sys_utimes p a m)"
  unfolding sys_mkdir_def sys_create_file_def sys_symlink_def sys_unlink_def sys_rmdir_def sys_rename_def
    sys_edit_def sys_chmod_def sys_utimes_def
  by (intro hosts.keeps_intros hosting)+

lemma fs_remove_hosts [hosting]: "keeps only_host (fs_remove p)"
  unfolding fs_remove_def by (auto intro!: hosts.keeps_intros hosting split: sum.split)

lemma fs_remove_all_hosts [hosting]: "keeps only_host (fs_remove_all p)"
  by (auto simp: keeps_def fs_remove_all_def only_host_def split: sum.split option.split prod.split)

lemma create_directories_from_hosts: "keeps only_host (create_directories_from e front xs)"
  by (induction e front xs rule: create_directories_from.induct)
    (auto intro!: hosts.keeps_intros hosting split: sum.split)

lemma fs_create_directories_hosts [hosting]: "keeps only_host (fs_create_directories e p)"
  unfolding fs_create_directories_def by (rule create_directories_from_hosts)

lemma fs_copy_file_hosts [hosting]: "keeps only_host (fs_copy_file e p q overwrite)"
  unfolding fs_copy_file_def by (auto intro!: hosts.keeps_intros hosting split: sum.split node.split)

lemma read_whole_file_hosts [hosting]: "keeps only_host (read_whole_file p)"
  unfolding read_whole_file_def by (intro hosts.keeps_intros hosting)

lemma read_first_line_hosts [hosting]: "keeps only_host (read_first_line p)"
  unfolding read_first_line_def by (intro hosts.keeps_intros hosting)

lemma write_stream_hosts [hosting]: "keeps only_host (write_stream e p text)"
  unfolding write_stream_def by (auto intro!: hosts.keeps_intros hosting split: sum.split)

lemma trigger_failpoint_hosts [hosting]: "keeps only_host (trigger_failpoint e name text)"
  unfolding trigger_failpoint_def
  by (auto intro!: hosts.keeps_intros hosts.keeps_modify simp: only_host_def)

lemma run_process_hosts [hosting]: "keeps only_host (run_process_and_capture_output e arguments)"
  unfolding run_process_and_capture_output_def
  by (auto intro!: hosts.keeps_intros hosting hosts.keeps_modify simp: only_host_def split: sum.split prod.split)

section \<open>Git and durable files\<close>

lemma sys_opendir_hosts [hosting]: "keeps only_host (bnd kernel_call (\<lambda>_. from_host f))"
  by (intro hosts.keeps_intros hosting)

lemma resolve_sha1_head_commit_hosts [hosting]: "keeps only_host (resolve_sha1_head_commit e d)"
  unfolding resolve_sha1_head_commit_def Let_def
  by (auto intro!: hosts.keeps_intros hosting split: prod.split)

lemma write_translated_hosts [hosting]: "keeps only_host (write_translated e p b)"
  unfolding write_translated_def Let_def by (intro hosts.keeps_intros hosting)

lemma translate_hosts [hosting]: "keeps only_host (translate_verified_entries e p base salt d)"
  unfolding translate_verified_entries_def
  by (auto intro!: hosts.keeps_intros hosting split: option.split sum.split)

lemma seed_hosts [hosting]: "keeps only_host (seed_workspace_git_index e a t b c h salt d)"
  unfolding seed_workspace_git_index_def Let_def
  by (auto intro!: hosts.keeps_intros hosting split: prod.split)

lemma populate_hosts [hosting]: "keeps only_host (populate_workspace_git_index e a t b salt d)"
  unfolding populate_workspace_git_index_def Let_def
  by (auto intro!: hosts.keeps_intros hosting split: prod.split sum.split)

lemma flush_worktree_hosts [hosting]: "keeps only_host (flush_worktree e r b a)"
  unfolding flush_worktree_def Let_def by (intro hosts.keeps_intros hosting)

lemma register_hosts [hosting]: "keeps only_host (register_linked_worktree e r b w st seed)"
  unfolding register_linked_worktree_def Let_def
  by (auto intro!: hosts.keeps_intros hosting split: prod.split option.split)

lemma unregister_hosts [hosting]: "keeps only_host (unregister_linked_worktree e r w)"
  unfolding unregister_linked_worktree_def Let_def
  by (auto intro!: hosts.keeps_intros hosting split: prod.split)

lemma rollback_hosts [hosting]: "keeps only_host (rollback_linked_worktree_creation e r b w st)"
  unfolding rollback_linked_worktree_creation_def
  by (auto intro!: hosts.keeps_intros hosting split: prod.split sum.split)

lemma write_file_durably_hosts [hosting]: "keeps only_host (write_file_durably e p c)"
  unfolding write_file_durably_def
  by (auto intro!: hosts.keeps_intros hosting split: sum.split)

end
