(* ===== verification/Workspace_Lifecycle.thy ===== *)
theory Workspace_Lifecycle
  imports Project_Manager
begin

text \<open>
  Creating and removing Workspaces, and the reclamation a removal starts (the second half of
  \<^verbatim>\<open>core/project_manager.cpp\<close>). Each is journaled: the operation row is written first, the Workspace
  record moves from \<open>Creating\<close> to \<open>Active\<close> or from \<open>Active\<close> over \<open>Removed\<close> to \<open>Reclaimed\<close>, and the row
  goes last.
\<close>

section \<open>Creation\<close>

record create_result =
  created_name :: string
  created_branch :: string
  created_us :: int
  created_path :: path

definition lifecycle_operation :: "string \<Rightarrow> string \<Rightarrow> string \<Rightarrow> recovery_operation" where
  "lifecycle_operation kind name target =
     \<lparr>op_id = 0, op_workspace = name, op_kind = kind, op_path = name, op_target = target,
      op_phase = Prepared, add_path_tombstone = False, drop_target_tombstones = False\<rparr>"

definition new_workspace_record :: "string \<Rightarrow> string \<Rightarrow> int \<Rightarrow> workspace_record" where
  "new_workspace_record name branch now =
     \<lparr>ws_name = name, ws_branch = branch, ws_state = Creating, ws_created_at = now, ws_create_us = 0,
      ws_removed_at = 0, ws_logical_remove_us = 0, ws_reclaim_us = 0\<rparr>"

text \<open>An injected error at a boundary of the lifecycle, handled by \<open>undo\<close>.\<close>

definition lifecycle_boundary :: "env \<Rightarrow> string \<Rightarrow> string \<Rightarrow> unit control \<Rightarrow> unit control" where
  "lifecycle_boundary e boundary what undo =
     (let fault = injected_io_error e boundary in
      if fault \<noteq> 0 then bnd undo (\<lambda>_. fail (what @ error_text e fault)) else ret ())"

definition discard :: "(machine, string, 'a) prog \<Rightarrow> unit control" where
  "discard m = bnd (attempt m) (\<lambda>_. ret ())"

definition settle_as_reclaimed :: "env \<Rightarrow> string \<Rightarrow> int \<Rightarrow> unit control" where
  "settle_as_reclaimed e name i =
     bnd (discard (set_workspace_state e name Reclaimed)) (\<lambda>_. discard (abandon_recovery_operation e i))"

definition remove_upper_tree :: "path \<Rightarrow> unit control" where
  "remove_upper_tree upper = bnd (attempt (fs_remove_all upper)) (\<lambda>_. ret ())"

definition undo_creation :: "env \<Rightarrow> project_paths \<Rightarrow> string \<Rightarrow> string \<Rightarrow> int \<Rightarrow> unit control" where
  "undo_creation e paths name branch i =
     bnd (discard (rollback_linked_worktree_creation e (pp_root paths) branch
                     (fs_join (pp_mount_point paths) name) (fs_join (pp_staging_dir paths) name))) (\<lambda>_.
     bnd (remove_upper_tree (workspace_upper_directory paths name)) (\<lambda>_.
     settle_as_reclaimed e name i))"

definition then_undo :: "unit control \<Rightarrow> unit control \<Rightarrow> unit control" where
  "then_undo m undo = catch m (\<lambda>message. bnd undo (\<lambda>_. fail message))"

definition record_creation :: "env \<Rightarrow> workspace_record \<Rightarrow> string \<Rightarrow> int \<Rightarrow> unit control" where
  "record_creation e r op_context i =
     bnd (trigger_failpoint e ''workspace_create.after_journal'' op_context) (\<lambda>_.
     bnd (lifecycle_boundary e ''lifecycle.state.write'' ''Workspace creation state failed: ''
            (discard (abandon_recovery_operation e i))) (\<lambda>_.
     bnd (then_undo (save_workspace_record e r) (discard (abandon_recovery_operation e i))) (\<lambda>_.
     trigger_failpoint e ''workspace_create.after_state_commit'' op_context)))"

definition create_storage :: "env \<Rightarrow> project_paths \<Rightarrow> string \<Rightarrow> string \<Rightarrow> int \<Rightarrow> unit control" where
  "create_storage e paths name op_context i =
     (let upper = workspace_upper_directory paths name in
      bnd (lifecycle_boundary e ''lifecycle.storage.create'' ''Workspace storage creation failed: ''
             (settle_as_reclaimed e name i)) (\<lambda>_.
      bnd (catch (fs_create_directories e upper)
             (\<lambda>code. fail (''cannot create Workspace storage: '' @ error_text e code))) (\<lambda>_.
      bnd (catch (sync_parent_directory upper)
             (\<lambda>_. fail ''cannot flush Workspace storage directory'')) (\<lambda>_.
      trigger_failpoint e ''workspace_create.after_storage'' op_context))))"

definition register_workspace ::
  "env \<Rightarrow> project_paths \<Rightarrow> string \<Rightarrow> string \<Rightarrow> string \<Rightarrow> int \<Rightarrow> string control"
where
  "register_workspace e paths name branch op_context i =
     bnd (gets (\<lambda>s. case k_stat (host s) (pp_mount_point paths) of
                      Inl _ \<Rightarrow> 0 | Inr n \<Rightarrow> word_of_nat (dev (node_meta n)))) (\<lambda>mount_device.
     bnd (catch (register_linked_worktree e (pp_root paths) branch (fs_join (pp_mount_point paths) name)
                   (fs_join (pp_staging_dir paths) name)
                   \<lparr>seed_tribios_dir = pp_tribios_dir paths, seed_base_dir = pp_base_dir paths,
                    seed_inode_salt = workspace_inode_salt name, seed_device = mount_device\<rparr>)
            (\<lambda>message.
               bnd (remove_upper_tree (workspace_upper_directory paths name)) (\<lambda>_.
               bnd (settle_as_reclaimed e name i) (\<lambda>_. fail message)))) (\<lambda>git_file.
     bnd (trigger_failpoint e ''workspace_create.after_git_register'' op_context) (\<lambda>_.
     ret git_file)))"

definition write_git_pointer ::
  "env \<Rightarrow> project_paths \<Rightarrow> string \<Rightarrow> string \<Rightarrow> string \<Rightarrow> string \<Rightarrow> int \<Rightarrow> unit control"
where
  "write_git_pointer e paths name branch git_file op_context i =
     (let undo = undo_creation e paths name branch i in
      bnd (lifecycle_boundary e ''lifecycle.git_pointer.write'' ''Workspace Git pointer failed: '' undo) (\<lambda>_.
      bnd (then_undo (write_file_durably e (workspace_upper_directory paths name @ [kGitDirName]) git_file)
             undo) (\<lambda>_.
      trigger_failpoint e ''workspace_create.after_git_pointer'' op_context)))"

definition activate_workspace ::
  "env \<Rightarrow> project_paths \<Rightarrow> workspace_record \<Rightarrow> string \<Rightarrow> int \<Rightarrow> unit control"
where
  "activate_workspace e paths r op_context i =
     (let undo = undo_creation e paths (ws_name r) (ws_branch r) i in
      bnd (lifecycle_boundary e ''lifecycle.active.write'' ''Workspace activation failed: '' undo) (\<lambda>_.
      bnd (then_undo (save_workspace_record e r) undo) (\<lambda>_.
      bnd (trigger_failpoint e ''workspace_create.after_active_commit'' op_context) (\<lambda>_.
      abandon_recovery_operation e i))))"

text \<open>Everything a creation does on disk and in the database, ending with the durable record.\<close>

definition create_durably ::
  "env \<Rightarrow> project_paths \<Rightarrow> string \<Rightarrow> string \<Rightarrow> (workspace_record \<times> string) control"
where
  "create_durably e paths name branch =
     bnd (lifecycle_boundary e ''lifecycle.journal.write'' ''Workspace creation journal failed: '' (ret ())) (\<lambda>_.
     bnd (begin_recovery_operation e (lifecycle_operation ''workspace_create'' name branch)) (\<lambda>i.
     (let op_context = ''operation='' @ show_int i @ '' workspace='' @ name @ '' branch='' @ branch in
      bnd (gets clock) (\<lambda>now.
      let r = new_workspace_record name branch now;
          r' = r\<lparr>ws_state := Active, ws_create_us := elapsed e ''create''\<rparr>
      in
        bnd (record_creation e r op_context i) (\<lambda>_.
        bnd (create_storage e paths name op_context i) (\<lambda>_.
        bnd (register_workspace e paths name branch op_context i) (\<lambda>git_file.
        bnd (write_git_pointer e paths name branch git_file op_context i) (\<lambda>_.
        bnd (activate_workspace e paths r' op_context i) (\<lambda>_.
        ret (r', op_context))))))))))"

definition create_workspace :: "env \<Rightarrow> string \<Rightarrow> string \<Rightarrow> create_result managed" where
  "create_workspace e name requested_branch =
     (if \<not> is_valid_workspace_name name then fail (''invalid Workspace name: '' @ name)
      else
        bnd (gets (\<lambda>p. map_of (engines p) name)) (\<lambda>running.
        if running \<noteq> None then fail (''Workspace already exists: '' @ name)
        else
          bnd (on_machine (load_workspace_record e name)) (\<lambda>existing.
          if (case existing of None \<Rightarrow> False | Some r \<Rightarrow> ws_state r \<noteq> Reclaimed)
          then fail (''Workspace name is still in use: '' @ name)
          else
            bnd (gets project_dirs) (\<lambda>paths.
            let branch = (if requested_branch = [] then name else requested_branch) in
            bnd (on_machine (create_durably e paths name branch)) (\<lambda>(r, op_context).
            bnd (on_machine (new_engine e name (pp_base_dir paths) (workspace_upper_directory paths name)))
              (\<lambda>en.
            bnd (modify (\<lambda>p. p\<lparr>engines := (case map_of (engines p) name of
                                              Some _ \<Rightarrow> engines p
                                            | None \<Rightarrow> omap_set name en (engines p))\<rparr>)) (\<lambda>_.
            bnd (on_machine (trigger_failpoint e ''workspace_create.before_reply'' op_context)) (\<lambda>_.
            ret \<lparr>created_name = name, created_branch = ws_branch r, created_us = ws_create_us r,
                 created_path = fs_join (pp_mount_point paths) name\<rparr>))))))))"

section \<open>Removal\<close>

record remove_result =
  removed_name :: string
  removed_us :: int

text \<open>What a removal writes before the engine goes; \<open>running\<close> tells whether there is an engine.\<close>

definition remove_durably ::
  "env \<Rightarrow> bool \<Rightarrow> workspace_record \<Rightarrow> (workspace_record \<times> int) control"
where
  "remove_durably e running r =
     (let name = ws_name r in
      bnd (lifecycle_boundary e ''lifecycle.journal.write'' ''Workspace removal journal failed: '' (ret ())) (\<lambda>_.
      bnd (begin_recovery_operation e (lifecycle_operation ''workspace_remove'' name [])) (\<lambda>i.
      let op_context = ''operation='' @ show_int i @ '' workspace='' @ name;
          abandon = discard (abandon_recovery_operation e i)
      in
        bnd (trigger_failpoint e ''workspace_remove.after_journal'' op_context) (\<lambda>_.
        if \<not> running
        then bnd abandon (\<lambda>_. fail (''no such active Workspace: '' @ name))
        else
          bnd (gets clock) (\<lambda>now.
          let r' = r\<lparr>ws_state := Removed, ws_removed_at := now,
                     ws_logical_remove_us := elapsed e ''remove'', ws_reclaim_us := -1\<rparr>
          in
            bnd (lifecycle_boundary e ''lifecycle.removed.write'' ''Workspace removal state failed: '' abandon)
              (\<lambda>_.
            bnd (then_undo (save_workspace_record e r') abandon) (\<lambda>_.
            bnd (trigger_failpoint e ''workspace_remove.after_removed_commit'' op_context) (\<lambda>_.
            ret (r', i)))))))))"

definition remove_workspace :: "env \<Rightarrow> string \<Rightarrow> remove_result managed" where
  "remove_workspace e name =
     bnd (on_machine (load_workspace_record e name)) (\<lambda>found.
       case found of
         None \<Rightarrow> fail (''no such active Workspace: '' @ name)
       | Some r \<Rightarrow>
           if ws_state r \<noteq> Active then fail (''no such active Workspace: '' @ name)
           else
             bnd (gets (\<lambda>p. map_of (engines p) name \<noteq> None)) (\<lambda>running.
             bnd (on_machine (remove_durably e running r)) (\<lambda>(r', i).
             bnd (modify (\<lambda>p. p\<lparr>engines := erase_key name (engines p),
                                 reclaimers := reclaimers p @ [(name, i)]\<rparr>)) (\<lambda>_.
             bnd (on_machine (trigger_failpoint e ''workspace_remove.before_reply''
                    (''operation='' @ show_int i @ '' workspace='' @ name))) (\<lambda>_.
             ret \<lparr>removed_name = name, removed_us = ws_logical_remove_us r'\<rparr>)))))"

section \<open>Reclamation\<close>

text \<open>The body of a reclamation thread; an error ends it and leaves the rest to recovery.\<close>

definition reclaim_steps :: "env \<Rightarrow> project_paths \<Rightarrow> string \<Rightarrow> int \<Rightarrow> unit control" where
  "reclaim_steps e paths name i =
     (let point = (\<lambda>at. trigger_failpoint e at (''operation='' @ show_int i @ '' workspace='' @ name));
          quiet = (\<lambda>m :: unit io. catch m (\<lambda>_. fail []))
      in
        bnd (point ''workspace_remove.before_git_cleanup'') (\<lambda>_.
        bnd (unregister_linked_worktree e (pp_root paths) (fs_join (pp_mount_point paths) name)) (\<lambda>_.
        bnd (point ''workspace_remove.after_git_cleanup'') (\<lambda>_.
        bnd (point ''workspace_remove.before_storage_cleanup'') (\<lambda>_.
        bnd (quiet (fs_remove_all (fs_join (pp_workspaces_dir paths) name))) (\<lambda>_.
        bnd (quiet (sync_directory (pp_workspaces_dir paths))) (\<lambda>_.
        bnd (point ''workspace_remove.after_storage_cleanup'') (\<lambda>_.
        bnd (point ''workspace_remove.before_tombstone_cleanup'') (\<lambda>_.
        bnd (clear_tombstones e name) (\<lambda>_.
        bnd (point ''workspace_remove.after_tombstone_cleanup'') (\<lambda>_.
        bnd (set_workspace_reclamation_duration e name (elapsed e ''reclaim'')) (\<lambda>_.
        bnd (point ''workspace_remove.before_reclaimed_commit'') (\<lambda>_.
        bnd (set_workspace_state e name Reclaimed) (\<lambda>_.
        bnd (point ''workspace_remove.after_reclaimed_commit'') (\<lambda>_.
        abandon_recovery_operation e i)))))))))))))))"

definition reclaim_workspace :: "env \<Rightarrow> project_paths \<Rightarrow> string \<Rightarrow> int \<Rightarrow> unit control" where
  "reclaim_workspace e paths name i = discard (reclaim_steps e paths name i)"

text \<open>A step of the first pending thread, and joining all of them.\<close>

definition run_reclaimer :: "env \<Rightarrow> unit managed" where
  "run_reclaimer e =
     bnd (gets (\<lambda>p. (project_dirs p, reclaimers p))) (\<lambda>(paths, pending).
       case pending of
         [] \<Rightarrow> ret ()
       | (name, i) # rest \<Rightarrow>
           bnd (modify (\<lambda>p. p\<lparr>reclaimers := rest\<rparr>))
             (\<lambda>_. on_machine (reclaim_workspace e paths name i)))"

definition wait_for_reclamation :: "env \<Rightarrow> unit managed" where
  "wait_for_reclamation e =
     bnd (gets (\<lambda>p. (project_dirs p, reclaimers p))) (\<lambda>(paths, pending).
     bnd (modify (\<lambda>p. p\<lparr>reclaimers := []\<rparr>)) (\<lambda>_.
     for_each pending (\<lambda>(name, i). on_machine (reclaim_workspace e paths name i))))"

section \<open>Queries\<close>

definition workspace_records :: "env \<Rightarrow> (project, 'e, workspace_record list) prog" where
  "workspace_records e = on_machine (load_all_workspace_records e)"

definition active_workspace_names :: "project \<Rightarrow> string list" where
  "active_workspace_names p = map fst (engines p)"

definition find_active_workspace_engine :: "string \<Rightarrow> project \<Rightarrow> engine option" where
  "find_active_workspace_engine name p = map_of (engines p) name"

text \<open>A call on the engine of one Workspace: it runs with that engine and leaves it updated.\<close>

definition on_workspace :: "string \<Rightarrow> engine \<Rightarrow> (machine, 'e, 'a) prog \<Rightarrow> (project, 'e, 'a) prog" where
  "on_workspace name en m p =
     (case m ((mach p)\<lparr>eng := en\<rparr>) of
        (r, t) \<Rightarrow> (r, p\<lparr>mach := t, engines := omap_set name (eng t) (engines p)\<rparr>))"

end
