(* ===== verification/Lifecycle_Specs.thy ===== *)
theory Lifecycle_Specs
  imports Workspace_Lifecycle Frames Crash
begin

text \<open>
  What creating, removing and reclaiming a Workspace does to the database, step by step: the record
  moves on only while the row of the operation is in the journal, so an operation that a process exit
  interrupts is always found again, and the other Workspaces are left alone.
\<close>

section \<open>Assertions over the database\<close>

abbreviation db :: "(store \<Rightarrow> bool) \<Rightarrow> machine \<Rightarrow> bool" where
  "db A \<equiv> holds False (\<lambda>h st en. A st)"

lemma db_host:
  assumes "keeps only_host m" "\<And>st. A st \<Longrightarrow> X st" "\<And>st. A st \<Longrightarrow> Y st"
  shows "hoare (db A) m (\<lambda>_. db A) (\<lambda>_. db X) (\<lambda>_. db Y)"
proof (rule hoareI)
  fix s assume "db A s"
  moreover have "store (snd (m s)) = store s" using assms(1) by (simp add: keeps_def only_host_def)
  ultimately show "outcome (\<lambda>_. db A) (\<lambda>_. db X) (\<lambda>_. db Y) (m s)"
    using assms(2,3) by (cases "m s"; cases "fst (m s)") (auto simp: holds_def)
qed

lemma db_execute:
  assumes "\<And>st. A st \<Longrightarrow> B (f st)" "\<And>st. A st \<Longrightarrow> X st"
  shows "hoare (db A) (execute_statement_without_rows e f) (\<lambda>_. db B) (\<lambda>_. db X) H"
  by (rule weaken_error [OF execute_spec]) (auto intro: assms)

lemma db_discard_execute:
  assumes "\<And>st. A st \<Longrightarrow> B st \<and> B (f st)"
  shows "hoare (db A) (discard (execute_statement_without_rows e f)) (\<lambda>_. db B) X H"
  unfolding discard_def
  by (rule hoare_bnd [OF hoare_attempt hoare_ret]) (auto intro!: db_execute dest: assms)

lemma db_failpoint: "(\<And>st. A st \<Longrightarrow> Y st) \<Longrightarrow> hoare (db A) (trigger_failpoint e name c) (\<lambda>_. db A) X (\<lambda>_. db Y)"
  by (rule hoare_conseq [OF failpoint_spec [where C = "\<lambda>h st en. A st"]]) (auto simp: holds_def)

lemma db_boundary:
  assumes "hoare (db A) undo (\<lambda>_. db X) (\<lambda>_. db X) (\<lambda>_. db Y)"
  shows "hoare (db A) (lifecycle_boundary e boundary what undo) (\<lambda>_. db A) (\<lambda>_. db X) (\<lambda>_. db Y)"
  unfolding lifecycle_boundary_def Let_def
  by (auto intro!: hoare_bnd [OF assms] hoare_fail hoare_ret)

lemma db_then_undo:
  assumes "hoare (db A) m Q (\<lambda>_. db B) (\<lambda>_. db Y)" "hoare (db B) undo (\<lambda>_. db X) (\<lambda>_. db X) (\<lambda>_. db Y)"
  shows "hoare (db A) (then_undo m undo) Q (\<lambda>_. db X) (\<lambda>_. db Y)"
  unfolding then_undo_def
  by (rule hoare_catch [OF assms(1)]) (rule hoare_bnd [OF assms(2)], rule hoare_fail)

lemma db_weaken: "hoare (db A) m Q X H \<Longrightarrow> (\<And>st. B st \<Longrightarrow> A st) \<Longrightarrow> hoare (db B) m Q X H"
  by (erule hoare_pre) (auto simp: holds_def)

section \<open>The rows of one Workspace\<close>

definition rows_of :: "string \<Rightarrow> store \<Rightarrow> workspace_row list" where
  "rows_of name st = filter (\<lambda>row. wr_name row = name) (workspace_rows st)"

definition others_same :: "string \<Rightarrow> store \<Rightarrow> store \<Rightarrow> bool" where
  "others_same name st st' \<longleftrightarrow>
     project_row st' = project_row st \<and> tombstone_rows st' = tombstone_rows st \<and>
     diagnostic_rows st' = diagnostic_rows st \<and>
     filter (\<lambda>row. wr_name row \<noteq> name) (workspace_rows st') = filter (\<lambda>row. wr_name row \<noteq> name) (workspace_rows st)"

text \<open>A sound journal to start from, the journal and the rows of the Workspace now, and everything else as in \<open>st0\<close>.\<close>

definition standing :: "string \<Rightarrow> store \<Rightarrow> operation_row list \<Rightarrow> workspace_row list \<Rightarrow> store \<Rightarrow> bool" where
  "standing name st0 J R st \<longleftrightarrow>
     journal_ok st0 \<and> others_same name st0 st \<and> operation_rows st = J \<and> rows_of name st = R"

abbreviation journal_with :: "store \<Rightarrow> recovery_operation \<Rightarrow> operation_row list" where
  "journal_with st0 op \<equiv> operation_rows st0 @ [write_operation (operation_seq st0 + 1) op]"

definition in_state :: "workspace_state \<Rightarrow> workspace_row \<Rightarrow> workspace_row" where
  "in_state state row = row\<lparr>wr_state := workspace_state_name state\<rparr>"

lemma standing_start: "journal_ok st0 \<Longrightarrow> standing name st0 (operation_rows st0) (rows_of name st0) st0"
  by (simp add: standing_def others_same_def)

lemma standing_begin: "journal_ok st0 \<Longrightarrow> standing name st0 (journal_with st0 op) (rows_of name st0) (sql_begin_recovery_operation op st0)"
  by (simp add: standing_def others_same_def rows_of_def sql_begin_recovery_operation_def)

lemma standing_save:
  "standing name st0 J R st \<Longrightarrow> ws_name r = name \<Longrightarrow>
   standing name st0 J [write_workspace_record r] (sql_save_workspace_record r st)"
  by (auto simp: standing_def others_same_def rows_of_def sql_save_workspace_record_def write_workspace_record_def)

lemma state_rows:
  "sql_set_workspace_state name state st =
     st\<lparr>workspace_rows := map (\<lambda>row. if wr_name row = name then in_state state row else row) (workspace_rows st)\<rparr>"
  by (simp add: sql_set_workspace_state_def in_state_def)

lemma in_state_name [simp]: "wr_name (in_state state row) = wr_name row"
  by (simp add: in_state_def)

lemma filter_others_map:
  "(\<And>row. wr_name (f row) = wr_name row) \<Longrightarrow>
   filter (\<lambda>row. wr_name row \<noteq> name) (map (\<lambda>row. if wr_name row = name then f row else row) rows) =
   filter (\<lambda>row. wr_name row \<noteq> name) rows"
  by (induction rows) auto

lemma rows_of_state: "rows_of name (sql_set_workspace_state name state st) = map (in_state state) (rows_of name st)"
proof -
  have "filter (\<lambda>row. wr_name row = name) (map (\<lambda>row. if wr_name row = name then in_state state row else row) rows) =
      map (in_state state) (filter (\<lambda>row. wr_name row = name) rows)" for rows
    by (induction rows) auto
  then show ?thesis by (simp add: rows_of_def state_rows)
qed

lemma standing_state:
  "standing name st0 J R st \<Longrightarrow> standing name st0 J (map (in_state state) R) (sql_set_workspace_state name state st)"
proof -
  assume "standing name st0 J R st"
  then show ?thesis
    using filter_others_map [of "in_state state" name "workspace_rows st"] rows_of_state [of name state st]
    by (simp add: standing_def others_same_def) (simp add: state_rows)
qed

lemma standing_abandon:
  assumes "standing name st0 (journal_with st0 op) R st"
  shows "standing name st0 (operation_rows st0) R (sql_abandon_recovery_operation (operation_seq st0 + 1) st)"
proof -
  have "operation_rows (sql_abandon_recovery_operation (operation_seq st0 + 1) st) = operation_rows st0"
    by (rule abandon_last) (use assms in \<open>simp_all add: standing_def\<close>)
  with assms show ?thesis
    by (simp add: standing_def others_same_def rows_of_def sql_abandon_recovery_operation_def)
qed
section \<open>Creation\<close>

text \<open>
  How far a creation has come: the journal without and with its row, and the rows of the Workspace
  before, while it is being created, after that was given up, and when it is active.
\<close>

definition unborn :: "string \<Rightarrow> store \<Rightarrow> workspace_record \<Rightarrow> operation_row list \<Rightarrow> store \<Rightarrow> bool" where
  "unborn name st0 c J st \<longleftrightarrow>
     standing name st0 J (rows_of name st0) st \<or> standing name st0 J [write_workspace_record c] st \<or>
     standing name st0 J [in_state Reclaimed (write_workspace_record c)] st"

definition creation_given_up ::
  "string \<Rightarrow> store \<Rightarrow> recovery_operation \<Rightarrow> workspace_record \<Rightarrow> workspace_record \<Rightarrow> store \<Rightarrow> bool"
where
  "creation_given_up name st0 op c a st \<longleftrightarrow>
     unborn name st0 c (operation_rows st0) st \<or> unborn name st0 c (journal_with st0 op) st \<or>
     standing name st0 (journal_with st0 op) [write_workspace_record a] st"

definition creation_cut ::
  "string \<Rightarrow> store \<Rightarrow> recovery_operation \<Rightarrow> workspace_record \<Rightarrow> workspace_record \<Rightarrow> store \<Rightarrow> bool"
where
  "creation_cut name st0 op c a st \<longleftrightarrow>
     (\<exists>R \<in> {rows_of name st0, [write_workspace_record c], [write_workspace_record a]}.
        standing name st0 (journal_with st0 op) R st)"

text \<open>What every step of a creation shares.\<close>

locale creation =
  fixes e :: env and paths :: project_paths and name branch :: string and st0 :: store
    and op :: recovery_operation and c a :: workspace_record and i :: int
  assumes named: "ws_name c = name" "ws_name a = name" "ws_branch a = branch"
    and row: "i = operation_seq st0 + 1"
begin

abbreviation "at_start \<equiv> standing name st0 (journal_with st0 op) (rows_of name st0)"
abbreviation "at_creating \<equiv> standing name st0 (journal_with st0 op) [write_workspace_record c]"
abbreviation "at_active \<equiv> standing name st0 (journal_with st0 op) [write_workspace_record a]"
abbreviation "given_up \<equiv> creation_given_up name st0 op c a"
abbreviation "cut_short \<equiv> creation_cut name st0 op c a"

lemma outcomes [intro]:
  "at_start st \<Longrightarrow> given_up st" "at_creating st \<Longrightarrow> given_up st" "at_active st \<Longrightarrow> given_up st"
  "at_start st \<Longrightarrow> cut_short st" "at_creating st \<Longrightarrow> cut_short st" "at_active st \<Longrightarrow> cut_short st"
  by (simp_all add: creation_given_up_def creation_cut_def unborn_def)

lemma abandoned:
  "standing name st0 (journal_with st0 op) R st \<Longrightarrow>
   standing name st0 (operation_rows st0) R (sql_abandon_recovery_operation i st)"
  unfolding row by (rule standing_abandon)

lemma row_forgotten_spec: "hoare (db at_start) (discard (abandon_recovery_operation e i)) (\<lambda>_. db given_up) X H"
  unfolding abandon_recovery_operation_def
  by (rule db_discard_execute) (auto simp: creation_given_up_def unborn_def intro: abandoned)

lemma settle_spec: "hoare (db at_creating) (settle_as_reclaimed e name i) (\<lambda>_. db given_up) X H"
proof -
  let ?S = "\<lambda>st. at_creating st \<or> standing name st0 (journal_with st0 op) [in_state Reclaimed (write_workspace_record c)] st"
  have "hoare (db at_creating) (discard (set_workspace_state e name Reclaimed)) (\<lambda>_. db ?S) X H"
    unfolding set_workspace_state_def
    by (rule db_discard_execute) (auto dest: standing_state [where state = Reclaimed])
  moreover have "hoare (db ?S) (discard (abandon_recovery_operation e i)) (\<lambda>_. db given_up) X H"
    unfolding abandon_recovery_operation_def
    by (rule db_discard_execute) (auto simp: creation_given_up_def unborn_def intro: abandoned)
  ultimately show ?thesis unfolding settle_as_reclaimed_def by (intro hoare_bnd)
qed

lemma remove_tree_spec: "hoare (db at_creating) (remove_upper_tree upper) (\<lambda>_. db at_creating) (\<lambda>_. db given_up) (\<lambda>_. db cut_short)"
  unfolding remove_upper_tree_def by (rule db_host) (auto intro!: hosts.keeps_intros hosting)

lemma undo_spec: "hoare (db at_creating) (undo_creation e paths name branch i) (\<lambda>_. db given_up) (\<lambda>_. db given_up) (\<lambda>_. db cut_short)"
proof -
  have "hoare (db at_creating) (discard (rollback_linked_worktree_creation e r b w st)) (\<lambda>_. db at_creating) (\<lambda>_. db given_up) (\<lambda>_. db cut_short)"
    for r b w st
    unfolding discard_def by (rule db_host) (auto intro!: hosts.keeps_intros hosting)
  then show ?thesis unfolding undo_creation_def by (rule hoare_bnd [OF _ hoare_bnd [OF remove_tree_spec settle_spec]])
qed

lemma save_spec:
  assumes "ws_name r = name" "\<And>st. A st \<Longrightarrow> \<exists>R. standing name st0 (journal_with st0 op) R st"
  shows "hoare (db A) (save_workspace_record e r)
    (\<lambda>_. db (standing name st0 (journal_with st0 op) [write_workspace_record r])) (\<lambda>_. db A) H"
  unfolding save_workspace_record_def by (rule db_execute) (use assms standing_save in blast)+

lemma record_spec: "hoare (db at_start) (record_creation e c ctxt i) (\<lambda>_. db at_creating) (\<lambda>_. db given_up) (\<lambda>_. db cut_short)"
  unfolding record_creation_def
  by (intro hoare_bnd [OF db_failpoint] hoare_bnd [OF db_boundary [OF row_forgotten_spec]]
      hoare_bnd [OF db_then_undo [OF save_spec [OF named(1)] row_forgotten_spec]] db_failpoint) auto

lemma storage_spec: "hoare (db at_creating) (create_storage e paths name ctxt i) (\<lambda>_. db at_creating) (\<lambda>_. db given_up) (\<lambda>_. db cut_short)"
proof -
  have rest: "hoare (db at_creating) m (\<lambda>_. db at_creating) (\<lambda>_. db given_up) (\<lambda>_. db cut_short)" if "keeps only_host m" for m :: "unit control"
    using that by (rule db_host) auto
  show ?thesis
    unfolding create_storage_def Let_def
    by (intro hoare_bnd [OF db_boundary [OF settle_spec]] hoare_bnd [OF rest] db_failpoint hosts.keeps_intros hosting) auto
qed

lemma register_spec: "hoare (db at_creating) (register_workspace e paths name branch ctxt i) (\<lambda>_. db at_creating) (\<lambda>_. db given_up) (\<lambda>_. db cut_short)"
proof -
  have register: "hoare (db at_creating) (register_linked_worktree e r b w st seed) (\<lambda>_. db at_creating) (\<lambda>_. db at_creating) (\<lambda>_. db cut_short)"
    for r b w st seed
    by (rule db_host [OF register_hosts]) auto
  have undo: "hoare (db at_creating) (bnd (remove_upper_tree upper) (\<lambda>_. bnd (settle_as_reclaimed e name i) (\<lambda>_. fail message)))
      Q (\<lambda>_. db given_up) (\<lambda>_. db cut_short)" for message upper and Q :: "string \<Rightarrow> _"
    by (intro hoare_bnd [OF remove_tree_spec] hoare_bnd [OF settle_spec] hoare_fail)
  have "hoare (db at_creating) (catch (register_linked_worktree e r b w st seed)
      (\<lambda>message. bnd (remove_upper_tree upper) (\<lambda>_. bnd (settle_as_reclaimed e name i) (\<lambda>_. fail message))))
      (\<lambda>_. db at_creating) (\<lambda>_. db given_up) (\<lambda>_. db cut_short)" for r b w st seed upper
    by (rule hoare_catch [OF register undo])
  then show ?thesis
    unfolding register_workspace_def
    by (intro hoare_bnd [OF hoare_gets, where R = "\<lambda>_. db at_creating"] hoare_bnd [OF _ hoare_bnd [OF db_failpoint hoare_ret]]) auto
qed

lemma pointer_spec:
  "hoare (db at_creating) (write_git_pointer e paths name branch text ctxt i) (\<lambda>_. db at_creating) (\<lambda>_. db given_up) (\<lambda>_. db cut_short)"
proof -
  have writes: "hoare (db at_creating) (write_file_durably e p text) (\<lambda>_. db at_creating) (\<lambda>_. db at_creating) (\<lambda>_. db cut_short)" for p
    by (rule db_host [OF write_file_durably_hosts]) auto
  show ?thesis
    unfolding write_git_pointer_def Let_def
    by (intro hoare_bnd [OF db_boundary [OF undo_spec]] hoare_bnd [OF db_then_undo [OF writes undo_spec]] db_failpoint) auto
qed

text \<open>The record becomes active; then the row of the operation goes.\<close>

abbreviation "born \<equiv> standing name st0 (operation_rows st0) [write_workspace_record a]"

lemma activate_spec: "hoare (db at_creating) (activate_workspace e paths a ctxt i) (\<lambda>_. db born) (\<lambda>_. db given_up) (\<lambda>_. db cut_short)"
proof -
  have last: "hoare (db at_active) (abandon_recovery_operation e i) (\<lambda>_. db born) (\<lambda>_. db given_up) H" for H
    unfolding abandon_recovery_operation_def by (rule db_execute) (auto intro: abandoned)
  have save: "hoare (db at_creating) (save_workspace_record e a) (\<lambda>_. db at_active) (\<lambda>_. db at_creating) H" for H
    by (rule save_spec [OF named(2)]) blast
  show ?thesis
    unfolding activate_workspace_def Let_def named
    by (rule hoare_bnd [OF db_boundary [OF undo_spec] hoare_bnd [OF db_then_undo [OF save undo_spec]
          hoare_bnd [OF db_failpoint last]]]) auto
qed

lemma steps_spec:
  "hoare (db at_start)
    (bnd (record_creation e c ctxt i) (\<lambda>_.
     bnd (create_storage e paths name ctxt i) (\<lambda>_.
     bnd (register_workspace e paths name branch ctxt i) (\<lambda>git_file.
     bnd (write_git_pointer e paths name branch git_file ctxt i) (\<lambda>_.
     bnd (activate_workspace e paths a ctxt i) (\<lambda>_. ret (a, ctxt)))))))
    (\<lambda>r s. r = (a, ctxt) \<and> db born s) (\<lambda>_. db given_up) (\<lambda>_. db cut_short)"
  by (intro hoare_bnd [OF record_spec] hoare_bnd [OF storage_spec] hoare_bnd [OF register_spec]
      hoare_bnd [OF pointer_spec] hoare_bnd [OF activate_spec] hoare_ret) simp

end

text \<open>The records the code writes.\<close>

definition active_record :: "env \<Rightarrow> string \<Rightarrow> string \<Rightarrow> int \<Rightarrow> workspace_record" where
  "active_record e name branch now =
     (new_workspace_record name branch now)\<lparr>ws_state := Active, ws_create_us := elapsed e ''create''\<rparr>"

abbreviation creation_row :: "string \<Rightarrow> string \<Rightarrow> recovery_operation" where
  "creation_row name branch \<equiv> lifecycle_operation ''workspace_create'' name branch"

interpretation code_creation:
  creation e paths name branch st0 "creation_row name branch" "new_workspace_record name branch now"
    "active_record e name branch now" "operation_seq st0 + 1"
  for e paths name branch st0 now
  by unfold_locales (simp_all add: new_workspace_record_def active_record_def)

definition creation_error :: "env \<Rightarrow> string \<Rightarrow> string \<Rightarrow> store \<Rightarrow> store \<Rightarrow> bool" where
  "creation_error e name branch st st' \<longleftrightarrow>
     st' = st \<or>
     (\<exists>now. creation_given_up name st (creation_row name branch) (new_workspace_record name branch now) (active_record e name branch now) st')"

definition creation_exit :: "env \<Rightarrow> string \<Rightarrow> string \<Rightarrow> store \<Rightarrow> store \<Rightarrow> bool" where
  "creation_exit e name branch st st' \<longleftrightarrow>
     (\<exists>now. creation_cut name st (creation_row name branch) (new_workspace_record name branch now) (active_record e name branch now) st')"

definition creation_done :: "env \<Rightarrow> string \<Rightarrow> string \<Rightarrow> store \<Rightarrow> workspace_record \<Rightarrow> store \<Rightarrow> bool" where
  "creation_done e name branch st r st' \<longleftrightarrow>
     (\<exists>now. r = active_record e name branch now) \<and> standing name st (operation_rows st) [write_workspace_record r] st'"

lemma create_durably_spec:
  assumes ok: "journal_ok st0"
  shows "hoare (db (\<lambda>st. st = st0)) (create_durably e paths name branch)
    (\<lambda>r. db (creation_done e name branch st0 (fst r))) (\<lambda>_. db (creation_error e name branch st0))
    (\<lambda>_. db (creation_exit e name branch st0))"
proof -
  let ?Q = "\<lambda>r. db (creation_done e name branch st0 (fst r))" and ?X = "\<lambda>_. db (creation_error e name branch st0)"
    and ?Y = "\<lambda>_. db (creation_exit e name branch st0)"
  let ?S = "standing name st0 (journal_with st0 (creation_row name branch)) (rows_of name st0)"
  have steps: "hoare (db ?S)
      (bnd (gets clock) (\<lambda>now.
        let r = new_workspace_record name branch now;
            r' = r\<lparr>ws_state := Active, ws_create_us := elapsed e ''create''\<rparr> in
        bnd (record_creation e r ctxt (operation_seq st0 + 1)) (\<lambda>_.
        bnd (create_storage e paths name ctxt (operation_seq st0 + 1)) (\<lambda>_.
        bnd (register_workspace e paths name branch ctxt (operation_seq st0 + 1)) (\<lambda>git_file.
        bnd (write_git_pointer e paths name branch git_file ctxt (operation_seq st0 + 1)) (\<lambda>_.
        bnd (activate_workspace e paths r' ctxt (operation_seq st0 + 1)) (\<lambda>_.
        ret (r', ctxt)))))))) ?Q ?X ?Y" for ctxt
  proof (rule hoare_gets_bnd)
    fix now
    show "hoare (\<lambda>s. db ?S s \<and> now = clock s) (let r = new_workspace_record name branch now;
            r' = r\<lparr>ws_state := Active, ws_create_us := elapsed e ''create''\<rparr> in
        bnd (record_creation e r ctxt (operation_seq st0 + 1)) (\<lambda>_.
        bnd (create_storage e paths name ctxt (operation_seq st0 + 1)) (\<lambda>_.
        bnd (register_workspace e paths name branch ctxt (operation_seq st0 + 1)) (\<lambda>git_file.
        bnd (write_git_pointer e paths name branch git_file ctxt (operation_seq st0 + 1)) (\<lambda>_.
        bnd (activate_workspace e paths r' ctxt (operation_seq st0 + 1)) (\<lambda>_.
        ret (r', ctxt))))))) ?Q ?X ?Y"
      unfolding Let_def active_record_def [symmetric]
      by (rule hoare_conseq [OF code_creation.steps_spec])
        (auto simp: creation_done_def creation_error_def creation_exit_def holds_def)
  qed
  have begin_row: "hoare (db (\<lambda>st. st = st0)) (begin_recovery_operation e (creation_row name branch))
      (\<lambda>i s. i = operation_seq st0 + 1 \<and> db ?S s) ?X ?Y"
    by (rule hoare_conseq [OF begin_spec [where C = "\<lambda>h st en. st = st0" and D = "\<lambda>i h st en. i = operation_seq st0 + 1 \<and> ?S st"]])
      (auto simp: holds_def creation_error_def intro: standing_begin [OF ok])
  have boundary: "hoare (db (\<lambda>st. st = st0)) (lifecycle_boundary e b w (ret ())) (\<lambda>_. db (\<lambda>st. st = st0)) ?X ?Y" for b w
    by (rule db_boundary) (auto intro!: hoare_ret simp: holds_def creation_error_def)
  show ?thesis
    unfolding create_durably_def
    by (rule hoare_bnd [OF boundary hoare_bnd [OF begin_row]]) (rule hoare_assume, simp only: Let_def [of "_ @ _"] steps [unfolded Let_def] Let_def)
qed


section \<open>Removal\<close>

abbreviation removal_row :: "string \<Rightarrow> recovery_operation" where
  "removal_row name \<equiv> lifecycle_operation ''workspace_remove'' name []"

definition removed_record :: "env \<Rightarrow> int \<Rightarrow> workspace_record \<Rightarrow> workspace_record" where
  "removed_record e now r =
     r\<lparr>ws_state := Removed, ws_removed_at := now, ws_logical_remove_us := elapsed e ''remove'', ws_reclaim_us := -1\<rparr>"

definition removal_error :: "string \<Rightarrow> store \<Rightarrow> store \<Rightarrow> bool" where
  "removal_error name st st' \<longleftrightarrow>
     standing name st (operation_rows st) (rows_of name st) st' \<or>
     standing name st (journal_with st (removal_row name)) (rows_of name st) st'"

definition removal_exit :: "env \<Rightarrow> workspace_record \<Rightarrow> store \<Rightarrow> store \<Rightarrow> bool" where
  "removal_exit e r st st' \<longleftrightarrow>
     (let J = journal_with st (removal_row (ws_name r)) in
      standing (ws_name r) st J (rows_of (ws_name r) st) st' \<or>
      (\<exists>now. standing (ws_name r) st J [write_workspace_record (removed_record e now r)] st'))"

definition removal_done :: "env \<Rightarrow> workspace_record \<Rightarrow> store \<Rightarrow> workspace_record \<times> int \<Rightarrow> store \<Rightarrow> bool" where
  "removal_done e r st result st' \<longleftrightarrow>
     (case result of (r', i) \<Rightarrow>
        i = operation_seq st + 1 \<and> (\<exists>now. r' = removed_record e now r) \<and>
        standing (ws_name r) st (journal_with st (removal_row (ws_name r))) [write_workspace_record r'] st')"

lemma remove_durably_spec:
  assumes ok: "journal_ok st0"
  shows "hoare (db (\<lambda>st. st = st0)) (remove_durably e running r)
    (\<lambda>a. db (removal_done e r st0 a)) (\<lambda>_. db (removal_error (ws_name r) st0)) (\<lambda>_. db (removal_exit e r st0))"
proof -
  let ?i = "operation_seq st0 + 1" and ?J = "journal_with st0 (removal_row (ws_name r))"
  let ?A = "standing (ws_name r) st0 ?J (rows_of (ws_name r) st0)"
  let ?B = "\<lambda>now. standing (ws_name r) st0 ?J [write_workspace_record (removed_record e now r)]"
  let ?Q = "\<lambda>a. db (removal_done e r st0 a)" and ?X = "removal_error (ws_name r) st0" and ?Y = "removal_exit e r st0"
  have same: "?X st0" by (simp add: removal_error_def standing_start [OF ok])
  have abandon: "hoare (db ?A) (discard (abandon_recovery_operation e ?i)) (\<lambda>_. db ?X) E H" for E H
    unfolding abandon_recovery_operation_def
    by (rule db_discard_execute) (auto simp: removal_error_def intro: standing_abandon)
  have save: "hoare (db ?A) (save_workspace_record e (removed_record e now r)) (\<lambda>_. db (?B now)) (\<lambda>_. db ?A) H" for now H
    unfolding save_workspace_record_def
    by (rule db_execute) (auto simp: removed_record_def intro!: standing_save)
  have commit: "hoare (db ?A) (bnd (lifecycle_boundary e b w (discard (abandon_recovery_operation e ?i))) (\<lambda>_.
      bnd (then_undo (save_workspace_record e (removed_record e now r)) (discard (abandon_recovery_operation e ?i))) (\<lambda>_.
      bnd (trigger_failpoint e f ctxt) (\<lambda>_. ret (removed_record e now r, ?i))))) ?Q (\<lambda>_. db ?X) (\<lambda>_. db ?Y)" for b w f ctxt now
    by (rule hoare_bnd [OF db_boundary [OF abandon] hoare_bnd [OF db_then_undo [OF save abandon]
          hoare_bnd [OF db_failpoint hoare_ret]]])
      (auto simp: holds_def removal_done_def removal_exit_def Let_def)
  have clock: "hoare (db ?A) (bnd (gets clock) (\<lambda>now. bnd (lifecycle_boundary e b w (discard (abandon_recovery_operation e ?i))) (\<lambda>_.
      bnd (then_undo (save_workspace_record e (removed_record e now r)) (discard (abandon_recovery_operation e ?i))) (\<lambda>_.
      bnd (trigger_failpoint e f ctxt) (\<lambda>_. ret (removed_record e now r, ?i)))))) ?Q (\<lambda>_. db ?X) (\<lambda>_. db ?Y)" for b w f ctxt
    by (rule hoare_gets_bnd) (rule hoare_pre [OF commit], simp)
  have refuse: "hoare (db ?A) (bnd (discard (abandon_recovery_operation e ?i)) (\<lambda>_. fail m)) ?Q (\<lambda>_. db ?X) (\<lambda>_. db ?Y)" for m
    by (rule hoare_bnd [OF abandon]) (rule hoare_fail)
  have start: "hoare (db (\<lambda>st. st = st0)) (begin_recovery_operation e (removal_row (ws_name r)))
      (\<lambda>i s. i = ?i \<and> db ?A s) (\<lambda>_. db ?X) (\<lambda>_. db ?Y)"
    by (rule hoare_conseq [OF begin_spec [where F = False and C = "\<lambda>h st en. st = st0" and D = "\<lambda>i h st en. i = ?i \<and> ?A st"]])
      (simp_all add: holds_def same standing_begin [OF ok])
  have boundary: "hoare (db (\<lambda>st. st = st0)) (lifecycle_boundary e b w (ret ())) (\<lambda>_. db (\<lambda>st. st = st0)) (\<lambda>_. db ?X) (\<lambda>_. db ?Y)" for b w
    by (rule db_boundary, rule hoare_ret) (simp add: holds_def same)
  have after: "hoare (db ?A) (trigger_failpoint e f ctxt) (\<lambda>_. db ?A) (\<lambda>_. db ?X) (\<lambda>_. db ?Y)" for f ctxt
    by (rule db_failpoint) (simp add: removal_exit_def Let_def)
  show ?thesis
    unfolding remove_durably_def Let_def removed_record_def [symmetric]
    by (rule hoare_bnd [OF boundary hoare_bnd [OF start]], rule hoare_assume, simp only:)
      (rule hoare_bnd [OF after hoare_if [OF refuse clock]])
qed

text \<open>C28: Removing a Workspace writes the removed record while the row of the operation is in the journal and
  leaves the row to the reclamation; a removal that fails leaves the record as it was, and no other Workspace changes.\<close>
theorem removal_is_journaled:
  assumes "journal_ok (store s)"
  shows "case remove_durably e running r s of
      (Ok a, t) \<Rightarrow> removal_done e r (store s) a (store t)
    | (Err _, t) \<Rightarrow> removal_error (ws_name r) (store s) (store t)
    | (Halt _, t) \<Rightarrow> removal_exit e r (store s) (store t)"
  using hoareD [OF remove_durably_spec [OF assms, of e running r], of s]
  by (auto simp: holds_def outcome_def split: prod.splits res.splits)

section \<open>Reclamation\<close>

definition tombstones_of_others :: "string \<Rightarrow> store \<Rightarrow> (string \<times> string) list" where
  "tombstones_of_others name st = filter (\<lambda>(w, p). w \<noteq> name) (tombstone_rows st)"

text \<open>Everything but the rows and the tombstones of the Workspace.\<close>

definition rest_same :: "string \<Rightarrow> store \<Rightarrow> store \<Rightarrow> bool" where
  "rest_same name st st' \<longleftrightarrow>
     project_row st' = project_row st \<and> diagnostic_rows st' = diagnostic_rows st \<and>
     tombstones_of_others name st' = tombstones_of_others name st \<and>
     filter (\<lambda>row. wr_name row \<noteq> name) (workspace_rows st') = filter (\<lambda>row. wr_name row \<noteq> name) (workspace_rows st)"

definition reclaimed :: "string \<Rightarrow> store \<Rightarrow> bool" where
  "reclaimed name st \<longleftrightarrow>
     sql_load_workspace_tombstones name st = [] \<and>
     list_all (\<lambda>row. wr_state row = workspace_state_name Reclaimed) (rows_of name st)"

lemma rest_same_clear: "rest_same name st0 st \<Longrightarrow> rest_same name st0 (sql_clear_tombstones name st)"
  by (auto simp: rest_same_def sql_clear_tombstones_def tombstones_of_others_def)

lemma rest_same_rows:
  "rest_same name st0 st \<Longrightarrow> rest_same name st0 (sql_set_workspace_reclamation_duration name us st)"
  "rest_same name st0 st \<Longrightarrow> rest_same name st0 (sql_set_workspace_state name state st)"
  unfolding rest_same_def tombstones_of_others_def
    state_rows sql_set_workspace_reclamation_duration_def
  by (simp_all add: filter_others_map)

lemma same_operations:
  "operation_rows (sql_set_workspace_state name state st) = operation_rows st"
  "operation_rows (sql_set_workspace_reclamation_duration name us st) = operation_rows st"
  "operation_rows (sql_clear_tombstones name st) = operation_rows st"
  "sql_load_workspace_tombstones w (sql_set_workspace_reclamation_duration name us st) = sql_load_workspace_tombstones w st"
  "sql_load_workspace_tombstones w (sql_set_workspace_state name state st) = sql_load_workspace_tombstones w st"
  "sql_load_workspace_tombstones name (sql_clear_tombstones name st) = []"
  by (auto simp: sql_set_workspace_state_def sql_set_workspace_reclamation_duration_def sql_clear_tombstones_def
      sql_load_workspace_tombstones_def filter_empty_conv)

lemma reclaimed_state:
  assumes "sql_load_workspace_tombstones name st = []"
  shows "reclaimed name (sql_set_workspace_state name Reclaimed st)"
  using assms by (simp add: reclaimed_def list_all_iff same_operations rows_of_state in_state_def)

lemma sync_hosts: "keeps only_host (sync_directory p)"
  by (rule keeps_weaken [OF sync_directory_reads only_read_host])

lemma reclaim_steps_spec:
  "hoare (db (\<lambda>st. st = st0)) (reclaim_steps e paths name i)
    (\<lambda>_. db (\<lambda>st. rest_same name st0 st \<and> reclaimed name st \<and>
       operation_rows st = filter (\<lambda>row. or_id row \<noteq> i) (operation_rows st0)))
    (\<lambda>_. db (\<lambda>st. rest_same name st0 st \<and> operation_rows st = operation_rows st0))
    (\<lambda>_. db (\<lambda>st. rest_same name st0 st \<and> operation_rows st = operation_rows st0))"
proof -
  let ?A = "\<lambda>st. rest_same name st0 st \<and> operation_rows st = operation_rows st0"
  let ?B = "\<lambda>st. ?A st \<and> sql_load_workspace_tombstones name st = []"
  let ?C = "\<lambda>st. ?A st \<and> reclaimed name st"
  let ?X = "\<lambda>_. db ?A" and ?Y = "\<lambda>_. db ?A"
  have git: "hoare (db ?A) (unregister_linked_worktree e r w) (\<lambda>_. db ?A) ?X ?Y" for r w
    by (rule db_host [OF unregister_hosts])
  have point: "hoare (db P) (trigger_failpoint e f ctxt) (\<lambda>_. db P) ?X ?Y" if "\<And>st. P st \<Longrightarrow> ?A st" for P f ctxt
    using that by (rule db_failpoint)
  have clear: "hoare (db ?A) (clear_tombstones e name) (\<lambda>_. db ?B) ?X ?Y"
    unfolding clear_tombstones_def
    by (rule db_execute) (simp_all add: rest_same_clear same_operations)
  have duration: "hoare (db ?B) (set_workspace_reclamation_duration e name us) (\<lambda>_. db ?B) ?X ?Y" for us
    unfolding set_workspace_reclamation_duration_def
    by (rule db_execute) (simp_all add: rest_same_rows same_operations)
  have state: "hoare (db ?B) (set_workspace_state e name Reclaimed) (\<lambda>_. db ?C) ?X ?Y"
    unfolding set_workspace_state_def
    by (rule db_execute) (simp_all add: rest_same_rows reclaimed_state same_operations)
  have forget: "hoare (db ?C) (abandon_recovery_operation e i)
      (\<lambda>_. db (\<lambda>st. rest_same name st0 st \<and> reclaimed name st \<and> operation_rows st = filter (\<lambda>row. or_id row \<noteq> i) (operation_rows st0))) ?X ?Y"
    unfolding abandon_recovery_operation_def
    by (rule db_execute)
      (auto simp: sql_abandon_recovery_operation_def rest_same_def reclaimed_def rows_of_def tombstones_of_others_def sql_load_workspace_tombstones_def)
  have quiet: "hoare (db ?A) (catch m (\<lambda>_. fail [])) (\<lambda>_. db ?A) ?X ?Y" if "keeps only_host m" for m :: "unit io"
    by (rule db_host [OF hosts.keeps_catch [OF that hosts.keeps_fail]])
  have pointA: "hoare (db ?A) (trigger_failpoint e f ctxt) (\<lambda>_. db ?A) ?X ?Y"
    and pointB: "hoare (db ?B) (trigger_failpoint e f ctxt) (\<lambda>_. db ?B) ?X ?Y"
    and pointC: "hoare (db ?C) (trigger_failpoint e f ctxt) (\<lambda>_. db ?C) ?X ?Y" for f ctxt
    by (rule point, simp)+
  have start: "hoare (db ?A) (reclaim_steps e paths name i)
    (\<lambda>_. db (\<lambda>st. rest_same name st0 st \<and> reclaimed name st \<and>
       operation_rows st = filter (\<lambda>row. or_id row \<noteq> i) (operation_rows st0))) ?X ?Y"
    unfolding reclaim_steps_def Let_def
    by (rule hoare_bnd, rule pointA,
        rule hoare_bnd, rule git,
        rule hoare_bnd, rule pointA,
        rule hoare_bnd, rule pointA,
        rule hoare_bnd, rule quiet, rule fs_remove_all_hosts,
        rule hoare_bnd, rule quiet, rule sync_hosts,
        rule hoare_bnd, rule pointA,
        rule hoare_bnd, rule pointA,
        rule hoare_bnd, rule clear,
        rule hoare_bnd, rule pointB,
        rule hoare_bnd, rule duration,
        rule hoare_bnd, rule pointB,
        rule hoare_bnd, rule state,
        rule hoare_bnd, rule pointC, rule forget)
  show ?thesis by (rule hoare_pre [OF start]) (simp add: holds_def rest_same_def)
qed


end
