(* ===== verification/Fuse_Adapter.thy ===== *)
theory Fuse_Adapter
  imports Workspace_Lifecycle
begin

text \<open>
  The FUSE callbacks (\<^verbatim>\<open>fuse/fuse_adapter.cpp\<close>), for the API of libfuse 3: a path of the mounted
  view names the view root, a Workspace or an entry of one, and each callback finds the engine and
  passes the call on. A callback that returns data returns \<open>Inl\<close> of the negative error number or
  \<open>Inr\<close> of what it stores for the kernel. libfuse and the kernel are outside the repository: whether
  the kernel has looked a path up, the file handle it gives for a directory, and the event loop are
  parameters.
\<close>

unbundle bit_operations_syntax

section \<open>Paths of the view\<close>

record view_path =
  view_workspace :: string
  view_relative :: string
  view_is_root :: bool

definition parse_project_view_path :: "string \<Rightarrow> view_path" where
  "parse_project_view_path path =
     (let normalized = normalize_relative path in
      if normalized = [] then \<lparr>view_workspace = [], view_relative = [], view_is_root = True\<rparr>
      else case find_char (CHR ''/'') normalized of
        None \<Rightarrow> \<lparr>view_workspace = normalized, view_relative = [], view_is_root = False\<rparr>
      | Some slash \<Rightarrow>
          \<lparr>view_workspace = take slash normalized, view_relative = drop (slash + 1) normalized,
           view_is_root = False\<rparr>)"

section \<open>State\<close>

text \<open>\<open>notices\<close> are the calls made to the kernel to drop what it cached.\<close>

record directory_snapshot =
  snapshot_entries :: "dir_entry list"
  first_read_pending :: bool

datatype kernel_notice = Path_Invalidated string | Entry_Invalidated "64 word" string

record adapter =
  served :: project
  open_directories :: "(nat \<times> directory_snapshot) list"
  next_directory :: nat
  mounted :: bool
  mounted_view_root :: path
  notices :: "kernel_notice list"

type_synonym ('e, 'a) callback = "(adapter, 'e, 'a) prog"

definition on_project :: "(project, 'e, 'a) prog \<Rightarrow> (adapter, 'e, 'a) prog" where
  "on_project m a = (case m (served a) of (r, p) \<Rightarrow> (r, a\<lparr>served := p\<rparr>))"

definition find_workspace_engine_for_view_path :: "view_path \<Rightarrow> adapter \<Rightarrow> engine option" where
  "find_workspace_engine_for_view_path view a =
     (if view_workspace view = [] then None
      else find_active_workspace_engine (view_workspace view) (served a))"

text \<open>A call on the engine of a view path; without an engine it is \<^verbatim>\<open>ENOENT\<close>.\<close>

definition on_view :: "view_path \<Rightarrow> 'a io \<Rightarrow> ('e, int + 'a) callback" where
  "on_view view m =
     bnd (gets (find_workspace_engine_for_view_path view)) (\<lambda>found.
       case found of
         None \<Rightarrow> ret (Inl (- ENOENT))
       | Some en \<Rightarrow>
           bnd (attempt (on_project (on_workspace (view_workspace view) en m))) (\<lambda>result.
             ret (case result of Inl code \<Rightarrow> Inl (- code) | Inr a \<Rightarrow> Inr a)))"

definition status_of :: "('e, int + 'a) callback \<Rightarrow> ('e, int) callback" where
  "status_of m = bnd m (\<lambda>result. ret (case result of Inl code \<Rightarrow> code | Inr _ \<Rightarrow> 0))"

section \<open>Attributes\<close>

record view_stat =
  vs_ino :: "64 word"
  vs_kind :: kind
  vs_perm :: perm
  vs_size :: nat
  vs_nlink :: nat
  vs_uid :: nat
  vs_gid :: nat
  vs_mtime :: int
  vs_atime :: int
  vs_ctime :: int

definition kProjectViewRootInode :: "64 word" where "kProjectViewRootInode = 1"

definition populate_stat_from_attributes :: "env \<Rightarrow> attr \<Rightarrow> view_stat" where
  "populate_stat_from_attributes e a =
     \<lparr>vs_ino = at_ino a, vs_kind = at_kind a, vs_perm = at_perm a, vs_size = at_size a,
      vs_nlink = at_nlink a, vs_uid = daemon_uid e, vs_gid = daemon_gid e, vs_mtime = at_mtime a,
      vs_atime = at_atime a, vs_ctime = at_ctime a\<rparr>"

definition tri_getattr :: "env \<Rightarrow> string \<Rightarrow> ('e, int + view_stat) callback" where
  "tri_getattr e path =
     (let view = parse_project_view_path path in
      if view_is_root view
      then ret (Inr \<lparr>vs_ino = kProjectViewRootInode, vs_kind = DIR, vs_perm = 0x1ED, vs_size = 0,
                     vs_nlink = 2, vs_uid = daemon_uid e, vs_gid = daemon_gid e, vs_mtime = 0,
                     vs_atime = 0, vs_ctime = 0\<rparr>)
      else
        bnd (on_view view (getattr e (view_relative view))) (\<lambda>result.
        ret (map_sum id (populate_stat_from_attributes e) result)))"

section \<open>Directories\<close>

definition resolve_view_path_inode :: "env \<Rightarrow> view_path \<Rightarrow> ('e, 64 word) callback" where
  "resolve_view_path_inode e view =
     (if view_is_root view then ret kProjectViewRootInode
      else
        bnd (on_view view (getattr e (view_relative view))) (\<lambda>result.
        ret (case result of Inl _ \<Rightarrow> kProjectViewRootInode | Inr a \<Rightarrow> at_ino a)))"

definition parent_view_path_inode :: "env \<Rightarrow> view_path \<Rightarrow> ('e, 64 word) callback" where
  "parent_view_path_inode e view =
     (if view_is_root view \<or> view_relative view = [] then ret kProjectViewRootInode
      else resolve_view_path_inode e (view\<lparr>view_relative := parent_of (view_relative view)\<rparr>))"

fun workspace_entries :: "env \<Rightarrow> string list \<Rightarrow> ('e, dir_entry list) callback" where
  "workspace_entries e [] = ret []"
| "workspace_entries e (name # names) =
     bnd (resolve_view_path_inode e
            \<lparr>view_workspace = name, view_relative = [], view_is_root = False\<rparr>) (\<lambda>i.
     bnd (workspace_entries e names) (\<lambda>rest.
     ret (\<lparr>de_name = name, de_ino = i, de_kind = DIR\<rparr> # rest)))"

definition build_directory_snapshot :: "env \<Rightarrow> string \<Rightarrow> ('e, int + directory_snapshot) callback" where
  "build_directory_snapshot e path =
     (let view = parse_project_view_path path in
      bnd (resolve_view_path_inode e view) (\<lambda>self.
      bnd (parent_view_path_inode e view) (\<lambda>parent.
      let dots = [\<lparr>de_name = ''.'', de_ino = self, de_kind = DIR\<rparr>,
                  \<lparr>de_name = ''..'', de_ino = parent, de_kind = DIR\<rparr>];
          snapshot = (\<lambda>entries. \<lparr>snapshot_entries = dots @ entries, first_read_pending = True\<rparr>)
      in
        if view_is_root view
        then
          bnd (gets (\<lambda>a. active_workspace_names (served a))) (\<lambda>names.
          bnd (workspace_entries e names) (\<lambda>entries. ret (Inr (snapshot entries))))
        else
          bnd (on_view view (readdir (view_relative view)))
            (\<lambda>result. ret (map_sum id snapshot result)))))"

definition set_directory :: "nat \<Rightarrow> directory_snapshot \<Rightarrow> ('e, unit) callback" where
  "set_directory fh snapshot =
     modify (\<lambda>a. a\<lparr>open_directories := omap_set fh snapshot (open_directories a)\<rparr>)"

text \<open>The file handle of an open directory is the address of its snapshot, never 0.\<close>

definition tri_opendir :: "env \<Rightarrow> string \<Rightarrow> ('e, int + nat) callback" where
  "tri_opendir e path =
     bnd (build_directory_snapshot e path) (\<lambda>built.
       case built of
         Inl code \<Rightarrow> ret (Inl code)
       | Inr snapshot \<Rightarrow>
           bnd (gets next_directory) (\<lambda>fh.
           bnd (modify (\<lambda>a. a\<lparr>next_directory := fh + 1\<rparr>)) (\<lambda>_.
           bnd (set_directory fh snapshot) (\<lambda>_. ret (Inr fh)))))"

text \<open>The kernel's buffer takes \<open>capacity\<close> more entries; each comes with the offset of the next.\<close>

definition fill_entries :: "directory_snapshot \<Rightarrow> nat \<Rightarrow> nat \<Rightarrow> (dir_entry \<times> nat) list" where
  "fill_entries snapshot offset capacity =
     take capacity
       (map (\<lambda>i. (snapshot_entries snapshot ! i, i + 1)) [offset..<length (snapshot_entries snapshot)])"

definition tri_readdir ::
  "env \<Rightarrow> string \<Rightarrow> nat \<Rightarrow> int \<Rightarrow> nat \<Rightarrow> ('e, int + (dir_entry \<times> nat) list) callback"
where
  "tri_readdir e path capacity offset fh =
     (if fh = 0 then ret (Inl (- EBADF))
      else if offset < 0 then ret (Inl (- EINVAL))
      else
        bnd (gets (\<lambda>a. map_of (open_directories a) fh)) (\<lambda>found.
          case found of
            None \<Rightarrow> halt ''dangling directory handle''
          | Some snapshot \<Rightarrow>
              bnd (if offset = 0 \<and> \<not> first_read_pending snapshot
                   then build_directory_snapshot e path
                   else ret (Inr snapshot)) (\<lambda>current.
                case current of
                  Inl code \<Rightarrow> ret (Inl code)
                | Inr fresh \<Rightarrow>
                    bnd (set_directory fh (fresh\<lparr>first_read_pending := False\<rparr>)) (\<lambda>_.
                    ret (Inr (fill_entries fresh (nat offset) capacity))))))"

definition tri_releasedir :: "nat \<Rightarrow> ('e, int) callback" where
  "tri_releasedir fh =
     (if fh = 0 then ret 0
      else
        bnd (modify (\<lambda>a. a\<lparr>open_directories := erase_key fh (open_directories a)\<rparr>)) (\<lambda>_. ret 0))"

section \<open>Files\<close>

text \<open>\<^verbatim>\<open>strncpy\<close> into a buffer of \<open>n\<close> bytes that always ends with a NUL byte.\<close>

definition tri_readlink :: "string \<Rightarrow> nat \<Rightarrow> ('e, int + string) callback" where
  "tri_readlink path n =
     (let view = parse_project_view_path path in
      bnd (on_view view (readlink (view_relative view))) (\<lambda>result.
      ret (map_sum id (\<lambda>target. take (n - 1) target) result)))"

definition handle_of :: "64 word \<Rightarrow> int" where
  "handle_of fh = sint (ucast fh :: 32 word)"

definition tri_open :: "env \<Rightarrow> string \<Rightarrow> 32 word \<Rightarrow> ('e, int + 64 word) callback" where
  "tri_open e path flags =
     (let view = parse_project_view_path path in
      bnd (on_view view (open_handle (view_relative view) flags e)) (\<lambda>result.
      ret (map_sum id word_of_int result)))"

definition tri_create :: "env \<Rightarrow> string \<Rightarrow> 32 word \<Rightarrow> ('e, int + 64 word) callback" where
  "tri_create e path mode =
     (let view = parse_project_view_path path in
      bnd (on_view view (bnd (create e (view_relative view) (ucast mode))
                           (\<lambda>_. open_handle (view_relative view) O_RDWR e))) (\<lambda>result.
      ret (map_sum id word_of_int result)))"

definition tri_read ::
  "string \<Rightarrow> nat \<Rightarrow> 64 word \<Rightarrow> 64 word \<Rightarrow> ('e, int + string) callback"
where
  "tri_read path n offset fh =
     on_view (parse_project_view_path path) (read_handle (handle_of fh) n offset)"

definition tri_write ::
  "env \<Rightarrow> string \<Rightarrow> string \<Rightarrow> 64 word \<Rightarrow> 64 word \<Rightarrow> ('e, int + nat) callback"
where
  "tri_write e path buffer offset fh =
     on_view (parse_project_view_path path) (write_handle e (handle_of fh) buffer offset)"

definition tri_release :: "string \<Rightarrow> 64 word \<Rightarrow> ('e, int) callback" where
  "tri_release path fh =
     bnd (on_view (parse_project_view_path path) (close_handle (handle_of fh))) (\<lambda>_. ret 0)"

section \<open>Changes\<close>

definition tri_mkdir :: "env \<Rightarrow> string \<Rightarrow> 32 word \<Rightarrow> ('e, int) callback" where
  "tri_mkdir e path mode =
     (let view = parse_project_view_path path in
      status_of (on_view view (mkdir e (view_relative view) (ucast mode))))"

definition tri_unlink :: "env \<Rightarrow> string \<Rightarrow> ('e, int) callback" where
  "tri_unlink e path =
     (let view = parse_project_view_path path in
      status_of (on_view view (unlink e (view_relative view))))"

definition tri_rmdir :: "env \<Rightarrow> string \<Rightarrow> ('e, int) callback" where
  "tri_rmdir e path =
     (let view = parse_project_view_path path in
      status_of (on_view view (rmdir e (view_relative view))))"

definition tri_rename :: "env \<Rightarrow> string \<Rightarrow> string \<Rightarrow> 32 word \<Rightarrow> ('e, int) callback" where
  "tri_rename e from_path to_path flags =
     (if flags \<noteq> 0 then ret (- ENOTSUP)
      else
        let from_view = parse_project_view_path from_path;
            to_view = parse_project_view_path to_path
        in
          bnd (gets (find_workspace_engine_for_view_path from_view)) (\<lambda>found.
          if found = None then ret (- ENOENT)
          else if view_workspace from_view \<noteq> view_workspace to_view then ret (- EXDEV)
          else status_of (on_view from_view (rename e (view_relative from_view) (view_relative to_view)))))"

definition tri_symlink :: "env \<Rightarrow> string \<Rightarrow> string \<Rightarrow> ('e, int) callback" where
  "tri_symlink e target link_path =
     (let view = parse_project_view_path link_path in
      status_of (on_view view (symlink e target (view_relative view))))"

definition tri_chmod :: "env \<Rightarrow> string \<Rightarrow> 32 word \<Rightarrow> ('e, int) callback" where
  "tri_chmod e path mode =
     (let view = parse_project_view_path path in
      status_of (on_view view (chmod e (view_relative view) (ucast mode))))"

definition tri_chown :: "env \<Rightarrow> nat \<Rightarrow> nat \<Rightarrow> ('e, int) callback" where
  "tri_chown e new_uid new_gid = ret (if new_uid = daemon_uid e \<and> new_gid = daemon_gid e then 0 else - ENOTSUP)"

definition tri_truncate :: "env \<Rightarrow> string \<Rightarrow> 64 word \<Rightarrow> ('e, int) callback" where
  "tri_truncate e path new_size =
     (let view = parse_project_view_path path in
      status_of (on_view view (Workspace_Engine.truncate e (view_relative view) new_size)))"

definition tri_utimens :: "env \<Rightarrow> string \<Rightarrow> int \<Rightarrow> int \<Rightarrow> ('e, int) callback" where
  "tri_utimens e path new_atime new_mtime =
     (let view = parse_project_view_path path in
      status_of (on_view view (utimens e (view_relative view) new_atime new_mtime)))"

definition tri_mknod :: "env \<Rightarrow> string \<Rightarrow> 32 word \<Rightarrow> ('e, int) callback" where
  "tri_mknod e path mode =
     (if mode AND 0xF000 \<noteq> 0x8000 then ret (- ENOTSUP)
      else
        let view = parse_project_view_path path in
        status_of (on_view view (create e (view_relative view) (ucast mode))))"

text \<open>Hard links, extended attributes and locks.\<close>

definition tri_unsupported :: "('e, int) callback" where
  "tri_unsupported = ret (- ENOTSUP)"

definition tri_fsync :: "string \<Rightarrow> 64 word option \<Rightarrow> ('e, int) callback" where
  "tri_fsync path info =
     (case info of
        None \<Rightarrow> ret (- EBADF)
      | Some fh \<Rightarrow> status_of (on_view (parse_project_view_path path) (fsync_handle (handle_of fh))))"

definition tri_flush :: "64 word option \<Rightarrow> ('e, int) callback" where
  "tri_flush info = ret (if info = None then - EBADF else 0)"

definition tri_fsyncdir :: "string \<Rightarrow> ('e, int) callback" where
  "tri_fsyncdir path =
     (let view = parse_project_view_path path in
      status_of (on_view view (fsync_path (view_relative view) True)))"

section \<open>The mount\<close>

definition tri_init :: "('e, unit) callback" where
  "tri_init = modify (\<lambda>a. a\<lparr>mounted := True\<rparr>)"

definition tri_destroy :: "('e, unit) callback" where
  "tri_destroy = modify (\<lambda>a. a\<lparr>mounted := False\<rparr>)"

text \<open>\<^verbatim>\<open>name_to_handle_at\<close> gives the type of the handle and its bytes as words, or fails.\<close>

record fuse_kernel =
  looked_up :: "string \<Rightarrow> bool"
  name_to_handle :: "path \<Rightarrow> (nat \<times> 32 word list) option"

definition kernel_node_id_for_view_directory :: "fuse_kernel \<Rightarrow> path \<Rightarrow> 64 word option" where
  "kernel_node_id_for_view_directory k p =
     (case name_to_handle k p of
        None \<Rightarrow> None
      | Some (handle_type, words) \<Rightarrow>
          if (handle_type \<noteq> 0x81 \<and> handle_type \<noteq> 0x82) \<or> length words < 2 then None
          else Some (push_bit 32 (ucast (words ! 0)) OR ucast (words ! 1)))"

definition fuse_invalidate_path :: "fuse_kernel \<Rightarrow> string \<Rightarrow> ('e, int) callback" where
  "fuse_invalidate_path k path =
     (if looked_up k path
      then bnd (modify (\<lambda>a. a\<lparr>notices := notices a @ [Path_Invalidated path]\<rparr>)) (\<lambda>_. ret 0)
      else ret (- ENOENT))"

definition forget_kernel_cache_for_workspace_path ::
  "fuse_kernel \<Rightarrow> string \<Rightarrow> string \<Rightarrow> bool \<Rightarrow> ('e, unit) callback"
where
  "forget_kernel_cache_for_workspace_path k ws rel_path name_unlinked =
     bnd (gets mounted) (\<lambda>is_mounted.
     if \<not> is_mounted then ret ()
     else
       let rel = normalize_relative rel_path;
           view_path = ''/'' @ ws @ (if rel = [] then [] else ''/'' @ rel);
           slash = the (rfind_char (CHR ''/'') view_path);
           parent = (if slash = 0 then ''/'' else take slash view_path);
           name = drop (slash + 1) view_path
       in
         bnd (fuse_invalidate_path k view_path) (\<lambda>_.
         bnd (fuse_invalidate_path k parent) (\<lambda>status.
         if status \<noteq> 0 \<or> \<not> name_unlinked then ret ()
         else
           bnd (gets mounted_view_root) (\<lambda>root.
             case kernel_node_id_for_view_directory k (fs_join root (drop 1 parent)) of
               None \<Rightarrow> ret ()
             | Some node \<Rightarrow>
                 modify (\<lambda>a. a\<lparr>notices := notices a @ [Entry_Invalidated node name]\<rparr>)))))"

text \<open>
  The event loop \<open>fuse_main\<close> gets the command line and runs until the view is unmounted; the two
  checks of \<^verbatim>\<open>/dev/fuse\<close> come first.
\<close>

definition mount_arguments :: "path \<Rightarrow> bool \<Rightarrow> string list" where
  "mount_arguments mount_point debug =
     [''tribios'', path_string mount_point, ''-f'', ''-o'', ''default_permissions'', ''-o'',
      ''max_idle_threads=10''] @ (if debug then [''-d''] else [])"

definition run_project_mount ::
  "env \<Rightarrow> (string list \<Rightarrow> ('e, int) callback) \<Rightarrow> path \<Rightarrow> bool \<Rightarrow> (string, unit) callback"
where
  "run_project_mount e fuse_main mount_point debug =
     bnd (catch (on_project (on_machine kernel_call))
            (\<lambda>_. fail (''/dev/fuse is unavailable: load the Linux fuse module or expose the device to '' @
                       ''this environment''))) (\<lambda>_.
     bnd (catch (on_project (on_machine kernel_call))
            (\<lambda>_. fail (''the invoking user cannot read and write /dev/fuse: check the device '' @
                       ''permissions and the user's fuse group membership''))) (\<lambda>_.
     bnd (modify (\<lambda>a. a\<lparr>mounted_view_root := mount_point\<rparr>)) (\<lambda>_.
     bnd (catch (on_project (on_machine (fs_create_directories e mount_point)))
            (\<lambda>code. fail (''cannot prepare mount point '' @ path_string mount_point @ '': '' @
                          error_text e code))) (\<lambda>_.
     bnd (attempt (fuse_main (mount_arguments mount_point debug))) (\<lambda>ended.
       case ended of
         Inr status \<Rightarrow>
           if status \<noteq> 0 then fail (''FUSE event loop exited with status '' @ show_int status)
           else ret ()
       | Inl _ \<Rightarrow> ret ())))))"

text \<open>A busy mount is tried again every 100 ms for 5 seconds; \<open>waited\<close> is the time already spent.\<close>

function unmount_attempt :: "env \<Rightarrow> path \<Rightarrow> nat \<Rightarrow> unit control" where
  "unmount_attempt e mount_point waited =
     bnd (run_process_and_capture_output e [''fusermount3'', ''-u'', path_string mount_point])
       (\<lambda>(code, output).
     if code = 0 then ret ()
     else if \<not> contains output ''busy''
     then
       bnd (run_process_and_capture_output e [''umount'', path_string mount_point]) (\<lambda>(code', _).
       if code' = 0 then ret ()
       else fail (''cannot unmount '' @ path_string mount_point @ '': '' @ output))
     else if waited \<ge> 5000
     then fail (''the mount at '' @ path_string mount_point @
                '' is busy: stop tools whose working directory or open files are inside it, '' @
                ''then retry'')
     else unmount_attempt e mount_point (waited + 100))"
  by pat_completeness auto
termination by (relation "measure (\<lambda>(_, _, waited). 5000 - waited)") auto

declare unmount_attempt.simps [simp del]

definition unmount_project_view :: "env \<Rightarrow> path \<Rightarrow> unit control" where
  "unmount_project_view e mount_point = unmount_attempt e mount_point 0"

end
