(* ===== verification/Protocol.thy ===== *)
theory Protocol
  imports Utf8
begin

text \<open>
  The messages of the control socket (\<^verbatim>\<open>daemon/protocol.cpp\<close>): fields separated by tabs, bytes
  that would end a field or a message written as a percent sign and two hexadecimal digits, and the
  loop that sends a message over a socket that takes it in pieces.
\<close>

section \<open>Encoding\<close>

text \<open>\<^verbatim>\<open>snprintf("%%%02X")\<close>: the two digits of a byte.\<close>

definition hex_digit :: "nat \<Rightarrow> char" where
  "hex_digit n = (if n < 10 then char_of (48 + n) else char_of (55 + n))"

definition must_escape :: "char \<Rightarrow> bool" where
  "must_escape c \<longleftrightarrow>
     c = CHR ''%'' \<or> c = CHR 0x09 \<or> c = CHR 0x0A \<or> c = CHR 0x0D \<or> (of_char c :: nat) < 0x20"

definition escape_byte :: "char \<Rightarrow> string" where
  "escape_byte c =
     (if must_escape c
      then [CHR ''%'', hex_digit (of_char c div 16), hex_digit (of_char c mod 16)]
      else [c])"

definition append_escaped :: "string \<Rightarrow> string \<Rightarrow> string" where
  "append_escaped out field = foldl (\<lambda>out c. out @ escape_byte c) out field"

fun append_fields :: "string \<Rightarrow> nat \<Rightarrow> string list \<Rightarrow> string" where
  "append_fields out i [] = out"
| "append_fields out i (f # fs) =
     append_fields (append_escaped (if i > 0 then out @ [CHR 0x09] else out) f) (Suc i) fs"

definition encode_message :: "string list \<Rightarrow> string" where
  "encode_message fields = append_fields [] 0 fields @ [CHR 0x0A]"

section \<open>Decoding\<close>

definition hex_value :: "char \<Rightarrow> int" where
  "hex_value c =
     (let b = int (of_char c) in
      if 48 \<le> b \<and> b \<le> 57 then b - 48
      else if 65 \<le> b \<and> b \<le> 70 then b - 65 + 10
      else if 97 \<le> b \<and> b \<le> 102 then b - 97 + 10
      else -1)"

text \<open>
  The loop over the line: the fields that are complete, the field that grows, and the rest of the
  line. A percent sign without two digits behind it stands for itself.
\<close>

fun decode_from :: "string list \<Rightarrow> string \<Rightarrow> string \<Rightarrow> string list" where
  "decode_from fields field [] = fields @ [field]"
| "decode_from fields field (c # rest) =
     (if c = CHR 0x0A \<or> c = CHR 0x0D then fields @ [field]
      else if c = CHR 0x09 then decode_from (fields @ [field]) [] rest
      else
        case (c = CHR ''%'', rest) of
          (True, a # b # rest') \<Rightarrow>
            let high = hex_value a; low = hex_value b in
            if high \<ge> 0 \<and> low \<ge> 0
            then decode_from fields (field @ [char_of (nat (high * 16 + low))]) rest'
            else decode_from fields (field @ [c]) rest
        | _ \<Rightarrow> decode_from fields (field @ [c]) rest)"

definition decode_message :: "string \<Rightarrow> string list" where
  "decode_message line = decode_from [] [] line"

section \<open>Sending\<close>

text \<open>
  What \<^verbatim>\<open>send\<close> returns, call by call: the bytes it took, or an error. The loop is over when
  the message is empty or a call fails with anything but an interrupt; \<open>None\<close> is a script that ends
  while the loop still runs. The second result is what the peer received.
\<close>

datatype send_result = Sent nat | Interrupted | Send_failed

fun send_loop :: "send_result list \<Rightarrow> string \<Rightarrow> string \<Rightarrow> (bool \<times> string) option" where
  "send_loop script [] received = Some (True, received)"
| "send_loop [] (c # cs) received = None"
| "send_loop (r # script) (c # cs) received =
     (case r of
        Interrupted \<Rightarrow> send_loop script (c # cs) received
      | Send_failed \<Rightarrow> Some (False, received)
      | Sent n \<Rightarrow> send_loop script (drop n (c # cs)) (received @ take n (c # cs)))"

definition send_whole_message :: "send_result list \<Rightarrow> string \<Rightarrow> (bool \<times> string) option" where
  "send_whole_message script message = send_loop script message []"

section \<open>Facts\<close>

lemma high_nibble: "(of_char c :: nat) div 16 < 16"
  using byte_bound [of c] by (simp add: less_mult_imp_div_less)

lemma hex_value_digit: "n < 16 \<Longrightarrow> hex_value (hex_digit n) = int n"
  by (auto simp: hex_value_def hex_digit_def Let_def of_char_of)

lemma append_escaped_eq: "append_escaped out field = out @ concat (map escape_byte field)"
  by (induction field arbitrary: out) (simp_all add: append_escaped_def)

fun joined :: "string list \<Rightarrow> string" where
  "joined [] = []"
| "joined [f] = concat (map escape_byte f)"
| "joined (f # fs) = concat (map escape_byte f) @ CHR 0x09 # joined fs"

lemma append_fields_eq:
  "append_fields out i fs =
     out @ (if i > 0 then concat (map (\<lambda>f. CHR 0x09 # concat (map escape_byte f)) fs) else joined fs)"
proof (induction out i fs rule: append_fields.induct)
  case (2 out i f fs)
  have "joined (f # fs) = concat (map escape_byte f) @ concat (map (\<lambda>f. CHR 0x09 # concat (map escape_byte f)) fs)"
    by (induction fs arbitrary: f) auto
  with 2 show ?case by (simp add: append_escaped_eq)
qed simp

lemma encode_message_eq: "encode_message fs = joined fs @ [CHR 0x0A]"
  by (simp add: encode_message_def append_fields_eq)

lemma decode_escaped_byte: "decode_from fs f (escape_byte c @ rest) = decode_from fs (f @ [c]) rest"
proof (cases "must_escape c")
  case True
  have "hex_value (hex_digit (of_char c div 16)) = int (of_char c div 16)"
      "hex_value (hex_digit (of_char c mod 16)) = int (of_char c mod 16)"
    using high_nibble [of c] by (auto intro!: hex_value_digit)
  moreover have "nat (int (of_char c div 16) * 16 + int (of_char c mod 16)) = of_char c"
    by (simp add: nat_add_distrib nat_mult_distrib)
  ultimately show ?thesis using True by (simp add: escape_byte_def Let_def)
next
  case False
  then show ?thesis by (cases rest) (auto simp: escape_byte_def must_escape_def split: list.split)
qed

lemma decode_escaped: "decode_from fs f (concat (map escape_byte s) @ rest) = decode_from fs (f @ s) rest"
proof (induction s arbitrary: f)
  case (Cons c s)
  then show ?case using decode_escaped_byte [of fs f c "concat (map escape_byte s) @ rest"] by simp
qed simp

lemma decode_joined: "fs \<noteq> [] \<Longrightarrow> decode_from acc [] (joined fs @ CHR 0x0A # rest) = acc @ fs"
proof (induction fs arbitrary: acc rule: joined.induct)
  case (2 f)
  then show ?case using decode_escaped [of acc "[]" f "CHR 0x0A # rest"] by simp
next
  case (3 f g fs)
  then show ?case
    using decode_escaped [of acc "[]" f "CHR 0x09 # joined (g # fs) @ CHR 0x0A # rest"] by simp
qed simp

lemma decoded_message: "fields \<noteq> [] \<Longrightarrow> decode_message (encode_message fields @ rest) = fields"
  using decode_joined [of fields "[]" rest] by (simp add: decode_message_def encode_message_eq)

text \<open>C4: A message of at least one field decodes to the fields it was made of, whatever bytes they hold and
  whatever follows the line in the buffer.\<close>
theorem decode_encode_message:
  assumes "fields \<noteq> []"
  shows "decode_message (encode_message fields @ rest) = fields"
  using assms by (rule decoded_message)

theorem decode_encode_message_witness:
  "decode_message (encode_message [''fs.write'', [CHR 0x0A, CHR ''%'', CHR 0xFF], []] @ ''x'') =
     [''fs.write'', [CHR 0x0A, CHR ''%'', CHR 0xFF], []]"
  by (rule decode_encode_message) simp

lemma escaped_one_line: "CHR 0x0A \<notin> set (escape_byte c)"
proof -
  have d: "hex_digit n \<noteq> CHR 0x0A" if "n < 16" for n
  proof
    assume "hex_digit n = CHR 0x0A"
    then have "(of_char (hex_digit n) :: nat) = 10" by simp
    with that show False by (auto simp: hex_digit_def of_char_of split: if_splits)
  qed
  have "of_char c div 16 < (16 :: nat)" by (rule high_nibble)
  then show ?thesis
    using d [of "of_char c div 16"] d [of "of_char c mod 16"]
    by (auto simp: escape_byte_def must_escape_def)
qed

lemma encoded_line:
  "encode_message fields = butlast (encode_message fields) @ [CHR 0x0A]" "last (encode_message fields) = CHR 0x0A"
  "CHR 0x0A \<notin> set (butlast (encode_message fields))"
proof -
  show "encode_message fields = butlast (encode_message fields) @ [CHR 0x0A]" "last (encode_message fields) = CHR 0x0A"
    by (simp_all add: encode_message_eq)
  have "CHR 0x0A \<notin> set (joined fields)"
    using escaped_one_line by (induction fields rule: joined.induct) auto
  then show "CHR 0x0A \<notin> set (butlast (encode_message fields))" by (simp add: encode_message_eq)
qed

text \<open>C5: A message is one line: its only newline is its last byte, so a reader that stops at the first
  newline has all of it.\<close>
theorem encoded_message_is_one_line:
  "last (encode_message fields) = CHR 0x0A \<and> CHR 0x0A \<notin> set (butlast (encode_message fields))"
  using encoded_line [of fields] by simp

text \<open>The loop is over when a call fails, or when the calls have taken as many bytes as there are.\<close>

fun taken :: "send_result list \<Rightarrow> nat" where
  "taken [] = 0"
| "taken (Sent n # script) = n + taken script"
| "taken (r # script) = taken script"

lemma send_loop_received:
  "send_loop script message received = Some (b, got) \<Longrightarrow>
   \<exists>sent. got = received @ sent \<and> (if b then sent = message else strict_prefix sent message)"
proof (induction script message received rule: send_loop.induct)
  case (3 r script c cs received)
  show ?case
  proof (cases r)
    case (Sent n)
    with 3 obtain sent where s: "got = (received @ take n (c # cs)) @ sent"
        "if b then sent = drop n (c # cs) else strict_prefix sent (drop n (c # cs))"
      by auto
    moreover have "take n (c # cs) @ drop n (c # cs) = c # cs" by (rule append_take_drop_id)
    moreover have "strict_prefix sent rest \<Longrightarrow> strict_prefix (xs @ sent) (xs @ rest)" for rest xs :: string
      by (simp add: strict_prefix_def)
    ultimately have "if b then take n (c # cs) @ sent = c # cs else strict_prefix (take n (c # cs) @ sent) (c # cs)"
      by (metis (full_types))
    with s show ?thesis by (intro exI [of _ "take n (c # cs) @ sent"]) auto
  qed (use 3 in auto)
qed auto

lemma send_loop_ends: "length message \<le> taken script \<Longrightarrow> send_loop script message received \<noteq> None"
proof (induction script message received rule: send_loop.induct)
  case (3 r script c cs received)
  then show ?case by (cases r) auto
qed auto

text \<open>C6: What the peer receives is the whole message when the call reports success and a proper
  prefix of it when the call fails; the loop returns once the socket has taken as many bytes as
  the message has.\<close>
theorem send_whole_message_delivers:
  "case send_whole_message script message of
     None \<Rightarrow> taken script < length message
   | Some (sent, received) \<Rightarrow> if sent then received = message else strict_prefix received message"
proof (cases "send_whole_message script message")
  case None
  then show ?thesis
    using send_loop_ends [of message script "[]"] by (force simp: send_whole_message_def)
next
  case (Some result)
  then show ?thesis
    using send_loop_received [of script message "[]"]
    by (cases result) (auto simp: send_whole_message_def split: if_splits)
qed

end
