(* ===== verification/Control_Server.thy ===== *)
theory Control_Server
  imports Fuse_Adapter Protocol
begin

text \<open>
  The control interface (\<^verbatim>\<open>daemon/control_server.cpp\<close> and \<^verbatim>\<open>daemon/control_client.cpp\<close>): one request
  per connection, a list of fields answered by a list of fields. A request on a Workspace runs on
  its engine beside the mounted view, so each change is reported to the view, which has the kernel
  drop what it cached.
\<close>

section \<open>Replies\<close>

type_synonym reply = "string list"
type_synonym 'a served = "(adapter, string, 'a) prog"

definition ok_reply :: "reply \<Rightarrow> reply" where
  "ok_reply payload = ''OK'' # payload"

definition error_reply :: "string \<Rightarrow> reply" where
  "error_reply message = [''ERR'', message]"

definition errno_error_reply :: "env \<Rightarrow> errno \<Rightarrow> reply" where
  "errno_error_reply e code = [''ERR'', ''errno '' @ show_int code @ '' '' @ error_text e code]"

definition filesystem_status_reply :: "env \<Rightarrow> errno + unit \<Rightarrow> reply" where
  "filesystem_status_reply e status =
     (case status of Inl code \<Rightarrow> errno_error_reply e code | Inr _ \<Rightarrow> ok_reply [])"

fun show_octal :: "nat \<Rightarrow> string" where
  "show_octal n =
     (if n < 8 then [char_of (48 + n)] else show_octal (n div 8) @ [char_of (48 + n mod 8)])"

declare show_octal.simps [simp del]

definition format_file_mode :: "kind \<Rightarrow> perm \<Rightarrow> string" where
  "format_file_mode k mode =
     (case k of DIR \<Rightarrow> ''dir'' | LNK \<Rightarrow> ''symlink'' | _ \<Rightarrow> ''file'') @ '' '' @ show_octal (unat mode)"

definition request_argument :: "string list \<Rightarrow> nat \<Rightarrow> string" where
  "request_argument request index = (if index < length request then request ! index else [])"

section \<open>Requests on Workspaces\<close>

text \<open>The handler told about changes made beside the mount, when there is one.\<close>

type_synonym change_handler = "(string \<Rightarrow> string \<Rightarrow> bool \<Rightarrow> unit served) option"

definition report_change :: "change_handler \<Rightarrow> string \<Rightarrow> string \<Rightarrow> bool \<Rightarrow> unit served" where
  "report_change handler ws path name_unlinked =
     (case handler of None \<Rightarrow> ret () | Some report \<Rightarrow> report ws path name_unlinked)"

definition list_line :: "workspace_record \<Rightarrow> string" where
  "list_line r =
     ws_name r @ [CHR 0x09] @ workspace_state_name (ws_state r) @ [CHR 0x09] @ ws_branch r @ [CHR 0x09] @
     show_int (ws_create_us r) @ [CHR 0x09] @ show_int (ws_logical_remove_us r) @ [CHR 0x09] @
     show_int (ws_reclaim_us r)"

definition dispatch_workspace_request ::
  "env \<Rightarrow> change_handler \<Rightarrow> string \<Rightarrow> string list \<Rightarrow> reply served"
where
  "dispatch_workspace_request e handler verb request =
     (if verb = ''ws.create'' then
        bnd (attempt (on_project
               (create_workspace e (request_argument request 1) (request_argument request 2)))) (\<lambda>created.
          case created of
            Inl message \<Rightarrow> ret (error_reply message)
          | Inr c \<Rightarrow>
              bnd (report_change handler (created_name c) [] False) (\<lambda>_.
              ret (ok_reply [created_name c, created_branch c, show_int (created_us c),
                             path_string (created_path c)])))
      else if verb = ''ws.remove'' then
        bnd (attempt (on_project (remove_workspace e (request_argument request 1)))) (\<lambda>removed.
          case removed of
            Inl message \<Rightarrow> ret (error_reply message)
          | Inr r \<Rightarrow>
              bnd (report_change handler (removed_name r) [] True) (\<lambda>_.
              ret (ok_reply [removed_name r, show_int (removed_us r)])))
      else if verb = ''ws.list'' then
        bnd (on_project (workspace_records e)) (\<lambda>records. ret (ok_reply (map list_line records)))
      else if verb = ''ws.wait-reclaim'' then
        bnd (on_project (wait_for_reclamation e)) (\<lambda>_. ret (ok_reply []))
      else ret (error_reply (''unknown Workspace request: '' @ verb)))"

section \<open>Requests on files\<close>

text \<open>A call on the engine of a Workspace, its error number as a value.\<close>

definition engine_call :: "string \<Rightarrow> 'a io \<Rightarrow> (errno + 'a) served" where
  "engine_call ws m =
     bnd (gets (\<lambda>a. find_active_workspace_engine ws (served a))) (\<lambda>found.
       case found of
         None \<Rightarrow> ret (Inl ENOENT)
       | Some en \<Rightarrow> attempt (on_project (on_workspace ws en m)))"

definition reply_with :: "env \<Rightarrow> string \<Rightarrow> 'a io \<Rightarrow> ('a \<Rightarrow> reply) \<Rightarrow> reply served" where
  "reply_with e ws m payload =
     bnd (engine_call ws m) (\<lambda>result.
       ret (case result of Inl code \<Rightarrow> errno_error_reply e code | Inr a \<Rightarrow> ok_reply (payload a)))"

definition dispatch_filesystem_query ::
  "env \<Rightarrow> string \<Rightarrow> string \<Rightarrow> string \<Rightarrow> reply option served"
where
  "dispatch_filesystem_query e ws verb path =
     (let some = (\<lambda>m. bnd m (\<lambda>reply. ret (Some reply))) in
      if verb = ''stats.upper'' then
        some (reply_with e ws (upper_bytes e) (\<lambda>bytes. [show_nat (unat bytes)]))
      else if verb = ''fs.stat'' then
        some (reply_with e ws (getattr e path)
          (\<lambda>a. [format_file_mode (at_kind a) (at_perm a), show_nat (at_size a),
                if from_upper a then ''upper'' else ''base'', show_int (at_mtime a)]))
      else if verb = ''fs.ls'' then
        some (reply_with e ws (readdir path) (map de_name))
      else if verb = ''fs.read'' then
        some (reply_with e ws (bnd (getattr e path) (\<lambda>a. read_file e path (at_size a) 0)) (\<lambda>content. [content]))
      else if verb = ''fs.readlink'' then
        some (reply_with e ws (readlink path) (\<lambda>target. [target]))
      else ret None)"

definition write_request ::
  "env \<Rightarrow> string \<Rightarrow> string list \<Rightarrow> string \<Rightarrow> reply served"
where
  "write_request e ws request path =
     (let data = request_argument request 3;
          offset = strtoull 10 (request_argument request 4)
      in reply_with e ws
           (bnd (write_file e path data offset) (\<lambda>written.
            bnd (if offset = 0 then Workspace_Engine.truncate e path (word_of_nat written) else ret ()) (\<lambda>_.
            ret written)))
           (\<lambda>written. [show_nat written]))"

definition unsupported_verb :: "string \<Rightarrow> bool" where
  "unsupported_verb verb \<longleftrightarrow>
     verb = ''fs.hardlink'' \<or> verb = ''fs.setxattr'' \<or> verb = ''fs.getxattr'' \<or> verb = ''fs.lock'' \<or>
     verb = ''fs.mknod''"

definition dispatch_filesystem_mutation ::
  "env \<Rightarrow> string \<Rightarrow> string \<Rightarrow> string list \<Rightarrow> string \<Rightarrow> reply served"
where
  "dispatch_filesystem_mutation e ws verb request path =
     (let status = (\<lambda>m. bnd (engine_call ws m) (\<lambda>result. ret (filesystem_status_reply e result)));
          argument = request_argument request 3
      in
        if verb = ''fs.write'' then write_request e ws request path
        else if verb = ''fs.create'' then status (create e path 0x1A4)
        else if verb = ''fs.mkdir'' then status (mkdir e path 0x1ED)
        else if verb = ''fs.rm'' then status (unlink e path)
        else if verb = ''fs.rmdir'' then status (rmdir e path)
        else if verb = ''fs.mv'' then status (rename e path argument)
        else if verb = ''fs.symlink'' then status (symlink e path argument)
        else if verb = ''fs.chmod'' then status (chmod e path (ucast (strtoull 8 argument)))
        else if verb = ''fs.truncate'' then
          status (Workspace_Engine.truncate e path (strtoull 10 argument))
        else if verb = ''fs.utimens'' then
          status (utimens e path (strtoll 10 argument) (strtoll 10 (request_argument request 4)))
        else if verb = ''fs.fsync'' then status (fsync_path path False)
        else if verb = ''fs.fsyncdir'' then status (fsync_path path True)
        else if unsupported_verb verb then ret (errno_error_reply e ENOTSUP)
        else ret (error_reply (''unknown filesystem request: '' @ verb)))"

definition find_path_inode :: "env \<Rightarrow> string \<Rightarrow> string \<Rightarrow> 64 word option served" where
  "find_path_inode e ws path =
     bnd (engine_call ws (getattr e path)) (\<lambda>result.
       ret (case result of Inl _ \<Rightarrow> None | Inr a \<Rightarrow> Some (at_ino a)))"

definition report_filesystem_mutation ::
  "env \<Rightarrow> (string \<Rightarrow> string \<Rightarrow> bool \<Rightarrow> unit served) \<Rightarrow> string \<Rightarrow> string list \<Rightarrow>
   64 word option \<Rightarrow> 64 word option \<Rightarrow> unit served"
where
  "report_filesystem_mutation e report verb request before_of_path before_of_second_path =
     (let ws = request_argument request 1; path = request_argument request 2 in
      if verb = ''fs.rm'' \<or> verb = ''fs.rmdir'' then
        bnd (find_path_inode e ws path) (\<lambda>now. report ws path (now \<noteq> before_of_path))
      else if verb = ''fs.mv'' then
        let destination = request_argument request 3;
            renamed_onto_itself = (normalize_relative path = normalize_relative destination)
        in
          bnd (if renamed_onto_itself then ret False
               else bnd (find_path_inode e ws path) (\<lambda>now. ret (now \<noteq> before_of_path))) (\<lambda>unlinked.
          bnd (report ws path unlinked) (\<lambda>_.
          bnd (if renamed_onto_itself then ret False
               else bnd (find_path_inode e ws destination)
                      (\<lambda>now. ret (now \<noteq> before_of_second_path))) (\<lambda>replaced.
          report ws destination replaced)))
      else if verb = ''fs.symlink'' then report ws (request_argument request 3) False
      else report ws path False)"

definition dispatch_filesystem_request ::
  "env \<Rightarrow> change_handler \<Rightarrow> string \<Rightarrow> string list \<Rightarrow> reply served"
where
  "dispatch_filesystem_request e handler verb request =
     (let ws = request_argument request 1; path = request_argument request 2 in
      bnd (gets (\<lambda>a. find_active_workspace_engine ws (served a))) (\<lambda>found.
      if found = None then ret (error_reply (''no such active Workspace: '' @ ws))
      else
        bnd (dispatch_filesystem_query e ws verb path) (\<lambda>query_reply.
          case query_reply of
            Some answer \<Rightarrow> ret answer
          | None \<Rightarrow>
              let may_unlink_names =
                    (handler \<noteq> None \<and> (verb = ''fs.rm'' \<or> verb = ''fs.rmdir'' \<or> verb = ''fs.mv''))
              in
                bnd (if may_unlink_names then find_path_inode e ws path else ret None) (\<lambda>before1.
                bnd (if may_unlink_names \<and> verb = ''fs.mv''
                     then find_path_inode e ws (request_argument request 3) else ret None) (\<lambda>before2.
                bnd (dispatch_filesystem_mutation e ws verb request path) (\<lambda>answer.
                bnd (case handler of
                       None \<Rightarrow> ret ()
                     | Some report \<Rightarrow>
                         report_filesystem_mutation e report verb request before1 before2) (\<lambda>_.
                ret answer)))))))"

section \<open>The server\<close>

record server =
  front :: adapter
  running :: bool
  mount_active :: bool

record server_setup =
  external_change_handler :: change_handler
  shutdown_unmount :: "unit served option"

type_synonym 'a serving = "(server, string, 'a) prog"

definition on_adapter :: "'a served \<Rightarrow> 'a serving" where
  "on_adapter m v = (case m (front v) of (r, a) \<Rightarrow> (r, v\<lparr>front := a\<rparr>))"

definition info_reply :: "server \<Rightarrow> reply" where
  "info_reply v =
     (let r = opened_record (served (front v)) in
      ok_reply [pr_root r, pr_mount_point r, ''git'', show_int (pr_base_entry_count r),
                show_int (pr_base_bytes r), show_int (pr_base_capture_ms r),
                if mount_active v then ''mounted'' else ''unmounted''])"

definition dispatch_control_request :: "env \<Rightarrow> server_setup \<Rightarrow> string list \<Rightarrow> reply serving" where
  "dispatch_control_request e setup request =
     (case request of
        [] \<Rightarrow> ret (error_reply ''empty request'')
      | verb # _ \<Rightarrow>
          if verb = ''ping'' then ret (ok_reply [''pong''])
          else if verb = ''info'' then gets info_reply
          else if verb = ''shutdown'' then
            bnd (case shutdown_unmount setup of
                   None \<Rightarrow> ret (Inr ())
                 | Some unmount \<Rightarrow>
                     bnd (attempt (on_adapter unmount)) (\<lambda>unmounted.
                       case unmounted of
                         Inl message \<Rightarrow> ret (Inl message)
                       | Inr _ \<Rightarrow> bnd (modify (\<lambda>v. v\<lparr>mount_active := False\<rparr>)) (\<lambda>_. ret (Inr ())))) (\<lambda>unmounted.
              case unmounted of
                Inl message \<Rightarrow> ret (error_reply message)
              | Inr _ \<Rightarrow>
                  bnd (modify (\<lambda>v. v\<lparr>running := False\<rparr>)) (\<lambda>_. ret (ok_reply [''stopping''])))
          else if prefix ''ws.'' verb then
            on_adapter (dispatch_workspace_request e (external_change_handler setup) verb request)
          else if prefix ''fs.'' verb \<or> verb = ''stats.upper'' then
            on_adapter (dispatch_filesystem_request e (external_change_handler setup) verb request)
          else ret (error_reply (''unknown request: '' @ verb)))"

text \<open>
  One connection: the chunks the reads return until a newline has come or the client stops
  sending, and how the socket takes the reply. The server's reply goes to the client as far as the socket takes it.
\<close>

record connection =
  incoming :: "string list"
  outgoing :: "send_result list"

fun receive_request :: "string \<Rightarrow> string list \<Rightarrow> string" where
  "receive_request buffer [] = buffer"
| "receive_request buffer (chunk # chunks) =
     (if CHR 0x0A \<in> set buffer \<or> chunk = [] then buffer
      else receive_request (buffer @ chunk) chunks)"

definition serve_client :: "env \<Rightarrow> server_setup \<Rightarrow> connection \<Rightarrow> string serving" where
  "serve_client e setup c =
     bnd (dispatch_control_request e setup (decode_message (receive_request [] (incoming c)))) (\<lambda>answer.
     ret (case send_whole_message (outgoing c) (encode_message answer) of
            None \<Rightarrow> [] | Some (_, received) \<Rightarrow> received))"

text \<open>The accept loop takes the connections in turn while the server runs.\<close>

fun serve_clients :: "env \<Rightarrow> server_setup \<Rightarrow> connection list \<Rightarrow> string list serving" where
  "serve_clients e setup [] = ret []"
| "serve_clients e setup (c # cs) =
     bnd (gets running) (\<lambda>go.
     if \<not> go then ret []
     else
       bnd (serve_client e setup c) (\<lambda>received.
       bnd (serve_clients e setup cs) (\<lambda>rest.
       ret (received # rest))))"

definition kSunPathSize :: nat where "kSunPathSize = 108"

definition on_host_of_server :: "'a io \<Rightarrow> (server, errno, 'a) prog" where
  "on_host_of_server m v =
     (case on_project (on_machine m) (front v) of (r, a) \<Rightarrow> (r, v\<lparr>front := a\<rparr>))"

definition bind_socket :: "env \<Rightarrow> path \<Rightarrow> unit io" where
  "bind_socket e socket_path = new_entry e socket_path 0x1FF Special"

definition serve :: "env \<Rightarrow> server_setup \<Rightarrow> path \<Rightarrow> connection list \<Rightarrow> string list serving" where
  "serve e setup socket_path clients =
     bnd (attempt (on_host_of_server (sys_unlink socket_path))) (\<lambda>_.
     bnd (catch (on_host_of_server kernel_call) (\<lambda>_. fail ''cannot create control socket'')) (\<lambda>_.
     if length (path_string socket_path) \<ge> kSunPathSize then fail ''control socket path is too long''
     else
       bnd (catch (on_host_of_server (bind_socket e socket_path))
              (\<lambda>_. fail (''cannot bind control socket at '' @ path_string socket_path))) (\<lambda>_.
       bnd (catch (on_host_of_server kernel_call) (\<lambda>_. fail ''cannot listen on control socket'')) (\<lambda>_.
       serve_clients e setup clients))))"

definition stop :: "unit serving" where
  "stop = modify (\<lambda>v. v\<lparr>running := False\<rparr>)"

definition remove_socket :: "path \<Rightarrow> unit serving" where
  "remove_socket socket_path = bnd (attempt (on_host_of_server (sys_unlink socket_path))) (\<lambda>_. ret ())"

section \<open>The client\<close>

text \<open>
  What the client's socket does: whether it is made and connects, how it takes the request, and the
  chunks it reads after the request until the server closes.
\<close>

record client_socket =
  socket_made :: bool
  socket_connects :: bool
  request_script :: "send_result list"
  reply_chunks :: "string list"

definition read_reply :: "string list \<Rightarrow> string" where
  "read_reply chunks = concat (takeWhile (\<lambda>chunk. chunk \<noteq> []) chunks)"

definition interpret_reply :: "string \<Rightarrow> string + string list" where
  "interpret_reply buffer =
     (if buffer = [] then Inl ''empty reply from daemon''
      else
        case decode_message buffer of
          [] \<Rightarrow> Inl ''malformed reply from daemon''
        | status # payload \<Rightarrow>
            if status = ''ERR''
            then Inl (case payload of [] \<Rightarrow> ''unknown daemon error'' | message # _ \<Rightarrow> message)
            else if status \<noteq> ''OK'' then Inl ''malformed reply from daemon''
            else Inr payload)"

definition control_request ::
  "client_socket \<Rightarrow> path \<Rightarrow> string list \<Rightarrow> string + string list"
where
  "control_request c socket_path request =
     (if \<not> socket_made c then Inl ''cannot create control socket''
      else if length (path_string socket_path) \<ge> kSunPathSize
      then Inl ''control socket path is too long''
      else if \<not> socket_connects c
      then Inl (''no daemon is listening at '' @ path_string socket_path)
      else
        case send_whole_message (request_script c) (encode_message request) of
          Some (True, _) \<Rightarrow> interpret_reply (read_reply (reply_chunks c))
        | _ \<Rightarrow> Inl ''the daemon closed the control connection before the request was sent'')"

end
