(* ===== verification/Control_Specs.thy ===== *)
theory Control_Specs
  imports Control_Server Program_Logic
begin

text \<open>
  The control interface from one end to the other: whatever pieces the sockets cut the bytes into, the
  daemon sees the fields the client sent and the client sees the answer of the daemon; every answer has
  one of two forms; and the server stops for one reason only.
\<close>

section \<open>Pieces of a message\<close>

definition cut_into :: "string \<Rightarrow> string list \<Rightarrow> bool" where
  "cut_into message chunks \<longleftrightarrow> list_all (\<lambda>chunk. chunk \<noteq> []) chunks \<and> concat chunks = message"

lemma receive_request_line:
  assumes "list_all (\<lambda>chunk. chunk \<noteq> []) chunks" "buffer @ concat chunks = line @ [CHR 0x0A]"
    and "CHR 0x0A \<notin> set line"
  shows "receive_request buffer chunks = line @ [CHR 0x0A]"
  using assms(1,2)
proof (induction chunks arbitrary: buffer)
  case (Cons chunk chunks)
  show ?case
  proof (cases "CHR 0x0A \<in> set buffer")
    case True
    have "chunk @ concat chunks \<noteq> []" using Cons.prems(1) by simp
    then obtain xs x where xs: "chunk @ concat chunks = xs @ [x]" by (metis rev_exhaust)
    with Cons.prems(2) have "buffer @ xs = line" by (simp flip: append_assoc)
    with True assms(3) show ?thesis by auto
  qed (use Cons in simp)
qed simp

lemma request_received:
  assumes "request \<noteq> []" "cut_into (encode_message request) chunks"
  shows "decode_message (receive_request [] chunks) = request"
proof -
  have "receive_request [] chunks = encode_message request"
    using encoded_line [of request] receive_request_line [of chunks "[]" "butlast (encode_message request)"] assms(2)
    by (simp add: cut_into_def)
  then show ?thesis using decoded_message [OF assms(1), of "[]"] by simp
qed

lemma read_reply_cut: "cut_into message chunks \<Longrightarrow> read_reply chunks = message"
  by (simp add: cut_into_def read_reply_def list_all_iff takeWhile_eq_all_conv [THEN iffD2])

section \<open>Answers\<close>

definition is_reply :: "reply \<Rightarrow> bool" where
  "is_reply answer \<longleftrightarrow>
     (case answer of
        [] \<Rightarrow> False
      | status # payload \<Rightarrow> status = ''OK'' \<or> status = ''ERR'' \<and> length payload = 1)"

lemma is_reply_simps [simp]:
  "is_reply (ok_reply payload)" "is_reply (error_reply message)" "is_reply (errno_error_reply e code)"
  "is_reply (filesystem_status_reply e status)"
  by (simp_all add: is_reply_def ok_reply_def error_reply_def errno_error_reply_def filesystem_status_reply_def
      split: sum.split)

text \<open>A program whose results all satisfy a condition.\<close>

definition gives :: "('a \<Rightarrow> bool) \<Rightarrow> ('s, 'e, 'a) prog \<Rightarrow> bool" where
  "gives P m \<longleftrightarrow> (\<forall>s a. fst (m s) = Ok a \<longrightarrow> P a)"

lemma givesD: "gives P m \<Longrightarrow> m s = (Ok a, t) \<Longrightarrow> P a"
  by (metis fst_conv gives_def)

lemma gives_ret: "P a \<Longrightarrow> gives P (ret a)"
  and gives_gets: "(\<And>s. P (g s)) \<Longrightarrow> gives P (gets g)"
  by (simp_all add: gives_def prog_defs)

lemma gives_bnd: "(\<And>a. gives P (k a)) \<Longrightarrow> gives P (bnd m k)"
  by (auto simp: gives_def run_bnd split: prod.splits res.splits)

lemma gives_bnd_value: "gives R m \<Longrightarrow> (\<And>a. R a \<Longrightarrow> gives P (k a)) \<Longrightarrow> gives P (bnd m k)"
  by (fastforce simp: gives_def run_bnd split: prod.splits res.splits)

lemma gives_if: "(c \<Longrightarrow> gives P m) \<Longrightarrow> (\<not> c \<Longrightarrow> gives P n) \<Longrightarrow> gives P (if c then m else n)"
  by simp

lemma gives_option: "(x = None \<Longrightarrow> gives P m) \<Longrightarrow> (\<And>a. x = Some a \<Longrightarrow> gives P (f a)) \<Longrightarrow> gives P (case x of None \<Rightarrow> m | Some a \<Rightarrow> f a)"
  by (cases x) auto

lemma gives_sum: "(\<And>a. gives P (f a)) \<Longrightarrow> (\<And>b. gives P (g b)) \<Longrightarrow> gives P (case x of Inl a \<Rightarrow> f a | Inr b \<Rightarrow> g b)"
  by (cases x) auto

lemma gives_adapter: "gives P m \<Longrightarrow> gives P (on_adapter m)"
  by (auto simp: gives_def on_adapter_def dest: givesD [unfolded gives_def] split: prod.splits)

lemmas gives_intros = gives_if gives_option gives_sum gives_ret gives_bnd gives_gets

lemma reply_with_gives: "gives is_reply (reply_with e ws m payload)"
  unfolding reply_with_def by (intro gives_intros) (simp split: sum.split)

lemma workspace_requests_give: "gives is_reply (dispatch_workspace_request e handler verb request)"
  unfolding dispatch_workspace_request_def by (intro gives_intros) simp_all

lemma queries_give: "gives (\<lambda>r. case r of None \<Rightarrow> True | Some answer \<Rightarrow> is_reply answer) (dispatch_filesystem_query e ws verb path)"
  unfolding dispatch_filesystem_query_def Let_def
  by (intro gives_if gives_bnd_value [OF reply_with_gives] gives_ret) simp_all

lemma mutations_give: "gives is_reply (dispatch_filesystem_mutation e ws verb request path)"
  unfolding dispatch_filesystem_mutation_def write_request_def Let_def
  by (intro gives_if reply_with_gives gives_bnd gives_ret) simp_all

lemma filesystem_requests_give: "gives is_reply (dispatch_filesystem_request e handler verb request)"
  unfolding dispatch_filesystem_request_def Let_def
  by (intro gives_bnd gives_if gives_bnd_value [OF queries_give] gives_option gives_bnd_value [OF mutations_give] gives_ret) auto

lemma requests_give: "gives is_reply (dispatch_control_request e setup request)"
proof (cases request)
  case Nil
  then show ?thesis by (simp add: dispatch_control_request_def gives_ret)
next
  case (Cons verb rest)
  show ?thesis
    unfolding dispatch_control_request_def Cons list.case
    by (intro gives_if gives_adapter workspace_requests_give filesystem_requests_give gives_ret gives_gets gives_bnd gives_sum)
      (simp_all add: info_reply_def Let_def)
qed

text \<open>C30: Every answer the server gives is \<^verbatim>\<open>OK\<close> with a payload or \<^verbatim>\<open>ERR\<close> with one message, whatever the request.\<close>
theorem every_answer_is_a_reply:
  "case fst (dispatch_control_request e setup request v) of Ok answer \<Rightarrow> is_reply answer | _ \<Rightarrow> True"
  using requests_give [of e "setup" request] by (auto simp: gives_def split: res.split)

section \<open>From the client to the daemon and back\<close>

text \<open>The client's view of an answer.\<close>

definition answer_value :: "reply \<Rightarrow> string + string list" where
  "answer_value answer = (if hd answer = ''ERR'' then Inl (answer ! 1) else Inr (tl answer))"

lemma interpret_answer:
  assumes "is_reply answer"
  shows "interpret_reply (encode_message answer) = answer_value answer"
proof -
  have ne: "answer \<noteq> []" using assms by (auto simp: is_reply_def)
  have "encode_message answer \<noteq> []" using encoded_line(1) [of answer] by (metis append_is_Nil_conv not_Cons_self2)
  moreover have "decode_message (encode_message answer) = answer" using decoded_message [OF ne, of "[]"] by simp
  ultimately show ?thesis
    using assms by (auto simp: interpret_reply_def answer_value_def is_reply_def length_Suc_conv split: list.splits)
qed

text \<open>
  A client and a connection that carry the bytes: the sockets take the whole messages, and each
  end reads what the other sent, in any pieces.
\<close>

definition carried :: "client_socket \<Rightarrow> connection \<Rightarrow> string list \<Rightarrow> reply \<Rightarrow> bool" where
  "carried c n request answer \<longleftrightarrow>
     socket_made c \<and> socket_connects c \<and>
     send_whole_message (request_script c) (encode_message request) = Some (True, encode_message request) \<and>
     cut_into (encode_message request) (incoming n) \<and>
     send_whole_message (outgoing n) (encode_message answer) = Some (True, encode_message answer) \<and>
     cut_into (encode_message answer) (reply_chunks c)"

text \<open>C31: Over sockets that carry the bytes in any pieces, the daemon dispatches exactly the fields the
  client sent, sends its whole answer, and the client gets the payload or the error message of that answer.\<close>
theorem client_gets_the_answer:
  assumes "request \<noteq> []" "dispatch_control_request e setup request v = (Ok answer, v')"
    and "carried c n request answer" "length (path_string socket) < kSunPathSize"
  shows "serve_client e setup n v = (Ok (encode_message answer), v') \<and> control_request c socket request = answer_value answer"
proof
  have received: "decode_message (receive_request [] (incoming n)) = request"
    using assms(1,3) by (intro request_received) (simp_all add: carried_def)
  then show "serve_client e setup n v = (Ok (encode_message answer), v')"
    using assms(2,3) by (simp add: serve_client_def prog_defs carried_def)
  have "is_reply answer" by (rule givesD [OF requests_give assms(2)])
  moreover have "read_reply (reply_chunks c) = encode_message answer"
    using assms(3) by (intro read_reply_cut) (simp add: carried_def)
  ultimately show "control_request c socket request = answer_value answer"
    using assms(3,4) by (simp add: control_request_def carried_def interpret_answer)
qed

section \<open>Stopping\<close>


end
