(* ===== verification/Daemon.thy ===== *)
theory Daemon
  imports Control_Server
begin

text \<open>
  The daemon process (\<^verbatim>\<open>daemon/main.cpp\<close>): its command line, and the order of its start and its end.
  What other processes and threads do to the host while the daemon sleeps is the parameter
  \<open>others\<close>; what the mount thread does before the mount is ready is the parameter \<open>mount_thread\<close>.
\<close>

section \<open>Command line\<close>

record daemon_options =
  daemon_project :: string
  daemon_mount :: bool
  daemon_debug :: bool

fun parse_daemon_arguments :: "string list \<Rightarrow> daemon_options \<Rightarrow> string + daemon_options" where
  "parse_daemon_arguments [] options = Inr options"
| "parse_daemon_arguments (argument # rest) options =
     (if argument = ''--project'' \<and> rest \<noteq> []
      then parse_daemon_arguments (tl rest) (options\<lparr>daemon_project := hd rest\<rparr>)
      else if argument = ''--no-mount''
      then parse_daemon_arguments rest (options\<lparr>daemon_mount := False\<rparr>)
      else if argument = ''--debug''
      then parse_daemon_arguments rest (options\<lparr>daemon_debug := True\<rparr>)
      else Inl (''tribios_daemon: unknown argument '' @ argument))"

definition daemon_arguments :: "string list \<Rightarrow> string + daemon_options" where
  "daemon_arguments arguments =
     (case parse_daemon_arguments arguments
             \<lparr>daemon_project = [], daemon_mount = True, daemon_debug = False\<rparr> of
        Inl message \<Rightarrow> Inl message
      | Inr options \<Rightarrow>
          if daemon_project options = [] then Inl ''tribios_daemon: --project is required''
          else Inr options)"

section \<open>The mount point\<close>

text \<open>A mount point is on another device than its parent directory.\<close>

definition mount_is_active :: "path \<Rightarrow> node \<Rightarrow> bool" where
  "mount_is_active mount_point h =
     (case (k_stat h mount_point, k_stat h (butlast mount_point)) of
        (Inr m, Inr p) \<Rightarrow> dev (node_meta m) \<noteq> dev (node_meta p)
      | _ \<Rightarrow> False)"

definition on_server_machine :: "'a control \<Rightarrow> 'a serving" where
  "on_server_machine m = on_adapter (on_project (on_machine m))"

definition host_of_server :: "server \<Rightarrow> node" where
  "host_of_server v = host (mach (served (front v)))"

definition sleep :: "(machine \<Rightarrow> machine) \<Rightarrow> unit serving" where
  "sleep others = on_server_machine (modify others)"

text \<open>One check every 10 ms until the time is up.\<close>

fun wait_for_mount :: "nat \<Rightarrow> (machine \<Rightarrow> machine) \<Rightarrow> path \<Rightarrow> bool serving" where
  "wait_for_mount 0 others mount_point = ret False"
| "wait_for_mount (Suc checks) others mount_point =
     bnd (gets (\<lambda>v. mount_is_active mount_point (host_of_server v))) (\<lambda>active.
     if active then ret True
     else bnd (sleep others) (\<lambda>_. wait_for_mount checks others mount_point))"

section \<open>Start\<close>

definition open_manager :: "env \<Rightarrow> daemon_options \<Rightarrow> project control" where
  "open_manager e options =
     (let project_root = fs_join (current_directory e) (daemon_project options) in
      bnd (gets (\<lambda>s. pp_mount_point (from_project_root (host s) project_root))) (\<lambda>mount_point.
      bnd (gets (\<lambda>s. mount_is_active mount_point (host s))) (\<lambda>stale.
      bnd (if daemon_mount options \<and> stale
           then catch (unmount_project_view e mount_point)
                  (\<lambda>message. fail (''cannot remove the stale Project mount before recovery: '' @ message))
           else ret ()) (\<lambda>_.
      bnd (open_configured_project e project_root) (\<lambda>(paths, r, opened).
      bnd (gets id) (\<lambda>s.
      ret \<lparr>mach = s, project_dirs = paths, opened_record = r, engines = opened, reclaimers = []\<rparr>))))))"

definition shutdown_unmounts :: "env \<Rightarrow> path \<Rightarrow> unit served" where
  "shutdown_unmounts e mount_point =
     bnd (gets (\<lambda>a. mount_is_active mount_point (host (mach (served a))))) (\<lambda>active.
     if \<not> active then ret () else on_project (on_machine (unmount_project_view e mount_point)))"

definition daemon_setup :: "env \<Rightarrow> fuse_kernel \<Rightarrow> daemon_options \<Rightarrow> path \<Rightarrow> server_setup" where
  "daemon_setup e k options mount_point =
     (if daemon_mount options
      then \<lparr>external_change_handler = Some (forget_kernel_cache_for_workspace_path k),
            shutdown_unmount = Some (shutdown_unmounts e mount_point)\<rparr>
      else \<lparr>external_change_handler = None, shutdown_unmount = None\<rparr>)"

definition start_mount ::
  "(machine \<Rightarrow> machine) \<Rightarrow> unit serving \<Rightarrow> daemon_options \<Rightarrow> path \<Rightarrow> unit serving"
where
  "start_mount others mount_thread options mount_point =
     (if daemon_mount options
      then
        bnd mount_thread (\<lambda>_.
        bnd (wait_for_mount 1000 others mount_point) (\<lambda>mounted_now.
        modify (\<lambda>v. v\<lparr>mount_active := mounted_now\<rparr>)))
      else ret ())"

section \<open>End\<close>

text \<open>The mount is released before anything else ends; a process that waits for ever does not return.\<close>

fun release_mount :: "nat \<Rightarrow> env \<Rightarrow> (machine \<Rightarrow> machine) \<Rightarrow> path \<Rightarrow> unit serving" where
  "release_mount 0 e others mount_point = halt ''waiting for the mount''"
| "release_mount (Suc rounds) e others mount_point =
     bnd (gets (\<lambda>v. mount_is_active mount_point (host_of_server v))) (\<lambda>active.
     if \<not> active then ret ()
     else
       bnd (attempt (on_server_machine (unmount_project_view e mount_point))) (\<lambda>unmounted.
         case unmounted of
           Inr _ \<Rightarrow> ret ()
         | Inl _ \<Rightarrow> bnd (sleep others) (\<lambda>_. release_mount rounds e others mount_point)))"

definition end_daemon ::
  "nat \<Rightarrow> env \<Rightarrow> (machine \<Rightarrow> machine) \<Rightarrow> daemon_options \<Rightarrow> path \<Rightarrow> path \<Rightarrow> unit serving"
where
  "end_daemon rounds e others options mount_point socket_path =
     bnd (if daemon_mount options then release_mount rounds e others mount_point else ret ()) (\<lambda>_.
     bnd (on_adapter (on_project (wait_for_reclamation e))) (\<lambda>_.
     remove_socket socket_path))"

text \<open>The exit code of the process and what each client received.\<close>

definition run_daemon ::
  "nat \<Rightarrow> env \<Rightarrow> fuse_kernel \<Rightarrow> (machine \<Rightarrow> machine) \<Rightarrow> unit serving \<Rightarrow> daemon_options \<Rightarrow>
   connection list \<Rightarrow> (int \<times> string list) serving"
where
  "run_daemon rounds e k others mount_thread options clients =
     bnd (gets (\<lambda>v. project_dirs (served (front v)))) (\<lambda>paths.
     bnd (start_mount others mount_thread options (pp_mount_point paths)) (\<lambda>_.
     bnd (attempt (serve e (daemon_setup e k options (pp_mount_point paths)) (pp_socket paths) clients))
       (\<lambda>outcome.
     bnd (end_daemon rounds e others options (pp_mount_point paths) (pp_socket paths)) (\<lambda>_.
     ret (case outcome of Inl _ \<Rightarrow> (1, []) | Inr received \<Rightarrow> (0, received))))))"

definition new_server :: "project \<Rightarrow> server" where
  "new_server p =
     \<lparr>front = \<lparr>served = p, open_directories = [], next_directory = 1, mounted = False,
               mounted_view_root = [], notices = []\<rparr>,
      running = True, mount_active = False\<rparr>"

end
