(* ===== verification/Command_Line.thy ===== *)
theory Command_Line
  imports Daemon
begin

text \<open>
  The command line tool (\<^verbatim>\<open>cli/main.cpp\<close>). Its state is the machine it runs on, the sockets its next
  requests to the daemon will get, and what it has written. The environment variables, the build
  settings, the location of the executable, the spawning of a process and what others do while it
  sleeps are parameters.
\<close>

section \<open>State and output\<close>

record terminal =
  cli_machine :: machine
  cli_sockets :: "client_socket list"
  printed :: string
  warned :: string

type_synonym 'a cli = "(terminal, string, 'a) prog"

record tool =
  tool_env :: env
  getenv :: "string \<Rightarrow> string option"
  executable_link :: "string option"
  program_name :: string
  libexec_dir :: string
  tribios_version :: string
  posix_spawn :: "string list \<Rightarrow> machine \<Rightarrow> int \<times> int \<times> machine"
  meanwhile :: "machine \<Rightarrow> machine"

definition on_cli_machine :: "(machine, 'e, 'a) prog \<Rightarrow> (terminal, 'e, 'a) prog" where
  "on_cli_machine m t = (case m (cli_machine t) of (r, s) \<Rightarrow> (r, t\<lparr>cli_machine := s\<rparr>))"

definition endl :: string where "endl = [CHR 0x0A]"

definition print_out :: "string \<Rightarrow> (terminal, 'e, unit) prog" where
  "print_out text = modify (\<lambda>t. t\<lparr>printed := printed t @ text\<rparr>)"

definition print_err :: "string \<Rightarrow> (terminal, 'e, unit) prog" where
  "print_err text = modify (\<lambda>t. t\<lparr>warned := warned t @ text\<rparr>)"

definition print_line :: "string \<Rightarrow> (terminal, 'e, unit) prog" where
  "print_line text = print_out (text @ endl)"

text \<open>A path on an output stream is quoted.\<close>

definition quoted_path :: "path \<Rightarrow> string" where
  "quoted_path p =
     [CHR 0x22] @ concat (map (\<lambda>c. if c = CHR 0x22 \<or> c = CHR 0x5C then [CHR 0x5C, c] else [c]) (path_string p)) @
     [CHR 0x22]"

definition report_error :: "string \<Rightarrow> int cli" where
  "report_error message = bnd (print_err (''tribios: '' @ message @ endl)) (\<lambda>_. ret 1)"

text \<open>A request uses up the next socket; when none is left nothing listens.\<close>

definition ask :: "path \<Rightarrow> string list \<Rightarrow> (terminal, 'e, string + string list) prog" where
  "ask socket_path request =
     bnd (gets cli_sockets) (\<lambda>sockets.
       case sockets of
         [] \<Rightarrow> ret (Inl (''no daemon is listening at '' @ path_string socket_path))
       | c # rest \<Rightarrow>
           bnd (modify (\<lambda>t. t\<lparr>cli_sockets := rest\<rparr>)) (\<lambda>_.
           ret (control_request c socket_path request)))"

text \<open>\<^verbatim>\<open>vector::at\<close>.\<close>

definition field_at :: "string list \<Rightarrow> nat \<Rightarrow> string cli" where
  "field_at xs i = (if i < length xs then ret (xs ! i) else halt ''std::out_of_range'')"

section \<open>Options\<close>

record cli_options =
  positional :: "string list"
  opt_project :: string
  opt_mount :: string
  opt_branch :: string
  opt_force :: bool
  opt_no_mount :: bool
  opt_dry_run :: bool

definition no_options :: cli_options where
  "no_options =
     \<lparr>positional = [], opt_project = [], opt_mount = [], opt_branch = [], opt_force = False,
      opt_no_mount = False, opt_dry_run = False\<rparr>"

fun parse_options :: "string list \<Rightarrow> cli_options \<Rightarrow> cli_options" where
  "parse_options [] options = options"
| "parse_options [argument] options =
     (if argument = ''--force'' then options\<lparr>opt_force := True\<rparr>
      else if argument = ''--no-mount'' then options\<lparr>opt_no_mount := True\<rparr>
      else if argument = ''--dry-run'' then options\<lparr>opt_dry_run := True\<rparr>
      else options\<lparr>positional := positional options @ [argument]\<rparr>)"
| "parse_options (argument # following # rest) options =
     (if argument = ''--project'' then parse_options rest (options\<lparr>opt_project := following\<rparr>)
      else if argument = ''--mount'' then parse_options rest (options\<lparr>opt_mount := following\<rparr>)
      else if argument = ''--branch'' then parse_options rest (options\<lparr>opt_branch := following\<rparr>)
      else if argument = ''--force'' then parse_options (following # rest) (options\<lparr>opt_force := True\<rparr>)
      else if argument = ''--no-mount''
      then parse_options (following # rest) (options\<lparr>opt_no_mount := True\<rparr>)
      else if argument = ''--dry-run''
      then parse_options (following # rest) (options\<lparr>opt_dry_run := True\<rparr>)
      else parse_options (following # rest) (options\<lparr>positional := positional options @ [argument]\<rparr>))"

definition parse_command_line :: "string list \<Rightarrow> cli_options" where
  "parse_command_line arguments = parse_options arguments no_options"

section \<open>Finding the Project\<close>

definition absolute_path :: "tool \<Rightarrow> string \<Rightarrow> path" where
  "absolute_path w text = fs_join (current_directory (tool_env w)) text"

function find_configured :: "path \<Rightarrow> machine \<Rightarrow> path option" where
  "find_configured current s =
     (if fs_exists (current @ [kTribiosDirName, ''meta.db'']) s then Some current
      else if current = [] then None
      else find_configured (butlast current) s)"
  by auto
termination by (relation "measure (\<lambda>(current, _). length current)") auto

declare find_configured.simps [simp del]

definition resolve_configured_project_root ::
  "tool \<Rightarrow> cli_options \<Rightarrow> machine \<Rightarrow> string + path"
where
  "resolve_configured_project_root w options s =
     (if opt_project options \<noteq> [] then Inr (absolute_path w (opt_project options))
      else case getenv w ''TRIBIOS_PROJECT'' of
        Some from_env \<Rightarrow> Inr (absolute_path w from_env)
      | None \<Rightarrow>
          (case find_configured (current_directory (tool_env w)) s of
             Some current \<Rightarrow> Inr current
           | None \<Rightarrow>
               Inl ''no configured project found: pass --project or run `tribios configure`''))"

text \<open>The commands that talk to a daemon start with its paths.\<close>

definition with_project :: "tool \<Rightarrow> cli_options \<Rightarrow> (path \<Rightarrow> project_paths \<Rightarrow> int cli) \<Rightarrow> int cli" where
  "with_project w options k =
     bnd (gets (\<lambda>t. resolve_configured_project_root w options (cli_machine t))) (\<lambda>found.
       case found of
         Inl message \<Rightarrow> report_error message
       | Inr project \<Rightarrow>
           bnd (gets (\<lambda>t. from_project_root (host (cli_machine t)) project)) (\<lambda>paths. k project paths))"

definition executable_directory :: "tool \<Rightarrow> path" where
  "executable_directory w =
     (case executable_link w of
        Some target \<Rightarrow> butlast (segs target)
      | None \<Rightarrow> butlast (absolute_path w (program_name w)))"

definition resolve_daemon_path :: "tool \<Rightarrow> machine \<Rightarrow> path" where
  "resolve_daemon_path w s =
     (case getenv w ''TRIBIOS_DAEMON'' of
        Some from_env \<Rightarrow> absolute_path w from_env
      | None \<Rightarrow>
          let directory = executable_directory w;
              beside_cli = directory @ [''tribios_daemon''];
              installed = (if prefix ''/'' (libexec_dir w)
                           then segs (libexec_dir w) @ [''tribios_daemon'']
                           else fs_join (butlast directory) (libexec_dir w) @ [''tribios_daemon''])
          in if fs_exists beside_cli s then beside_cli
             else if fs_exists installed s then installed
             else beside_cli)"

section \<open>Waiting\<close>

text \<open>One attempt every 25 ms until the time is up, 600 in 15 seconds.\<close>

fun wait_for_socket :: "nat \<Rightarrow> tool \<Rightarrow> path \<Rightarrow> (terminal, 'e, string + unit) prog" where
  "wait_for_socket 0 w socket_path = ret (Inl ''the daemon did not start within the timeout'')"
| "wait_for_socket (Suc attempts) w socket_path =
     bnd (ask socket_path [''ping'']) (\<lambda>pinged.
       case pinged of
         Inr _ \<Rightarrow> ret (Inr ())
       | Inl _ \<Rightarrow>
           bnd (on_cli_machine (modify (meanwhile w))) (\<lambda>_. wait_for_socket attempts w socket_path))"

fun wait_for_socket_to_close :: "nat \<Rightarrow> tool \<Rightarrow> path \<Rightarrow> (terminal, 'e, string + unit) prog" where
  "wait_for_socket_to_close 0 w socket_path = ret (Inl ''the daemon did not stop within the timeout'')"
| "wait_for_socket_to_close (Suc attempts) w socket_path =
     bnd (ask socket_path [''ping'']) (\<lambda>pinged.
       case pinged of
         Inl _ \<Rightarrow> ret (Inr ())
       | Inr _ \<Rightarrow>
           bnd (on_cli_machine (modify (meanwhile w)))
             (\<lambda>_. wait_for_socket_to_close attempts w socket_path))"

fun wait_for_mount_to_close :: "nat \<Rightarrow> tool \<Rightarrow> path \<Rightarrow> (terminal, 'e, string + unit) prog" where
  "wait_for_mount_to_close 0 w mount_point = ret (Inl ''the mount did not stop within the timeout'')"
| "wait_for_mount_to_close (Suc attempts) w mount_point =
     bnd (gets (\<lambda>t. mount_is_active mount_point (host (cli_machine t)))) (\<lambda>active.
     if \<not> active then ret (Inr ())
     else
       bnd (on_cli_machine (modify (meanwhile w)))
         (\<lambda>_. wait_for_mount_to_close attempts w mount_point))"

section \<open>Configuring\<close>

definition kSecretsWarning :: string where
  "kSecretsWarning =
     ''warning: the Base state captures ignored and untracked files, which may include secrets'' @ endl @
     ''warning: every local process that can reach a Workspace can read them; Workspace isolation'' @ endl @
     ''warning: is a correctness boundary, not a security boundary''"

definition kCapturePolicyWarning :: string where
  "kCapturePolicyWarning =
     ''warning: .tribiosignore reduces what Workspaces receive; it is not a security '' @
     ''boundary''"

definition print_capture_exclusions :: "capture_stats \<Rightarrow> unit cli" where
  "print_capture_exclusions stats =
     for_each (exclusions stats)
       (\<lambda>x. print_line (''excluded '' @ exclusion_path x @ (if exclusion_directory x then ''/'' else []) @
                        '' ('' @ exclusion_reason x @ '')''))"

definition command_configure_dry_run :: "tool \<Rightarrow> path \<Rightarrow> int cli" where
  "command_configure_dry_run w root =
     bnd (gets (\<lambda>t. pp_root (from_project_root (host (cli_machine t)) root))) (\<lambda>project_root.
     bnd (attempt (on_cli_machine (load_from_project project_root))) (\<lambda>loaded.
       case loaded of
         Inl message \<Rightarrow> report_error message
       | Inr policy \<Rightarrow>
           bnd (attempt (on_cli_machine (plan_base_state_capture (tool_env w) project_root policy))) (\<lambda>planned.
             case planned of
               Inl message \<Rightarrow> report_error message
             | Inr stats \<Rightarrow>
                 bnd (print_line ''dry run: nothing was captured'') (\<lambda>_.
                 bnd (print_line (''would capture: '' @ show_int (captured_entries stats) @ '' entries, '' @
                                  show_int (captured_bytes stats) @ '' bytes'')) (\<lambda>_.
                 bnd (print_line (''would exclude: '' @ show_int (excluded_entries stats) @ '' entries, '' @
                                  show_int (excluded_bytes stats) @ '' bytes'')) (\<lambda>_.
                 bnd (print_capture_exclusions stats) (\<lambda>_.
                 bnd (if policy_patterns policy \<noteq> [] then print_err (kCapturePolicyWarning @ endl)
                      else ret ()) (\<lambda>_.
                 ret 0))))))))"

definition command_configure :: "tool \<Rightarrow> cli_options \<Rightarrow> int cli" where
  "command_configure w options =
     (if length (positional options) < 2 then report_error ''configure needs a project directory''
      else
        let root = absolute_path w (positional options ! 1) in
        if opt_dry_run options then command_configure_dry_run w root
        else
          bnd (attempt (on_cli_machine (configure (tool_env w) root (opt_mount options) (opt_force options))))
            (\<lambda>configured.
              case configured of
                Inl message \<Rightarrow> report_error message
              | Inr stats \<Rightarrow>
                  bnd (gets (\<lambda>t. from_project_root (host (cli_machine t)) root)) (\<lambda>paths.
                  bnd (print_line (''configured '' @ quoted_path (pp_root paths))) (\<lambda>_.
                  bnd (print_line (''base state: '' @ show_int (captured_entries stats) @ '' entries, '' @
                         show_int (captured_bytes stats) @ '' bytes, captured in '' @
                         show_int (capture_duration_ms stats) @ '' ms'')) (\<lambda>_.
                  bnd (print_line (''excluded by '' @ kCapturePolicyFileName @ '': '' @
                         show_int (excluded_entries stats) @ '' entries, '' @
                         show_int (excluded_bytes stats) @ '' bytes, policy evaluated in '' @
                         show_int (elapsed (tool_env w) ''policy'') @ '' ms'')) (\<lambda>_.
                  bnd (print_line (''mount point: '' @
                         path_string (if opt_mount options = [] then pp_mount_point paths
                                      else absolute_path w (opt_mount options)))) (\<lambda>_.
                  bnd (print_capture_exclusions stats) (\<lambda>_.
                  bnd (print_err (kSecretsWarning @ endl)) (\<lambda>_.
                  bnd (if exclusions stats \<noteq> [] then print_err (kCapturePolicyWarning @ endl)
                       else ret ()) (\<lambda>_.
                  ret 0))))))))))"

text \<open>\<^verbatim>\<open>lexically_relative\<close> of an absolute path to a canonical one.\<close>

fun lexically_relative :: "path \<Rightarrow> path \<Rightarrow> path" where
  "lexically_relative (x # xs) (y # ys) =
     (if x = y then lexically_relative xs ys
      else replicate (length (y # ys)) ''..'' @ (x # xs))"
| "lexically_relative xs [] = (if xs = [] then [''.''] else xs)"
| "lexically_relative [] ys = replicate (length ys) ''..''"

definition command_check_ignore :: "tool \<Rightarrow> cli_options \<Rightarrow> int cli" where
  "command_check_ignore w options =
     (if length (positional options) < 2 then report_error ''check-ignore needs a path''
      else
        bnd (gets (\<lambda>t. pp_root (from_project_root (host (cli_machine t))
                                  (case resolve_configured_project_root w options (cli_machine t) of
                                     Inr configured \<Rightarrow> configured
                                   | Inl _ \<Rightarrow> current_directory (tool_env w))))) (\<lambda>root.
        let given = positional options ! 1;
            inside = lexically_relative (segs given) root
        in
          if prefix ''/'' given \<and> hd inside = ''..''
          then report_error (given @ '' is outside the Project '' @ path_string root)
          else
            let rel = (if prefix ''/'' given
                       then unsegs inside @ (if suffix ''/'' given then ''/'' else [])
                       else given)
            in
              bnd (attempt (on_cli_machine (load_from_project root))) (\<lambda>loaded.
                case loaded of
                  Inl message \<Rightarrow> report_error message
                | Inr policy \<Rightarrow>
                    bnd (gets (\<lambda>t. explain_capture_decision (host (cli_machine t)) root policy rel)) (\<lambda>explained.
                      case explained of
                        Inl message \<Rightarrow> report_error message
                      | Inr x \<Rightarrow>
                          bnd (print_line ((if explained_excluded x then ''excluded '' else ''included '') @
                                 normalize_relative rel @ '' ('' @ explained_reason x @ '')''))
                            (\<lambda>_. ret 0)))))"

section \<open>The daemon\<close>

definition command_daemon_stop :: "tool \<Rightarrow> project_paths \<Rightarrow> int cli" where
  "command_daemon_stop w paths =
     bnd (ask (pp_socket paths) [''shutdown'']) (\<lambda>stopped.
       case stopped of
         Inl message \<Rightarrow> report_error message
       | Inr _ \<Rightarrow>
           bnd (wait_for_socket_to_close 600 w (pp_socket paths)) (\<lambda>closed.
             case closed of
               Inl message \<Rightarrow> report_error message
             | Inr _ \<Rightarrow>
                 bnd (wait_for_mount_to_close 600 w (pp_mount_point paths)) (\<lambda>unmounted.
                   case unmounted of
                     Inl message \<Rightarrow> report_error message
                   | Inr _ \<Rightarrow> bnd (print_line ''stopped'') (\<lambda>_. ret 0))))"

definition spawn_daemon :: "tool \<Rightarrow> path \<Rightarrow> project_paths \<Rightarrow> bool \<Rightarrow> (terminal, 'e, int \<times> int) prog" where
  "spawn_daemon w daemon_path paths no_mount t =
     (case posix_spawn w ([path_string daemon_path, ''--project'', path_string (pp_root paths)] @
                          (if no_mount then [''--no-mount''] else [])) (cli_machine t) of
        (status, pid, s) \<Rightarrow> (Ok (status, pid), t\<lparr>cli_machine := s\<rparr>))"

definition command_daemon_start :: "tool \<Rightarrow> cli_options \<Rightarrow> project_paths \<Rightarrow> int cli" where
  "command_daemon_start w options paths =
     bnd (ask (pp_socket paths) [''ping'']) (\<lambda>pinged.
       case pinged of
         Inr _ \<Rightarrow> bnd (print_line ''already running'') (\<lambda>_. ret 0)
       | Inl _ \<Rightarrow>
           bnd (gets (\<lambda>t. resolve_daemon_path w (cli_machine t))) (\<lambda>daemon_path.
           bnd (spawn_daemon w daemon_path paths (opt_no_mount options)) (\<lambda>(status, pid).
           if status \<noteq> 0 then report_error (''cannot start '' @ path_string daemon_path)
           else
             bnd (wait_for_socket 600 w (pp_socket paths)) (\<lambda>ready.
               case ready of
                 Inl message \<Rightarrow> report_error (message @ ''; see '' @ path_string (pp_log paths))
               | Inr _ \<Rightarrow>
                   bnd (print_line (''started (pid '' @ show_int pid @ '')'')) (\<lambda>_. ret 0)))))"

definition command_daemon :: "tool \<Rightarrow> cli_options \<Rightarrow> int cli" where
  "command_daemon w options =
     (if length (positional options) < 2 then report_error ''daemon needs start, stop or status''
      else
        let action = positional options ! 1 in
        with_project w options (\<lambda>_ paths.
          if action = ''status'' then
            bnd (ask (pp_socket paths) [''ping'']) (\<lambda>pinged.
              case pinged of
                Inr _ \<Rightarrow> bnd (print_line ''running'') (\<lambda>_. ret 0)
              | Inl _ \<Rightarrow> bnd (print_line ''stopped'') (\<lambda>_. ret 1))
          else if action = ''stop'' then command_daemon_stop w paths
          else if action \<noteq> ''start'' then report_error (''unknown daemon action: '' @ action)
          else command_daemon_start w options paths))"

section \<open>Requests\<close>

definition requesting ::
  "path \<Rightarrow> string list \<Rightarrow> (string list \<Rightarrow> int cli) \<Rightarrow> int cli"
where
  "requesting socket_path request k =
     bnd (ask socket_path request) (\<lambda>answer.
       case answer of Inl message \<Rightarrow> report_error message | Inr payload \<Rightarrow> k payload)"

definition command_workspace :: "tool \<Rightarrow> cli_options \<Rightarrow> int cli" where
  "command_workspace w options =
     (if length (positional options) < 2 then report_error ''workspace needs create, list or remove''
      else
        let action = positional options ! 1; named = (length (positional options) \<ge> 3) in
        with_project w options (\<lambda>_ paths.
          if action = ''create'' then
            if \<not> named then report_error ''workspace create needs a name''
            else
              requesting (pp_socket paths) [''ws.create'', positional options ! 2, opt_branch options] (\<lambda>c.
                bnd (field_at c 0) (\<lambda>name. bnd (field_at c 1) (\<lambda>branch.
                bnd (field_at c 2) (\<lambda>us. bnd (field_at c 3) (\<lambda>at.
                bnd (print_line (''created '' @ name @ '' on branch '' @ branch @ '' in '' @ us @ '' us at '' @ at))
                  (\<lambda>_. ret 0))))))
          else if action = ''remove'' then
            if \<not> named then report_error ''workspace remove needs a name''
            else
              requesting (pp_socket paths) [''ws.remove'', positional options ! 2] (\<lambda>r.
                bnd (field_at r 0) (\<lambda>name. bnd (field_at r 1) (\<lambda>us.
                bnd (print_line (''removed '' @ name @ '' logically in '' @ us @
                                 '' us; physical reclamation continues in the background''))
                  (\<lambda>_. ret 0))))
          else if action = ''wait-reclaim'' then
            requesting (pp_socket paths) [''ws.wait-reclaim''] (\<lambda>_. ret 0)
          else if action = ''list'' then
            requesting (pp_socket paths) [''ws.list''] (\<lambda>rows.
              bnd (print_line (''NAME'' @ [CHR 0x09] @ ''STATE'' @ [CHR 0x09] @ ''BRANCH'' @ [CHR 0x09] @
                     ''CREATE_US'' @ [CHR 0x09] @ ''LOGICAL_REMOVE_US'' @ [CHR 0x09] @ ''RECLAIM_US'')) (\<lambda>_.
              bnd (for_each rows print_line) (\<lambda>_. ret 0)))
          else report_error (''unknown workspace action: '' @ action)))"

definition print_stopped_info :: "project_record \<Rightarrow> unit cli" where
  "print_stopped_info r =
     for_each
       [''root: '' @ pr_root r, ''mount: '' @ pr_mount_point r, ''kind: git'',
        ''base entries: '' @ show_int (pr_base_entry_count r),
        ''base bytes: '' @ show_int (pr_base_bytes r), ''mount backend: unknown'', ''daemon: stopped'']
       print_line"

fun print_fields :: "string list \<Rightarrow> string list \<Rightarrow> nat \<Rightarrow> unit cli" where
  "print_fields [] payload i = ret ()"
| "print_fields (label # labels) payload i =
     bnd (field_at payload i) (\<lambda>text.
     bnd (print_line (label @ text)) (\<lambda>_. print_fields labels payload (i + 1)))"

definition command_info :: "tool \<Rightarrow> cli_options \<Rightarrow> int cli" where
  "command_info w options =
     with_project w options (\<lambda>project paths.
       bnd (ask (pp_socket paths) [''info'']) (\<lambda>info.
         case info of
           Inl _ \<Rightarrow>
             bnd (attempt (on_cli_machine (open_configured_project (tool_env w) project))) (\<lambda>opened.
               case opened of
                 Inl message \<Rightarrow> report_error message
               | Inr (_, r, _) \<Rightarrow> bnd (print_stopped_info r) (\<lambda>_. ret 0))
         | Inr payload \<Rightarrow>
             bnd (print_fields
                    [''root: '', ''mount: '', ''kind: '', ''base entries: '', ''base bytes: '',
                     ''base capture ms: '', ''mount backend: ''] payload 0) (\<lambda>_.
             bnd (print_line ''daemon: running'') (\<lambda>_. ret 0))))"

definition command_fs :: "tool \<Rightarrow> cli_options \<Rightarrow> int cli" where
  "command_fs w options =
     (if length (positional options) < 3 then report_error ''fs needs a verb and a workspace''
      else
        with_project w options (\<lambda>_ paths.
          requesting (pp_socket paths) ((''fs.'' @ positional options ! 1) # drop 2 (positional options))
            (\<lambda>payload. bnd (for_each payload print_line) (\<lambda>_. ret 0))))"

definition command_upper_bytes :: "tool \<Rightarrow> cli_options \<Rightarrow> int cli" where
  "command_upper_bytes w options =
     (if length (positional options) < 2 then report_error ''upper-bytes needs a workspace''
      else
        with_project w options (\<lambda>_ paths.
          requesting (pp_socket paths) [''stats.upper'', positional options ! 1] (\<lambda>payload.
            bnd (field_at payload 0) (\<lambda>text. bnd (print_line text) (\<lambda>_. ret 0)))))"

text \<open>A read-only open creates nothing; a file that is no database has no format version.\<close>

definition open_database_read_only :: "env \<Rightarrow> path \<Rightarrow> unit control" where
  "open_database_read_only e database =
     bnd (catch (bnd kernel_call (\<lambda>_. from_host (\<lambda>h. k_stat h database))) (\<lambda>code. fail (sql_error e code))) (\<lambda>_.
     catch kernel_call (\<lambda>_. fail ''metadata store: unsupported metadata format version''))"

definition operation_line :: "recovery_operation \<Rightarrow> string" where
  "operation_line op =
     ''operation '' @ show_int (op_id op) @ '' Workspace '' @ op_workspace op @ '' '' @ op_kind op @ '' '' @
     op_path op @ (if op_target op = [] then [] else '' -> '' @ op_target op)"

definition command_recovery :: "tool \<Rightarrow> cli_options \<Rightarrow> int cli" where
  "command_recovery w options =
     (if length (positional options) < 2 \<or> positional options ! 1 \<noteq> ''inspect''
      then report_error ''recovery needs inspect''
      else
        with_project w options (\<lambda>_ paths.
          bnd (attempt (on_cli_machine
                 (bnd (open_database_read_only (tool_env w) (pp_database paths)) (\<lambda>_.
                  bnd (load_recovery_operations (tool_env w)) (\<lambda>operations.
                  bnd (load_recovery_diagnostics (tool_env w)) (\<lambda>diagnostics.
                  ret (operations, diagnostics))))))) (\<lambda>loaded.
            case loaded of
              Inl message \<Rightarrow> report_error message
            | Inr (operations, diagnostics) \<Rightarrow>
                bnd (for_each
                       ([''metadata format: 1'', ''pending operations: '' @ show_nat (length operations)] @
                        map operation_line operations @
                        [''recovery diagnostics: '' @ show_nat (length diagnostics)] @
                        map (\<lambda>d. ''R'' @ show_int (diag_id d) @ '' '' @ diag_message d) diagnostics)
                       print_line) (\<lambda>_. ret 0))))"

section \<open>Commands\<close>

definition kUsage :: string where
  "kUsage = concat (map (\<lambda>l. l @ endl)
       [''tribios - persistent isolated development Workspaces'',
        [],
        ''usage:'',
        ''  tribios configure <project> [--mount <path>] [--force] [--dry-run]'',
        ''  tribios check-ignore <path> [--project <path>]'',
        ''  tribios info [--project <path>]'',
        ''  tribios daemon start [--project <path>] [--no-mount]'',
        ''  tribios daemon stop|status [--project <path>]'',
        ''  tribios workspace create <name> [--branch <branch>] [--project <path>]'',
        ''  tribios workspace list [--project <path>]'',
        ''  tribios workspace remove <name> [--project <path>]'',
        ''  tribios workspace wait-reclaim [--project <path>]'',
        ''  tribios recovery inspect [--project <path>]'',
        ''  tribios fs <verb> <workspace> <args...> [--project <path>]'',
        ''  tribios version'',
        [],
        ''`tribios fs` drives the Workspace engine directly. On macOS and Linux the same'',
        ''behavior is reachable through the mounted Workspace path; the verbs exist so'',
        ''the test and benchmark harness can exercise identical semantics without a FUSE'',
        ''backend.'',
        [],
        ''`.tribiosignore` at the Project root excludes matching paths from the Base'',
        ''state that `configure` captures. `configure --dry-run` reports what a capture'',
        ''would include and exclude without writing anything, and `check-ignore` explains'',
        ''the decision for one Project-relative path.''])"

definition cli_main :: "tool \<Rightarrow> string list \<Rightarrow> int cli" where
  "cli_main w arguments =
     (let options = parse_command_line arguments in
      case positional options of
        [] \<Rightarrow> bnd (print_out kUsage) (\<lambda>_. ret 2)
      | command # _ \<Rightarrow>
          if command = ''configure'' then command_configure w options
          else if command = ''check-ignore'' then command_check_ignore w options
          else if command = ''daemon'' then command_daemon w options
          else if command = ''workspace'' then command_workspace w options
          else if command = ''recovery'' then command_recovery w options
          else if command = ''info'' then command_info w options
          else if command = ''fs'' then command_fs w options
          else if command = ''upper-bytes'' then command_upper_bytes w options
          else if command = ''version'' \<or> command = ''--version'' then
            bnd (print_line (''tribios '' @ tribios_version w)) (\<lambda>_. ret 0)
          else if command = ''help'' \<or> command = ''--help'' then
            bnd (print_out kUsage) (\<lambda>_. ret 0)
          else bnd (print_err kUsage) (\<lambda>_. ret 2))"

end
