(* ===== verification/Samples.thy ===== *)
theory Samples
  imports Rename Lifecycle_Specs Control_Specs
begin

text \<open>
  A concrete Project with one Workspace, on which the theorems about the engine are applied: the
  Base state has a directory \<^verbatim>\<open>src\<close> with a file \<^verbatim>\<open>a\<close> and an empty directory \<^verbatim>\<open>src/d\<close>; the Workspace
  \<^verbatim>\<open>w\<close> has changed \<^verbatim>\<open>src/b\<close> and removed \<^verbatim>\<open>old\<close>.
\<close>

section \<open>Environment\<close>

definition sample_env :: env where
  "sample_env =
     \<lparr>tribios_io_fault = None, tribios_failpoint = None, tribios_short_write_bytes = None,
      umask = 0x12, daemon_uid = 1000, daemon_gid = 1000, directory_size = 4096,
      allocated_blocks = (\<lambda>_. 8), stream_buffer = 8191, sql_like = like_match,
      error_text = (\<lambda>_. ''error''), elapsed = (\<lambda>_. 7), current_directory = [''p''],
      run_process = (\<lambda>_ h. (0, [], h))\<rparr>"

section \<open>The machine\<close>

definition sample_meta :: "nat \<Rightarrow> perm \<Rightarrow> meta" where
  "sample_meta i mode =
     \<lparr>ino = i, dev = 1, perm = mode, owner = 1000, group = 1000, nlink = 1, atime = 10, mtime = 20,
      ctime = 30, mtime_ns = 0, ctime_ns = 0\<rparr>"

definition sample_dir :: "nat \<Rightarrow> (string \<times> node) list \<Rightarrow> node" where
  "sample_dir i cs = Dir (sample_meta i 0x1ED) cs"

definition sample_file :: "nat \<Rightarrow> string \<Rightarrow> node" where
  "sample_file i content = File (sample_meta i 0x1A4) content"

definition sample_base :: node where
  "sample_base =
     sample_dir 3 [(''src'', sample_dir 4 [(''a'', sample_file 5 ''hello''), (''d'', sample_dir 6 [])]),
                   (''old'', sample_file 7 ''gone'')]"

definition sample_upper :: node where
  "sample_upper = sample_dir 11 [(''src'', sample_dir 12 [(''b'', sample_file 13 ''mine'')])]"

definition sample_host :: node where
  "sample_host =
     sample_dir 1 [(''t'', sample_dir 2
       [(''base'', sample_base),
        (''workspaces'', sample_dir 9 [(''w'', sample_dir 10 [(''upper'', sample_upper)])])])]"

definition sample_engine :: engine where
  "sample_engine =
     \<lparr>workspace = ''w'', inode_salt = 5, base_dir = [''t'', ''base''],
      upper_dir = [''t'', ''workspaces'', ''w'', ''upper''], tombstones = {''old''},
      directory_entries_cache = [],
      handles = [(1, \<lparr>backing = Some (sample_file 5 ''hello''), backing_flags = O_RDONLY,
                      handle_flags = O_RDWR, relative = ''src/a''\<rparr>)],
      next_handle = 2\<rparr>"

definition sample_store :: store where
  "sample_store = empty_store\<lparr>tombstone_rows := [(''w'', ''old'')]\<rparr>"

definition sample :: machine where
  "sample =
     \<lparr>host = sample_host, store = sample_store, eng = sample_engine, faults = [], clock = 100,
      next_ino = 50, trace = []\<rparr>"

lemmas sample_defs =
  sample_def sample_store_def sample_engine_def sample_host_def sample_upper_def sample_base_def
  sample_file_def sample_dir_def empty_store_def

section \<open>It is a Project\<close>

lemma clean_segments: "clean_segment ''t''" "clean_segment ''base''" "clean_segment ''workspaces''"
  "clean_segment ''w''" "clean_segment ''upper''" "clean_segment ''src''" "clean_segment ''n''"
  "clean_segment ''a''" "clean_segment ''b''" "clean_segment ''d''" "clean_segment ''old''"
  by (simp_all add: clean_segment_def)

lemma sample_layout: "layout (eng sample) (host sample)"
  by (simp add: layout_def clean_segments workspace_dir_def recovery_dir_def sample_defs dir_at_def)

lemma sample_project: "project_engine [''t''] sample"
  unfolding project_engine_def
proof (intro conjI)
  show "layout (eng sample) (host sample)" by (rule sample_layout)
  show "housed ([''t''] @ [''workspaces'']) (eng sample)"
    by (simp add: housed_def clean_segments sample_defs)
  show "project_tree [''t''] ([''t''] @ [''workspaces'']) (host sample)"
    by (auto simp: project_tree_def clean_segments sample_defs dir_at_def split: if_splits)
  show "journal_ok (store sample)" "pending (store sample) = []"
    by (simp_all add: sample_defs journal_ok_def pending_def sql_load_recovery_operations_def)
  show "stages_free (eng sample) (store sample) (host sample)"
    by (simp add: stages_free_def stage_path_def recovery_dir_def workspace_dir_def sample_defs)
qed (simp_all add: sample_defs sql_load_workspace_tombstones_def)

text \<open>Nothing in its trees is a symbolic link.\<close>

function (sequential) linkless :: "node \<Rightarrow> bool" and linkless_entries :: "(string \<times> node) list \<Rightarrow> bool" where
  "linkless (Link m t) = False"
| "linkless (Dir m cs) = linkless_entries cs"
| "linkless n = True"
| "linkless_entries [] = True"
| "linkless_entries ((x, n) # cs) = (linkless n \<and> linkless_entries cs)"
  by pat_completeness auto
termination
  by (relation "measure (\<lambda>x. case x of Inl n \<Rightarrow> size n
        | Inr cs \<Rightarrow> size_list (size_prod (\<lambda>_. 0) size) cs)") auto

lemma linkless_entries_lookup: "linkless_entries cs \<Longrightarrow> map_of cs x = Some n \<Longrightarrow> linkless n"
  by (induction cs) (auto split: if_splits)

lemma linkless_get: "linkless n \<Longrightarrow> get n p = Some c \<Longrightarrow> linkless c"
proof (induction p arbitrary: n)
  case (Cons x p)
  then show ?case
    by (cases n) (auto split: option.splits dest: linkless_entries_lookup)
qed simp

lemma linkless_no_link: "linkless n \<Longrightarrow> no_link (get n p)"
proof (cases "get n p")
  case (Some c)
  moreover assume "linkless n"
  ultimately show ?thesis using linkless_get by (cases c) (fastforce simp: no_link_def)+
qed (simp add: no_link_def)

lemma sample_plain: "plain_path (eng sample) (host sample) p"
proof -
  have "linkless (host sample)" by (simp add: sample_defs)
  then show ?thesis by (simp add: plain_path_def plain_def linkless_no_link)
qed

lemma sample_names:
  "normalize_relative ''src/n'' = unsegs [''src'', ''n'']"
  "normalize_relative ''src/a'' = unsegs [''src'', ''a'']"
  "normalize_relative ''./src//b'' = unsegs [''src'', ''b'']"
  "normalize_relative ''src/../src/d/'' = unsegs [''src'', ''d'']"
  "normalize_relative ''/old'' = unsegs [''old'']"
  by (simp_all add: normalize_relative_def unsegs_def take_segment_def append_segment_def)

lemma sample_sees_file:
  "file_in_view sample [''src'', ''a''] 0x1A4 ''hello''"
  "file_in_view sample [''src'', ''b''] 0x1A4 ''mine''"
  by (auto simp: file_in_view_def vis_def hid_def abstr_def sample_defs sample_meta_def unsegs_def
      append_segment_def prefix_Cons)

section \<open>The operations on it\<close>

theorem create_is_atomic_witness:
  "changes_entry sample_env [''t''] [''src'', ''n''] (\<lambda>x. x = fresh_file sample_env 0x1B6) sample
     (create sample_env ''src/n'' 0x1B6 sample)"
  by (rule create_is_atomic) (simp_all add: sample_project sample_plain clean_segments sample_names)

lemma sample_calm: "calm sample_env sample"
  by (simp add: calm_def sample_def sample_env_def)

lemma sample_shown_dirs: "under_shown_dirs sample [''src'', ''n'']"
  by (auto simp: under_shown_dirs_def shows_dir_def vis_def hid_def abstr_def sample_defs strict_prefix_def
      prefix_Cons Cons_eq_append_conv)

theorem create_returns_witness:
  "case create sample_env ''src/n'' 0x1B6 sample of
     (Ok _, t) \<Rightarrow> vis (eng t) (host t) [''src'', ''n''] = Some (fresh_file sample_env 0x1B6)
   | _ \<Rightarrow> False"
proof (rule create_returns [OF sample_project sample_plain])
  show "vis (eng sample) (host sample) [''src'', ''n''] = None"
    by (simp add: vis_def hid_def sample_defs)
qed (simp_all add: clean_segments sample_names sample_calm sample_shown_dirs)

theorem mkdir_is_atomic_witness:
  "changes_entry sample_env [''t''] [''src'', ''n''] (\<lambda>x. x = fresh_dir sample_env 0x1FF) sample
     (mkdir sample_env ''src/n'' 0x1FF sample)"
  by (rule mkdir_is_atomic) (simp_all add: sample_project sample_plain clean_segments sample_names)

theorem symlink_is_atomic_witness:
  "changes_entry sample_env [''t''] [''src'', ''n''] (\<lambda>x. x = VLink ''../b'') sample
     (symlink sample_env ''../b'' ''src/n'' sample)"
  by (rule symlink_is_atomic) (simp_all add: sample_project sample_plain clean_segments sample_names)

theorem chmod_is_atomic_witness:
  "changes_entry sample_env [''t''] [''src'', ''a''] (\<lambda>x. x = VFile 0x180 ''hello'') sample
     (chmod sample_env ''src/a'' 0x180 sample)"
  by (rule chmod_is_atomic [where pm = "0x1A4"])
    (simp_all add: sample_project sample_plain clean_segments sample_names sample_sees_file)

theorem truncate_is_atomic_witness:
  "changes_entry sample_env [''t''] [''src'', ''b''] (\<lambda>x. x = VFile 0x1A4 (resized (unat (2 :: 64 word)) ''mine''))
     sample (Workspace_Engine.truncate sample_env ''./src//b'' 2 sample)"
  by (rule truncate_is_atomic)
    (simp_all add: sample_project sample_plain clean_segments sample_names sample_sees_file)

theorem utimens_is_atomic_witness:
  "changes_entry sample_env [''t''] [''src'', ''a''] (\<lambda>x. x = VFile 0x1A4 ''hello'') sample
     (utimens sample_env ''src/a'' 5 6 sample)"
  by (rule utimens_is_atomic)
    (simp_all add: sample_project sample_plain clean_segments sample_names sample_sees_file)

theorem write_handle_is_atomic_witness:
  "changes_entry sample_env [''t''] [''src'', ''a'']
     (\<lambda>x. x = VFile 0x1A4 (pwrite_bytes (unat (5 :: 64 word)) (accepted_bytes sample_env '' there'') ''hello''))
     sample (write_handle sample_env 1 '' there'' 5 sample)"
proof (rule write_handle_is_atomic [OF sample_project sample_plain])
  show "map_of (handles (eng sample)) 1 =
      Some \<lparr>backing = Some (sample_file 5 ''hello''), backing_flags = O_RDONLY,
            handle_flags = O_RDWR, relative = ''src/a''\<rparr>"
    by (simp add: sample_def sample_engine_def)
qed (simp_all add: clean_segments sample_sees_file unsegs_def append_segment_def
      O_RDWR_def O_ACCMODE_def O_RDONLY_def)

theorem unlink_is_atomic_witness:
  "removes_entry sample_env [''t''] [''src'', ''a''] sample (unlink sample_env ''src/a'' sample)"
  by (rule unlink_is_atomic) (simp_all add: sample_project sample_plain clean_segments sample_names)


text \<open>A file takes the place of a removed one.\<close>

lemma sample_renameable: "renameable sample [''src'', ''a''] [''old'']"
proof -
  have "base_leaf (eng sample) (host sample) [''src'', ''a'']" "base_leaf (eng sample) (host sample) [''old'']"
    by (simp_all add: base_leaf_def leaf_def sample_defs)
  moreover have "same_spelling (insert (unsegs [''src'', ''a'']) (tombstones (eng sample))) [''old'']"
    by (auto simp: same_spelling_def sample_defs unsegs_def append_segment_def ascii_fold_def prefix_Cons)
  ultimately show ?thesis by (simp add: renameable_def clean_segments sample_plain)
qed

theorem rename_is_atomic_witness:
  "renames_entry sample_env [''t''] [''src'', ''a''] [''old''] (VFile 0x1A4 ''hello'') sample
     (rename sample_env ''src/a'' ''/old'' sample)"
proof (rule rename_is_atomic [OF sample_project _ sample_renameable])
  show "sqlite_like (sql_like sample_env)" by (simp add: sample_env_def sqlite_like_match)
qed (simp_all add: sample_sees_file sample_names)

theorem getattr_refines_view_witness:
  "case getattr sample_env ''src/a'' sample of
      (Ok a, t) \<Rightarrow> t = sample \<and> (\<exists>x. vis (eng sample) (host sample) [''src'', ''a''] = Some x \<and> shown_as a x)
    | (Err err, t) \<Rightarrow> t = sample \<and> err = ENOENT \<and> vis (eng sample) (host sample) [''src'', ''a''] = None
    | (Halt f, t) \<Rightarrow> False"
  by (rule getattr_refines_view [OF sample_project sample_plain]) (simp_all add: clean_segments sample_names)

theorem readlink_refines_view_witness:
  "case readlink ''src/a'' sample of
      (Ok target, t) \<Rightarrow> vis (eng sample) (host sample) [''src'', ''a''] = Some (VLink target) \<and>
        host t = host sample \<and> store t = store sample
    | (Err err, t) \<Rightarrow> host t = host sample \<and> store t = store sample \<and>
        (case vis (eng sample) (host sample) [''src'', ''a''] of
           None \<Rightarrow> err = ENOENT
         | Some (VLink target) \<Rightarrow> err = EIO \<and> faults sample \<noteq> []
         | Some _ \<Rightarrow> err = EINVAL)
    | (Halt f, t) \<Rightarrow> False"
  by (rule readlink_refines_view [OF sample_project sample_plain]) (simp_all add: clean_segments sample_names)

text \<open>Distinct names, by recursion over the tree.\<close>

function (sequential) distinct_tree :: "node \<Rightarrow> bool"
  and distinct_entries :: "(string \<times> node) list \<Rightarrow> bool"
where
  "distinct_tree (Dir m cs) \<longleftrightarrow> distinct (map fst cs) \<and> distinct_entries cs"
| "distinct_tree n \<longleftrightarrow> True"
| "distinct_entries [] \<longleftrightarrow> True"
| "distinct_entries ((x, n) # cs) \<longleftrightarrow> distinct_tree n \<and> distinct_entries cs"
  by pat_completeness auto
termination
  by (relation "measure (\<lambda>x. case x of Inl n \<Rightarrow> size n
        | Inr cs \<Rightarrow> size_list (size_prod (\<lambda>_. 0) size) cs)") auto

lemma distinct_entries_lookup: "distinct_entries cs \<Longrightarrow> map_of cs x = Some n \<Longrightarrow> distinct_tree n"
  by (induction cs) (auto split: if_splits)

lemma distinct_tree_get: "distinct_tree n \<Longrightarrow> get n p = Some c \<Longrightarrow> distinct_tree c"
proof (induction p arbitrary: n)
  case (Cons x p)
  then show ?case by (cases n) (auto split: option.splits dest: distinct_entries_lookup)
qed simp

lemma sample_listable: "clean p \<Longrightarrow> listable sample p"
proof -
  have "linkless (host sample)" "distinct_tree (host sample)" by (simp_all add: sample_defs)
  moreover assume "clean p"
  ultimately show ?thesis
    using distinct_tree_get [of "host sample"]
    by (fastforce simp: listable_def sample_plain linkless_no_link tree_names_distinct_def)
qed


theorem read_file_reads_view_witness:
  "case read_file sample_env ''src/a'' 3 1 sample of
      (Ok bytes, t) \<Rightarrow> bytes = take 3 (drop (unat (1 :: 64 word)) ''hello'') \<and>
        host t = host sample \<and> store t = store sample \<and> map_of (handles (eng t)) = map_of (handles (eng sample))
    | _ \<Rightarrow> False"
proof (rule read_file_reads_view [OF sample_project sample_plain])
  show "file_in_view sample [''src'', ''a''] 0x1A4 ''hello''" by (rule sample_sees_file)
qed (simp_all add: clean_segments sample_names sample_def sample_engine_def)

section \<open>The life of a Workspace on it\<close>

definition sample_paths :: project_paths where
  "sample_paths =
     \<lparr>pp_root = [''p''], pp_tribios_dir = [''t''], pp_base_dir = [''t'', ''base''],
      pp_workspaces_dir = [''t'', ''workspaces''], pp_staging_dir = [''t'', ''staging''],
      pp_database = [''t'', ''meta.db''], pp_socket = [''tmp'', ''s''], pp_mount_point = [''t'', ''mnt''],
      pp_log = [''t'', ''daemon.log'']\<rparr>"

definition sample_record :: workspace_record where
  "sample_record =
     \<lparr>ws_name = ''w'', ws_branch = ''topic'', ws_state = Active, ws_created_at = 90, ws_create_us = 7,
      ws_removed_at = 0, ws_logical_remove_us = 0, ws_reclaim_us = 0\<rparr>"

lemma sample_journal: "journal_ok (store sample)"
  using sample_project by (simp add: project_engine_def)


theorem removal_is_journaled_witness:
  "case remove_durably sample_env True sample_record sample of
      (Ok a, t) \<Rightarrow> removal_done sample_env sample_record (store sample) a (store t)
    | (Err _, t) \<Rightarrow> removal_error (ws_name sample_record) (store sample) (store t)
    | (Halt _, t) \<Rightarrow> removal_exit sample_env sample_record (store sample) (store t)"
  by (rule removal_is_journaled [OF sample_journal])

text \<open>
  An injected fault at the creation of the storage, followed by a failing update of the record, leaves a
  record that is being created without a row in the journal; the storage check of the next start
  refuses such a record.
\<close>

theorem creation_can_lose_its_row:
  "case create_durably (sample_env\<lparr>tribios_io_fault := Some ''lifecycle.storage.create''\<rparr>) sample_paths
      ''n'' ''topic'' (sample\<lparr>faults := [0, 0, 28]\<rparr>) of
     (Err _, t) \<Rightarrow> operation_rows (store t) = [] \<and> map wr_state (rows_of ''n'' (store t)) = [''creating'']
   | _ \<Rightarrow> False"
  by (simp add: create_durably_def lifecycle_boundary_def begin_recovery_operation_def record_creation_def
      create_storage_def settle_as_reclaimed_def discard_def then_undo_def save_workspace_record_def
      set_workspace_state_def abandon_recovery_operation_def execute_statement_without_rows_def sql_step_def
      kernel_call_def next_fault_def injected_io_error_def trigger_failpoint_def prog_defs Let_def
      sample_env_def sample_defs rows_of_def sql_begin_recovery_operation_def sql_save_workspace_record_def
      sql_abandon_recovery_operation_def new_workspace_record_def write_workspace_record_def
      lifecycle_operation_def write_operation_def)

theorem creating_record_is_refused:
  "fst (validate_workspace e root dir (new_workspace_record ''n'' branch now) s) =
     Err (''storage invariant failed for Project '' @ path_string root @
       '', Workspace n: creation has no recoverable operation record'')"
  by (simp add: validate_workspace_def new_workspace_record_def storage_error_def prog_defs)


section \<open>A request from one end to the other\<close>

definition sample_server :: server where
  "sample_server =
     \<lparr>front =
        \<lparr>served =
           \<lparr>mach = sample, project_dirs = sample_paths,
            opened_record = \<lparr>pr_root = ''/p'', pr_mount_point = ''/t/mnt'', pr_base_captured_at = 90,
              pr_base_capture_ms = 3, pr_base_entry_count = 4, pr_base_bytes = 5\<rparr>,
            engines = [(''w'', sample_engine)], reclaimers = []\<rparr>,
         open_directories = [], next_directory = 1, mounted = True, mounted_view_root = [''t'', ''mnt''],
         notices = []\<rparr>,
      running = True, mount_active = True\<rparr>"

definition sample_setup :: server_setup where
  "sample_setup = \<lparr>external_change_handler = None, shutdown_unmount = None\<rparr>"

text \<open>The request goes out in two calls with an interrupt between them and arrives in two other pieces.\<close>

definition sample_connection :: connection where
  "sample_connection =
     \<lparr>incoming = [''p'', ''ing'' @ [CHR 0x0A]], outgoing = [Sent 3, Sent 5]\<rparr>"

definition sample_client :: client_socket where
  "sample_client =
     \<lparr>socket_made = True, socket_connects = True, request_script = [Sent 2, Interrupted, Sent 3],
      reply_chunks = [''OK'' @ [CHR 0x09], ''pong'' @ [CHR 0x0A]]\<rparr>"

lemma sample_carried: "carried sample_client sample_connection [''ping''] [''OK'', ''pong'']"
  by (simp add: carried_def cut_into_def sample_client_def sample_connection_def encode_message_def
      append_escaped_def escape_byte_def must_escape_def send_whole_message_def)

theorem client_gets_the_answer_witness:
  "serve_client sample_env sample_setup sample_connection sample_server =
     (Ok (encode_message [''OK'', ''pong'']), sample_server) \<and>
   control_request sample_client [''tmp'', ''s''] [''ping''] = Inr [''pong'']"
  using client_gets_the_answer [of "[''ping'']" sample_env sample_setup sample_server "[''OK'', ''pong'']" sample_server,
      OF _ _ sample_carried, of "[''tmp'', ''s'']"]
  by (simp add: dispatch_control_request_def prog_defs ok_reply_def kSunPathSize_def path_string_def answer_value_def)

end
