(* ===== verification/Spec2Isabelle.thy ===== *)
theory Spec2Isabelle
  imports Operations Removal Rename Crash Queries Frames Lifecycle_Specs Control_Specs Git_Index Git_Worktree Command_Line Samples
begin

text \<open>
  Tribios: persistent isolated development Workspaces over one captured Base state.

  \<^bold>\<open>The program.\<close> A Project directory is captured once into an immutable Base tree
  (\<^verbatim>\<open>.tribios/base\<close>). Each Workspace keeps an upper tree (\<^verbatim>\<open>.tribios/workspaces/<name>/upper\<close>) of the
  entries it changed and a set of tombstones, the paths it removed. What a Workspace shows is the
  upper entry of a path, else the Base entry that no tombstone hides. A daemon serves all
  Workspaces through FUSE and answers requests on a socket; a command line tool configures the
  Project, starts the daemon and sends the requests. Metadata (the Project record, the Workspace
  records, the tombstones and a journal of unfinished operations) is in an SQLite database. Every
  change is staged beside the upper tree, journaled, published by one rename and then taken out of
  the journal, and a restart carries the journal through or rolls it back.

  \<^bold>\<open>Theories and sources\<close> (all paths below \<^verbatim>\<open>src/src\<close>, with their headers).
  \<^item> \<open>Prelude\<close>: results, programs with state and errors, the C++ string and container operations, the
    collections of hints, and the locale \<open>frame\<close> of programs that keep a part of the state.
  \<^item> \<open>Paths\<close>: \<^verbatim>\<open>core/paths.cpp\<close>. \<open>Utf8\<close>, \<open>Capture_Glob\<close>, \<open>Capture_Policy\<close>: \<^verbatim>\<open>core/capture_policy.cpp\<close>.
    \<open>Sha1\<close>: \<^verbatim>\<open>core/sha1.cpp\<close>. \<open>Git_Index\<close>: \<^verbatim>\<open>core/git_index.cpp\<close>. \<open>Protocol\<close>: \<^verbatim>\<open>daemon/protocol.cpp\<close>.
  \<^item> \<open>Metadata_Store\<close>: \<^verbatim>\<open>core/metadata_store.cpp\<close>, one definition per SQL statement on a record of tables.
    \<open>Fault_Injection\<close>: \<^verbatim>\<open>core/fault_injection.cpp\<close> and the environment record \<open>env\<close>.
  \<^item> \<open>Host_FS\<close>, \<open>Kernel\<close>: the file system below the program, as a tree and one total function per system
    call, with path resolution and symbolic links. \<open>Machine\<close>: the state of the daemon (\<open>host\<close>, \<open>store\<close>,
    \<open>eng\<close>, \<open>faults\<close>) and the calls as programs that may fail, with the flushes and failpoints of
    \<^verbatim>\<open>core/recovery.cpp\<close>.
  \<^item> \<open>Workspace_Engine\<close>: \<^verbatim>\<open>core/workspace_engine.cpp\<close>, one definition per member function; the object is the
    record \<open>engine\<close>. \<open>Recovery\<close>: \<^verbatim>\<open>core/recovery.cpp\<close>. \<open>Git_Worktree\<close>: \<^verbatim>\<open>core/git_worktree.cpp\<close>,
    \<^verbatim>\<open>core/workspace_git_index.cpp\<close> and \<^verbatim>\<open>core/proc.cpp\<close>. \<open>Base_Capture\<close>: \<^verbatim>\<open>core/base_capture.cpp\<close>.
  \<^item> \<open>Project_Manager\<close>, \<open>Workspace_Lifecycle\<close>: \<^verbatim>\<open>core/project_manager.cpp\<close>. \<open>Fuse_Adapter\<close>:
    \<^verbatim>\<open>fuse/fuse_adapter.cpp\<close>. \<open>Control_Server\<close>: \<^verbatim>\<open>daemon/control_server.cpp\<close> and \<^verbatim>\<open>daemon/control_client.cpp\<close>.
    \<open>Daemon\<close>: \<^verbatim>\<open>daemon/main.cpp\<close>. \<open>Command_Line\<close>: \<^verbatim>\<open>cli/main.cpp\<close>.

  \<^bold>\<open>Groups of lemmas.\<close>
  \<^item> \<open>Program_Logic\<close> and \<open>Machine_Specs\<close>: a program logic with three outcomes (result, error, process exit)
    and the specification of every call; the flag of an assertion says that no fault is to come, so
    the same triple gives the partial and the total statement.
  \<^item> \<open>Overlay\<close>: the abstract view \<open>vis\<close> of an engine and that the lookup of the code finds it. \<open>Copy_Up\<close>,
    \<open>Staging\<close>, \<open>Publication\<close>: copy-up, staging and publication as one transition; the locale \<open>preparing\<close>
    is the contract of the closure that fills the stage, with one interpretation per operation.
  \<^item> \<open>Crash\<close>: every state a process exit leaves is a \<open>crash_image\<close>, and recovery takes every such image to
    the old or to the new content. \<open>View_Change\<close>, \<open>Operations\<close>, \<open>Removal\<close>: each operation of the engine
    changes the view as its name says, after a return, after an error and across a process exit.
  \<^item> \<open>Queries\<close>: the reading operations answer from the view. \<open>Frames\<close>: programs that only read, or only
    work on the host. \<open>Samples\<close>: a concrete Project on which the hypotheses of the theorems hold.

  \<^bold>\<open>Conventions.\<close> A program is a function from a state to a result and a state; \<open>Err\<close> is an error the
  source returns, \<open>Halt\<close> the end of the process: a failpoint, an exception nothing catches, or a wait
  that does not end. The list \<open>faults\<close> gives the outcome of the next fallible calls (0 is success),
  so a theorem about every state is a theorem about every pattern of storage errors. SQLite's
  \<^verbatim>\<open>LIKE\<close>, git, sockets, libfuse, other processes and the mount thread are parameters. A reclamation
  thread is a step that runs later. Descriptors stand for the object found at the open.

  \<^bold>\<open>Bounds.\<close> \<open>materialize\<close>, the walk of a capture and \<open>sync_tree_durably\<close> recurse through the host by path;
  they get the size of the host tree as fuel, above the length of any chain of directories in it,
  and running out of it is an error, never a result. Path resolution follows at most 40 symbolic
  links, as Linux does. All other recursions are structural or have a termination proof. The scan
  of the extensions of an index returns \<open>None\<close> where the loop of the source does not end.

  \<^bold>\<open>Not modelled.\<close> The mutexes (a member function is one step), hard links, the times a directory gets when an
  entry is added, paths with NUL bytes, a database commit that fails although its changes are kept,
  write errors an output stream hides in its buffer, the answers of a build without FUSE, and the
  pieces in which a socket accepts connections. Measured times are values of the environment.
\<close>

end
